(* ===== verification/Prelude.thy ===== *)
theory Prelude
  imports "HOL-Library.Word" "HOL-Library.Monad_Syntax"
begin

text \<open>
  The vocabulary the components share: machine types, reads from a raw memory region,
  the collections of simplification rules, and the bit-level lemmas that relate the
  sign-extending \<open>char\<close> conversions of the code to plain byte values.

  Conventions of the whole library.  The target is x86-64 Linux with g++, as the object files
  of the repository and the flags of \<open>Makefile.in\<close> (\<open>-g -O0 -Wall -fPIC\<close>) show: \<open>char\<close> is
  signed, \<open>short\<close>, \<open>int\<close> and \<open>long\<close> have 16, 32 and 64 bits, \<open>>>\<close> on a negative value is
  arithmetic.  A value of a C integer type is a word of that width; \<open>sint\<close> reads a signed one.
  \<open>None\<close> as the result of an operation that reads or writes memory means that the C++ program
  has left defined behaviour (a read or write outside the region the pointer belongs to).
\<close>

unbundle bit_operations_syntax

section \<open>Machine types\<close>

type_synonym byte = "8 word"
type_synonym int16 = "16 word"
type_synonym int32 = "32 word"
type_synonym int64 = "64 word"

named_theorems byte_simps \<open>rules that evaluate byte extraction and byte assembly\<close>
named_theorems state_simps \<open>what each operation does to the fields of its state\<close>

text \<open>Conversion of an integer value to \<open>int\<close>: reduction to 32 bits in two's complement.\<close>

definition wrap32 :: "int \<Rightarrow> int" where
  "wrap32 x = sint (word_of_int x :: 32 word)"

lemma wrap32_id [simp]: "- (2 ^ 31) \<le> x \<Longrightarrow> x < 2 ^ 31 \<Longrightarrow> wrap32 x = x"
  by (simp add: wrap32_def sint_sbintrunc' signed_take_bit_int_eq_self)

lemma wrap32_nat [simp]: "n < 2147483648 \<Longrightarrow> wrap32 (int n) = int n"
  by (rule wrap32_id) auto

section \<open>Reading raw memory\<close>

text \<open>\<open>rd b i\<close> is \<open>b[i]\<close> for a pointer \<open>b\<close> to the first byte of the region.\<close>

definition rd :: "byte list \<Rightarrow> nat \<Rightarrow> byte option" where
  "rd b i = (if i < length b then Some (b ! i) else None)"

lemma rd_Cons_0 [simp]: "rd (x # xs) 0 = Some x"
  by (simp add: rd_def)

lemma rd_Cons_Suc [simp]: "rd (x # xs) (Suc n) = rd xs n"
  by (simp add: rd_def)

lemma rd_Cons_numeral [simp]: "rd (x # xs) (numeral k) = rd xs (pred_numeral k)"
  by (simp add: numeral_eq_Suc)

lemma rd_Nil [simp]: "rd [] n = None"
  by (simp add: rd_def)

lemma rd_Some [simp]: "i < length b \<Longrightarrow> rd b i = Some (b ! i)"
  by (simp add: rd_def)

lemma rd_None_iff: "rd b i = None \<longleftrightarrow> length b \<le> i"
  by (auto simp: rd_def)

section \<open>Bytes of a word\<close>

lemma bit_255 [simp]: "bit (0xFF :: int) n \<longleftrightarrow> n < 8"
proof -
  have "(0xFF :: int) = mask 8" by (simp add: mask_eq_exp_minus_1)
  then show ?thesis by (simp only: bit_mask_iff) simp
qed

text \<open>
  \<open>unsigned int c = b[0]\<close> sign-extends the \<open>char\<close>; the following \<open>c & 0xFF\<close> removes the
  copies of the sign bit again, so the result is the byte's unsigned value.
\<close>

lemma scast_and_ff [byte_simps]:
  "(scast (b :: byte) :: 'a::len word) AND 0xFF = (ucast b :: 'a word)"
proof (rule bit_word_eqI)
  fix n assume "n < LENGTH('a)"
  then show "bit ((scast b :: 'a word) AND 0xFF) n = bit (ucast b :: 'a word) n"
    by (cases "n < 7"; cases "n = 7")
      (auto dest: bit_imp_le_length
        simp: bit_and_iff bit_signed_iff bit_unsigned_iff min_def)
qed

lemma bit_ucast_byte: "bit (ucast (b :: byte) :: 'a::len word) n \<longleftrightarrow> n < LENGTH('a) \<and> bit b n"
  by (simp add: bit_unsigned_iff)

lemma bit_low_byte:
  "bit (ucast ((x :: 'a::len word) AND 0xFF) :: byte) n \<longleftrightarrow> n < 8 \<and> bit x n"
  by (auto dest: bit_imp_le_length simp: bit_unsigned_iff bit_and_iff)

lemma bit_push_byte:
  "bit (push_bit k (ucast (b :: byte) :: 'a::len word)) n \<longleftrightarrow>
   n < LENGTH('a) \<and> k \<le> n \<and> n < k + 8 \<and> bit b (n - k)"
  by (auto simp: bit_push_bit_iff bit_unsigned_iff dest: bit_imp_le_length)

section \<open>Lists\<close>

lemma take_list_update_beyond [simp]: "n \<le> i \<Longrightarrow> take n (xs[i := x]) = take n xs"
  by (simp add: take_update_swap list_update_beyond)

lemma take_Suc_update: "i < length xs \<Longrightarrow> take (Suc i) (xs[i := x]) = take i xs @ [x]"
  by (simp add: take_Suc_conv_app_nth)

text \<open>Appending to an output buffer, once under a condition and once per element.\<close>

lemma append_if: "(if c then out @ xs else out) = out @ (if c then xs else [])"
  by simp

lemma foldl_write: "foldl (\<lambda>out e. out @ f e) out es = out @ concat (map f es)"
  by (induction es arbitrary: out) simp_all

end
