(* ===== verification/ByteBuf.thy ===== *)
theory ByteBuf
  imports Prelude
begin

text \<open>
  \<^verbatim>\<open>commons/ByteBuf.hpp\<close>: the big-endian readers on a raw pointer, and the growable buffer
  a packet is serialised into.

  The buffer keeps the storage of its \<open>vector<char>\<close> explicitly: \<open>mem\<close> is the allocated
  block (its length is \<open>capacity()\<close>), the first \<open>vsize\<close> bytes of it are the elements.  The
  code writes through \<open>getWritePtr\<close> into the part beyond \<open>size()\<close>, which a plain list could
  not express.  How the standard library chooses a new capacity and what fresh storage
  contains is not fixed by the language, so it is the argument \<open>V\<close> of the operations.
\<close>

section \<open>Readers on a raw pointer\<close>

definition readByte :: "byte list \<Rightarrow> byte option" where
  "readByte b = rd b 0"

definition readShort :: "byte list \<Rightarrow> int16 option" where
  "readShort b = do {
     b0 \<leftarrow> rd b 0; b1 \<leftarrow> rd b 1;
     let c1 = (scast b0 :: int32);
     let c2 = (scast b1 :: int32);
     Some (ucast (push_bit 8 (c1 AND 0xFF) OR (c2 AND 0xFF)))
   }"

definition readInt :: "byte list \<Rightarrow> int32 option" where
  "readInt b = do {
     b0 \<leftarrow> rd b 0; b1 \<leftarrow> rd b 1; b2 \<leftarrow> rd b 2; b3 \<leftarrow> rd b 3;
     let c1 = (scast b0 :: int32);
     let c2 = (scast b1 :: int32);
     let c3 = (scast b2 :: int32);
     let c4 = (scast b3 :: int32);
     Some (push_bit 24 (c1 AND 0xFF) OR push_bit 16 (c2 AND 0xFF) OR
           push_bit 8 (c3 AND 0xFF) OR (c4 AND 0xFF))
   }"

text \<open>
  \<open>readLong\<close> shifts 32-bit operands by up to 56.  A shift by 32 or more is undefined for a
  32-bit type; \<open>oob k x\<close> is whatever the compiled code yields for it.
\<close>

type_synonym shl_oob = "nat \<Rightarrow> int32 \<Rightarrow> int32"

definition shl32 :: "shl_oob \<Rightarrow> nat \<Rightarrow> int32 \<Rightarrow> int32" where
  "shl32 oob k x = (if k < 32 then push_bit k x else oob k x)"

definition readLong :: "shl_oob \<Rightarrow> byte list \<Rightarrow> int64 option" where
  "readLong oob b = do {
     b0 \<leftarrow> rd b 0; b1 \<leftarrow> rd b 1; b2 \<leftarrow> rd b 2; b3 \<leftarrow> rd b 3;
     b4 \<leftarrow> rd b 4; b5 \<leftarrow> rd b 5; b6 \<leftarrow> rd b 6; b7 \<leftarrow> rd b 7;
     let c1 = (scast b0 :: int32);
     let c2 = (scast b1 :: int32);
     let c3 = (scast b2 :: int32);
     let c4 = (scast b3 :: int32);
     let c5 = (scast b4 :: int32);
     let c6 = (scast b5 :: int32);
     let c7 = (scast b6 :: int32);
     let c8 = (scast b7 :: int32);
     Some (ucast (shl32 oob 56 (c1 AND 0xFF) OR shl32 oob 48 (c2 AND 0xFF) OR
                  shl32 oob 40 (c3 AND 0xFF) OR shl32 oob 32 (c4 AND 0xFF) OR
                  shl32 oob 24 (c5 AND 0xFF) OR shl32 oob 16 (c6 AND 0xFF) OR
                  shl32 oob 8 (c7 AND 0xFF) OR (c8 AND 0xFF)))
   }"

text \<open>The shift instruction of x86 uses the count modulo 32.\<close>

definition x86_shl :: shl_oob where
  "x86_shl k x = push_bit (k mod 32) x"

section \<open>The buffer\<close>

record byteBuf =
  mem :: "byte list"
  vsize :: nat
  readerIndex :: int
  writerIndex :: int

text \<open>The choices of the standard library's \<open>vector\<close>, and what the standard promises of them.\<close>

record vector_impl =
  vgrow :: "nat \<Rightarrow> nat"
  vreserve :: "nat \<Rightarrow> nat"
  vfresh :: "nat \<Rightarrow> byte list"

definition vector_ok :: "vector_impl \<Rightarrow> bool" where
  "vector_ok V \<longleftrightarrow> (\<forall>c. c < vgrow V c) \<and> (\<forall>n. n \<le> vreserve V n) \<and>
     (\<forall>n. length (vfresh V n) = n)"

definition capacity :: "byteBuf \<Rightarrow> nat" where
  "capacity b = length (mem b)"

definition contents :: "byteBuf \<Rightarrow> byte list" where
  "contents b = take (vsize b) (mem b)"

definition realloc :: "vector_impl \<Rightarrow> nat \<Rightarrow> byteBuf \<Rightarrow> byteBuf" where
  "realloc V n b = b\<lparr>mem := take (vsize b) (mem b) @ vfresh V (n - vsize b)\<rparr>"

definition push_back :: "vector_impl \<Rightarrow> byte \<Rightarrow> byteBuf \<Rightarrow> byteBuf" where
  "push_back V c b =
     (let b' = (if vsize b < capacity b then b else realloc V (vgrow V (capacity b)) b)
      in b'\<lparr>mem := (mem b')[vsize b' := c], vsize := Suc (vsize b')\<rparr>)"

definition resize :: "vector_impl \<Rightarrow> int \<Rightarrow> byteBuf \<Rightarrow> byteBuf" where
  "resize V n b =
     (if capacity b < nat (n + 1) then realloc V (vreserve V (nat (n + 1))) b else b)"

definition ByteBuf :: byteBuf where
  "ByteBuf = \<lparr>mem = [], vsize = 0, readerIndex = 0, writerIndex = 0\<rparr>"

definition ByteBuf_sized :: "vector_impl \<Rightarrow> int \<Rightarrow> byteBuf" where
  "ByteBuf_sized V n = resize V n ByteBuf"

definition read_next :: "byteBuf \<Rightarrow> (byte \<times> byteBuf) option" where
  "read_next b =
     (if 0 \<le> readerIndex b \<and> readerIndex b < int (vsize b)
      then Some (mem b ! nat (readerIndex b), b\<lparr>readerIndex := wrap32 (readerIndex b + 1)\<rparr>)
      else None)"

definition buf_readByte :: "byteBuf \<Rightarrow> (byte \<times> byteBuf) option" where
  "buf_readByte b = read_next b"

definition buf_readInt :: "byteBuf \<Rightarrow> (int32 \<times> byteBuf) option" where
  "buf_readInt b = do {
     (c1, b) \<leftarrow> read_next b; (c2, b) \<leftarrow> read_next b;
     (c3, b) \<leftarrow> read_next b; (c4, b) \<leftarrow> read_next b;
     Some (push_bit 24 (scast c1 AND 0xFF) OR push_bit 16 (scast c2 AND 0xFF) OR
           push_bit 8 (scast c3 AND 0xFF) OR (scast c4 AND 0xFF), b)
   }"

definition writeByte :: "vector_impl \<Rightarrow> byte \<Rightarrow> byteBuf \<Rightarrow> byteBuf" where
  "writeByte V c b = (let b = push_back V c b in b\<lparr>writerIndex := wrap32 (writerIndex b + 1)\<rparr>)"

definition writeShort :: "vector_impl \<Rightarrow> int16 \<Rightarrow> byteBuf \<Rightarrow> byteBuf" where
  "writeShort V i b =
     (let c1 = (ucast (signed_drop_bit 8 (scast i :: int32) AND 0xFF) :: byte);
          c2 = (ucast ((scast i :: int32) AND 0xFF) :: byte);
          b = push_back V c1 b; b = push_back V c2 b
      in b\<lparr>writerIndex := wrap32 (writerIndex b + 2)\<rparr>)"

definition writeInt :: "vector_impl \<Rightarrow> int32 \<Rightarrow> byteBuf \<Rightarrow> byteBuf" where
  "writeInt V i b =
     (let c1 = (ucast (signed_drop_bit 24 i AND 0xFF) :: byte);
          c2 = (ucast (signed_drop_bit 16 i AND 0xFF) :: byte);
          c3 = (ucast (signed_drop_bit 8 i AND 0xFF) :: byte);
          c4 = (ucast (i AND 0xFF) :: byte);
          b = push_back V c1 b; b = push_back V c2 b;
          b = push_back V c3 b; b = push_back V c4 b
      in b\<lparr>writerIndex := wrap32 (writerIndex b + 4)\<rparr>)"

definition writeLong :: "vector_impl \<Rightarrow> int64 \<Rightarrow> byteBuf \<Rightarrow> byteBuf" where
  "writeLong V i b =
     (let c1 = (ucast (signed_drop_bit 56 i AND 0xFF) :: byte);
          c2 = (ucast (signed_drop_bit 48 i AND 0xFF) :: byte);
          c3 = (ucast (signed_drop_bit 40 i AND 0xFF) :: byte);
          c4 = (ucast (signed_drop_bit 32 i AND 0xFF) :: byte);
          c5 = (ucast (signed_drop_bit 24 i AND 0xFF) :: byte);
          c6 = (ucast (signed_drop_bit 16 i AND 0xFF) :: byte);
          c7 = (ucast (signed_drop_bit 8 i AND 0xFF) :: byte);
          c8 = (ucast (i AND 0xFF) :: byte);
          b = push_back V c1 b; b = push_back V c2 b;
          b = push_back V c3 b; b = push_back V c4 b;
          b = push_back V c5 b; b = push_back V c6 b;
          b = push_back V c7 b; b = push_back V c8 b
      in b\<lparr>writerIndex := wrap32 (writerIndex b + 8)\<rparr>)"

text \<open>The loop of \<open>writeBytes\<close>: \<open>i\<close> counts up to \<open>num\<close>, reading \<open>src[i]\<close>.\<close>

function writeBytes_loop :: "vector_impl \<Rightarrow> byte list \<Rightarrow> nat \<Rightarrow> nat \<Rightarrow> byteBuf \<Rightarrow> byteBuf option" where
  "writeBytes_loop V src i num b =
     (if i < num
      then (case rd src i of
              None \<Rightarrow> None
            | Some c \<Rightarrow> writeBytes_loop V src (Suc i) num (push_back V c b))
      else Some b)"
  by pat_completeness auto
termination
  by (relation "measure (\<lambda>(V, src, i, num, b). num - i)") auto

declare writeBytes_loop.simps [simp del]

definition writeBytes :: "vector_impl \<Rightarrow> byte list \<Rightarrow> int \<Rightarrow> byteBuf \<Rightarrow> byteBuf option" where
  "writeBytes V src num b =
     (if num \<le> 0 then Some b
      else (case writeBytes_loop V src 0 (nat num) b of
              None \<Rightarrow> None
            | Some b' \<Rightarrow> Some (b'\<lparr>writerIndex := wrap32 (writerIndex b' + num)\<rparr>)))"

definition readableBytes :: "byteBuf \<Rightarrow> int" where
  "readableBytes b = int (vsize b) - readerIndex b"

definition buf_size :: "byteBuf \<Rightarrow> int" where
  "buf_size b = int (vsize b)"

definition buf_clear :: "byteBuf \<Rightarrow> byteBuf" where
  "buf_clear b = b\<lparr>vsize := 0\<rparr>"

text \<open>
  \<open>getWritePtr\<close> returns NULL or \<open>&buff[writerIndex]\<close>; the model returns the offset in the
  block.  The difference of the sizes is computed in \<open>size_t\<close> and truncated to \<open>int\<close>.
\<close>

definition getWritePtr :: "int \<Rightarrow> byteBuf \<Rightarrow> int option" where
  "getWritePtr len b =
     (if wrap32 (int (capacity b) - writerIndex b) < len then None else Some (writerIndex b))"

definition addWriterIndex :: "int \<Rightarrow> byteBuf \<Rightarrow> byteBuf" where
  "addWriterIndex s b = b\<lparr>writerIndex := wrap32 (writerIndex b + s)\<rparr>"

text \<open>\<open>&buff[0]\<close>: the memory the pointer gives access to.\<close>

definition getBuffPtr :: "byteBuf \<Rightarrow> byte list" where
  "getBuffPtr b = mem b"

text \<open>A write of \<open>bs\<close> through a pointer into the block, at offset \<open>p\<close>.\<close>

definition store_at :: "int \<Rightarrow> byte list \<Rightarrow> byteBuf \<Rightarrow> byteBuf option" where
  "store_at p bs b =
     (if 0 \<le> p \<and> nat p + length bs \<le> capacity b
      then Some (b\<lparr>mem := take (nat p) (mem b) @ bs @ drop (nat p + length bs) (mem b)\<rparr>)
      else None)"

section \<open>When a reader leaves its region\<close>

lemma readers_None_iff:
  "readByte b = None \<longleftrightarrow> length b < 1"
  "readShort b = None \<longleftrightarrow> length b < 2"
  "readInt b = None \<longleftrightarrow> length b < 4"
  "readLong oob b = None \<longleftrightarrow> length b < 8"
  by (auto simp: readByte_def readShort_def readInt_def readLong_def Let_def rd_def)

section \<open>What the writers and readers promise\<close>

text \<open>The abstract encoding: the bytes of a value, most significant first.\<close>

definition be16 :: "int16 \<Rightarrow> byte list" where
  "be16 i = [ucast (drop_bit 8 i), ucast i]"

definition be32 :: "int32 \<Rightarrow> byte list" where
  "be32 i = [ucast (drop_bit 24 i), ucast (drop_bit 16 i), ucast (drop_bit 8 i), ucast i]"

definition be64 :: "int64 \<Rightarrow> byte list" where
  "be64 i = [ucast (drop_bit 56 i), ucast (drop_bit 48 i), ucast (drop_bit 40 i), ucast (drop_bit 32 i),
     ucast (drop_bit 24 i), ucast (drop_bit 16 i), ucast (drop_bit 8 i), ucast i]"

lemma length_be [simp]: "length (be16 i) = 2" "length (be32 j) = 4" "length (be64 k) = 8"
  by (simp_all add: be16_def be32_def be64_def)

text \<open>
  \<open>fits n b\<close>: the buffer is in the state its writers keep (elements inside the block,
  \<open>writerIndex\<close> at the end of the elements) and \<open>n\<close> more bytes keep \<open>writerIndex\<close> in \<open>int\<close>.
\<close>

definition fits :: "nat \<Rightarrow> byteBuf \<Rightarrow> bool" where
  "fits n b \<longleftrightarrow> vsize b \<le> capacity b \<and> writerIndex b = int (vsize b) \<and> vsize b + n < 2 ^ 31"

lemma fits_mono: "fits n b \<Longrightarrow> m \<le> n \<Longrightarrow> fits m b"
  by (auto simp: fits_def)

locale buf_writer =
  fixes put :: "'v \<Rightarrow> byteBuf \<Rightarrow> byteBuf"
    and enc :: "'v \<Rightarrow> byte list"
  assumes contents_write: "fits (length (enc v)) b \<Longrightarrow> contents (put v b) = contents b @ enc v"
    and fits_write: "fits (length (enc v) + n) b \<Longrightarrow> fits n (put v b)"
    and vsize_write: "fits (length (enc v)) b \<Longrightarrow> vsize (put v b) = vsize b + length (enc v)"
    and capacity_write: "fits (length (enc v)) b \<Longrightarrow> capacity b \<le> capacity (put v b)"
    and capacity_kept: "vsize b + length (enc v) \<le> capacity b \<Longrightarrow> capacity (put v b) = capacity b"
begin

lemma writes_contents:
  "fits (length (concat (map enc vs))) b \<Longrightarrow>
   contents (fold put vs b) = contents b @ concat (map enc vs)"
proof (induction vs arbitrary: b)
  case Nil
  then show ?case by simp
next
  case (Cons v vs)
  then have "fits (length (concat (map enc vs))) (put v b)"
    by (intro fits_write) simp
  moreover have "fits (length (enc v)) b"
    using Cons.prems by (rule fits_mono) simp
  ultimately show ?case
    by (simp add: Cons.IH contents_write)
qed

end

locale buf_codec = buf_writer +
  fixes get :: "byte list \<Rightarrow> 'a option"
  assumes read_enc: "get (enc v @ rest) = Some v"
begin

lemma read_written:
  assumes "fits (length (enc v)) b"
  shows "get (drop (vsize b) (contents (put v b)) @ rest) = Some v"
proof -
  have "length (contents b) = vsize b"
    using assms by (simp add: fits_def contents_def capacity_def)
  then show ?thesis
    by (simp add: contents_write [OF assms] read_enc)
qed

lemma enc_inj: "enc v = enc w \<Longrightarrow> v = w"
  using read_enc [of v "[]"] read_enc [of w "[]"] by simp

end

text \<open>The byte an expression \<open>(i >> k) & 0xFF\<close> leaves in a \<open>char\<close> is byte \<open>k/8\<close> of the value.\<close>

lemma byte_of_drop [byte_simps]:
  "k + 8 \<le> LENGTH('a) \<Longrightarrow> (ucast (signed_drop_bit k (x :: 'a::len word)) :: byte) = ucast (drop_bit k x)"
  by (rule bit_word_eqI) (auto simp: bit_simps)

lemma byte_of_low [byte_simps]: "(ucast ((x :: 'a::len word) AND 0xFF) :: byte) = ucast x"
  by (rule bit_word_eqI) (auto simp: bit_low_byte bit_simps dest: bit_imp_le_length)

lemma byte_of_short_high [byte_simps]:
  "(ucast (signed_drop_bit 8 (scast (i :: int16) :: int32) AND 0xFF) :: byte) = ucast (drop_bit 8 i)"
proof (rule bit_word_eqI)
  fix n assume "n < LENGTH(8)"
  then show "bit (ucast (signed_drop_bit 8 (scast i :: int32) AND 0xFF) :: byte) n =
      bit (ucast (drop_bit 8 i) :: byte) n"
    by (cases "n < 7"; cases "n = 7") (auto simp: bit_low_byte bit_simps min_def)
qed

lemma byte_of_short_low [byte_simps]: "(ucast ((scast (i :: int16) :: int32) AND 0xFF) :: byte) = ucast i"
  by (rule bit_word_eqI) (auto simp: bit_low_byte bit_simps min_def)

text \<open>Reassembly: the value the readers compute from the bytes, and that it is the value written.\<close>

definition join16 :: "byte \<Rightarrow> byte \<Rightarrow> int16" where
  "join16 b0 b1 = ucast (push_bit 8 (ucast b0) OR ucast b1 :: int32)"

definition join32 :: "byte \<Rightarrow> byte \<Rightarrow> byte \<Rightarrow> byte \<Rightarrow> int32" where
  "join32 b0 b1 b2 b3 = push_bit 24 (ucast b0) OR push_bit 16 (ucast b1) OR push_bit 8 (ucast b2) OR ucast b3"

lemma bit_join16: "bit (join16 b0 b1) n \<longleftrightarrow> n < 16 \<and> (if n < 8 then bit b1 n else bit b0 (n - 8))"
  by (auto simp: join16_def bit_unsigned_iff bit_or_iff bit_push_byte bit_ucast_byte
      dest: bit_imp_le_length)

lemma bit_join32:
  "bit (join32 b0 b1 b2 b3) n \<longleftrightarrow> n < 32 \<and>
   (if n < 8 then bit b3 n else if n < 16 then bit b2 (n - 8)
    else if n < 24 then bit b1 (n - 16) else bit b0 (n - 24))"
  by (auto simp: join32_def bit_or_iff bit_push_byte bit_ucast_byte dest: bit_imp_le_length)

lemma readShort_Cons: "readShort (b0 # b1 # rest) = Some (join16 b0 b1)"
  unfolding readShort_def join16_def Let_def scast_and_ff by simp

lemma readInt_Cons: "readInt (b0 # b1 # b2 # b3 # rest) = Some (join32 b0 b1 b2 b3)"
  unfolding readInt_def join32_def Let_def scast_and_ff by simp

lemma readInt_be32: "readInt (be32 i @ rest) = Some i"
  by (auto simp: readInt_Cons be32_def bit_join32 bit_simps intro!: bit_word_eqI split: if_splits)

lemma readShort_be16: "readShort (be16 i @ rest) = Some i"
  by (auto simp: readShort_Cons be16_def bit_join16 bit_simps intro!: bit_word_eqI split: if_splits)

lemma readByte_Cons: "readByte ([c] @ rest) = Some c"
  by (simp add: readByte_def)

section \<open>The writers over any conforming vector\<close>

locale vector_laws =
  fixes V :: vector_impl
  assumes ok: "vector_ok V"
begin

lemma grow: "c < vgrow V c" and reserve: "n \<le> vreserve V n" and fresh: "length (vfresh V n) = n"
  using ok by (auto simp: vector_ok_def)

lemma capacity_realloc: "vsize b \<le> n \<Longrightarrow> vsize b \<le> capacity b \<Longrightarrow> capacity (realloc V n b) = n"
  by (simp add: realloc_def capacity_def fresh)

lemma realloc_fields [simp]:
  "vsize (realloc V n b) = vsize b" "writerIndex (realloc V n b) = writerIndex b"
  "readerIndex (realloc V n b) = readerIndex b"
  by (simp_all add: realloc_def)

lemma contents_realloc: "vsize b \<le> capacity b \<Longrightarrow> contents (realloc V n b) = contents b"
  by (simp add: realloc_def contents_def capacity_def)

lemma push_back_fields [simp]:
  "vsize (push_back V c b) = Suc (vsize b)" "writerIndex (push_back V c b) = writerIndex b"
  "readerIndex (push_back V c b) = readerIndex b"
  by (simp_all add: push_back_def Let_def)

lemma push_back_inv:
  assumes "vsize b \<le> capacity b"
  shows "contents (push_back V c b) = contents b @ [c]"
    and "Suc (vsize b) \<le> capacity (push_back V c b)"
    and "capacity b \<le> capacity (push_back V c b)"
proof -
  define b' where "b' = (if vsize b < capacity b then b else realloc V (vgrow V (capacity b)) b)"
  have g: "capacity b < vgrow V (capacity b)" by (rule grow)
  then have "vsize b' < capacity b'" "capacity b \<le> capacity b'" "contents b' = contents b" "vsize b' = vsize b"
    using assms by (auto simp: b'_def capacity_realloc contents_realloc)
  moreover have "push_back V c b = b'\<lparr>mem := (mem b')[vsize b' := c], vsize := Suc (vsize b')\<rparr>"
    by (simp add: push_back_def b'_def Let_def)
  ultimately show "contents (push_back V c b) = contents b @ [c]"
    and "Suc (vsize b) \<le> capacity (push_back V c b)"
    and "capacity b \<le> capacity (push_back V c b)"
    by (simp_all add: contents_def capacity_def take_Suc_update)
qed

text \<open>Appending a list of bytes one \<open>push_back\<close> at a time, as every writer does.\<close>

lemma push_backs:
  assumes "vsize b \<le> capacity b"
  shows "contents (fold (push_back V) cs b) = contents b @ cs"
    and "vsize (fold (push_back V) cs b) = vsize b + length cs"
    and "vsize (fold (push_back V) cs b) \<le> capacity (fold (push_back V) cs b)"
    and "capacity b \<le> capacity (fold (push_back V) cs b)"
    and "writerIndex (fold (push_back V) cs b) = writerIndex b"
    and "readerIndex (fold (push_back V) cs b) = readerIndex b"
proof -
  have "contents (fold (push_back V) cs b) = contents b @ cs \<and>
    vsize (fold (push_back V) cs b) = vsize b + length cs \<and>
    vsize (fold (push_back V) cs b) \<le> capacity (fold (push_back V) cs b) \<and>
    capacity b \<le> capacity (fold (push_back V) cs b) \<and>
    writerIndex (fold (push_back V) cs b) = writerIndex b \<and>
    readerIndex (fold (push_back V) cs b) = readerIndex b"
    using assms
  proof (induction cs arbitrary: b)
    case Nil
    then show ?case by simp
  next
    case (Cons c cs)
    note inv = push_back_inv [OF Cons.prems, of c]
    then have "vsize (push_back V c b) \<le> capacity (push_back V c b)" by simp
    from Cons.IH [OF this] inv show ?case by simp
  qed
  then show "contents (fold (push_back V) cs b) = contents b @ cs"
    and "vsize (fold (push_back V) cs b) = vsize b + length cs"
    and "vsize (fold (push_back V) cs b) \<le> capacity (fold (push_back V) cs b)"
    and "capacity b \<le> capacity (fold (push_back V) cs b)"
    and "writerIndex (fold (push_back V) cs b) = writerIndex b"
    and "readerIndex (fold (push_back V) cs b) = readerIndex b"
    by auto
qed

lemma push_backs_capacity:
  "vsize b + length cs \<le> capacity b \<Longrightarrow> capacity (fold (push_back V) cs b) = capacity b"
proof (induction cs arbitrary: b)
  case (Cons c cs)
  then have "capacity (push_back V c b) = capacity b"
    by (simp add: push_back_def capacity_def)
  with Cons show ?case by simp
qed simp

lemma writeByte_eq:
  "writeByte V c b = (fold (push_back V) [c] b)\<lparr>writerIndex := wrap32 (writerIndex b + 1)\<rparr>"
  by (simp add: writeByte_def Let_def)

lemma writeShort_eq:
  "writeShort V i b = (fold (push_back V) (be16 i) b)\<lparr>writerIndex := wrap32 (writerIndex b + 2)\<rparr>"
  unfolding writeShort_def Let_def be16_def byte_of_short_high byte_of_short_low by simp

lemma writeInt_eq:
  "writeInt V i b = (fold (push_back V) (be32 i) b)\<lparr>writerIndex := wrap32 (writerIndex b + 4)\<rparr>"
  unfolding writeInt_def Let_def be32_def by (simp add: byte_of_low byte_of_drop)

lemma writeLong_eq:
  "writeLong V i b = (fold (push_back V) (be64 i) b)\<lparr>writerIndex := wrap32 (writerIndex b + 8)\<rparr>"
  unfolding writeLong_def Let_def be64_def by (simp add: byte_of_low byte_of_drop)

text \<open>Every writer is "append the encoding, advance \<open>writerIndex\<close>", so one argument serves all.\<close>

lemma writer_laws:
  assumes eq: "\<And>v b. put v b =
      (fold (push_back V) (enc v) b)\<lparr>writerIndex := wrap32 (writerIndex b + int (length (enc v)))\<rparr>"
  shows "buf_writer put enc"
proof
  fix v b n
  have upd: "contents (x\<lparr>writerIndex := w\<rparr>) = contents x" "capacity (x\<lparr>writerIndex := w\<rparr>) = capacity x" for x w
    by (simp_all add: contents_def capacity_def)
  show "contents (put v b) = contents b @ enc v" if "fits (length (enc v)) b"
    using that by (simp add: eq upd push_backs fits_def)
  show "fits n (put v b)" if "fits (length (enc v) + n) b"
    using that push_backs(3) [of b "enc v"] by (simp add: eq upd push_backs fits_def)
  show "vsize (put v b) = vsize b + length (enc v)" if "fits (length (enc v)) b"
    using that by (simp add: eq push_backs fits_def)
  show "capacity b \<le> capacity (put v b)" if "fits (length (enc v)) b"
    using that by (simp add: eq upd push_backs fits_def)
  show "capacity (put v b) = capacity b" if "vsize b + length (enc v) \<le> capacity b"
    using that by (simp add: eq upd push_backs_capacity)
qed

lemma writeBytes_loop_eq:
  "i \<le> num \<Longrightarrow> num \<le> length src \<Longrightarrow>
   writeBytes_loop V src i num b = Some (fold (push_back V) (drop i (take num src)) b)"
proof (induction V src i num b rule: writeBytes_loop.induct)
  case (1 V src i num b)
  show ?case
  proof (cases "i < num")
    case True
    with "1.prems" have "drop i (take num src) = src ! i # drop (Suc i) (take num src)"
      by (simp add: Cons_nth_drop_Suc [symmetric])
    with True "1.prems" "1.IH" [OF True, of "src ! i"] show ?thesis
      by (simp add: writeBytes_loop.simps [of V src i num b])
  next
    case False
    with "1.prems" have "i = num" by simp
    then show ?thesis by (simp add: writeBytes_loop.simps [of V src num num b])
  qed
qed

lemma writeBytes_eq:
  assumes "n \<le> length src" and "fits n b"
  obtains b' where "writeBytes V src (int n) b = Some b'" and "contents b' = contents b @ take n src"
    and "fits 0 b'" and "vsize b' = vsize b + n"
    and "vsize b + n \<le> capacity b \<longrightarrow> capacity b' = capacity b"
proof (cases "n = 0")
  case True
  then have "writeBytes V src (int n) b = Some b" by (simp add: writeBytes_def)
  with assms True show thesis by (intro that [of b]) simp_all
next
  case False
  let ?b = "(fold (push_back V) (take n src) b)\<lparr>writerIndex := wrap32 (writerIndex b + int n)\<rparr>"
  have inv: "vsize b \<le> capacity b" using assms by (simp add: fits_def)
  note pb = push_backs [OF inv, of "take n src"]
  have "writeBytes V src (int n) b = Some ?b"
    using False assms inv by (simp add: writeBytes_def writeBytes_loop_eq push_backs)
  moreover have "contents ?b = contents b @ take n src"
    using pb by (simp add: contents_def)
  moreover have "fits 0 ?b" "vsize ?b = vsize b + n"
    using pb assms by (simp_all add: fits_def capacity_def)
  moreover have "vsize b + n \<le> capacity b \<longrightarrow> capacity ?b = capacity b"
    using push_backs_capacity [of b "take n src"] assms(1) by (simp add: capacity_def)
  ultimately show thesis by (rule that)
qed

lemma resize_fields [simp]:
  "vsize (resize V n b) = vsize b" "writerIndex (resize V n b) = writerIndex b"
  by (simp_all add: resize_def)

lemma resize_inv:
  assumes "vsize b \<le> capacity b"
  shows "nat (n + 1) \<le> capacity (resize V n b)" "capacity b \<le> capacity (resize V n b)"
    "contents (resize V n b) = contents b"
  using assms reserve [of "nat (n + 1)"]
  by (auto simp: resize_def capacity_realloc contents_realloc)

lemma fits_resize: "fits k b \<Longrightarrow> fits k (resize V n b)"
  using resize_inv(2) [of b n] by (auto simp: fits_def)

text \<open>A freshly sized buffer has room for what it was sized for.\<close>

lemma sized_write_ptr:
  assumes "0 \<le> n" and "vreserve V (nat (n + 1)) < 2 ^ 31"
  shows "getWritePtr n (ByteBuf_sized V n) = Some 0"
    and "nat n < capacity (ByteBuf_sized V n)"
proof -
  have "capacity (ByteBuf_sized V n) = vreserve V (nat (n + 1))"
    using assms reserve [of "nat (n + 1)"]
    by (simp add: ByteBuf_sized_def resize_def ByteBuf_def capacity_def realloc_def fresh)
  moreover have "nat n < vreserve V (nat (n + 1))"
    using reserve [of "nat (n + 1)"] assms(1) by linarith
  moreover have "writerIndex (ByteBuf_sized V n) = 0"
    by (simp add: ByteBuf_sized_def ByteBuf_def)
  ultimately show "getWritePtr n (ByteBuf_sized V n) = Some 0"
    and "nat n < capacity (ByteBuf_sized V n)"
    using assms by (simp_all add: getWritePtr_def)
qed

end

sublocale vector_laws \<subseteq> wbyte: buf_codec "writeByte V" "\<lambda>c. [c]" readByte
  by (intro buf_codec.intro writer_laws buf_codec_axioms.intro)
    (simp_all add: writeByte_eq readByte_def)

sublocale vector_laws \<subseteq> wshort: buf_codec "writeShort V" be16 readShort
  by (intro buf_codec.intro writer_laws buf_codec_axioms.intro)
    (simp_all add: writeShort_eq readShort_be16)

sublocale vector_laws \<subseteq> wint: buf_codec "writeInt V" be32 readInt
  by (intro buf_codec.intro writer_laws buf_codec_axioms.intro)
    (simp_all add: writeInt_eq readInt_be32)

sublocale vector_laws \<subseteq> wlong: buf_writer "writeLong V" be64
  by (intro writer_laws) (simp add: writeLong_eq)

context vector_laws begin

lemmas byte_read = wbyte.read_written
  and short_read = wshort.read_written
  and int_read = wint.read_written
  and int_contents = wint.contents_write
  and int_vsize = wint.vsize_write
  and int_fits = wint.fits_write
  and long_contents = wlong.contents_write

text \<open>A read beyond the source region stops the copy.\<close>

lemma writeBytes_loop_None:
  "i \<le> length src \<Longrightarrow> length src < num \<Longrightarrow> writeBytes_loop V src i num b = None"
proof (induction V src i num b rule: writeBytes_loop.induct)
  case (1 V src i num b)
  then show ?case
    by (subst writeBytes_loop.simps) (auto simp: rd_def)
qed

lemma writeBytes_None_iff:
  assumes "fits n b"
  shows "writeBytes V src (int n) b = None \<longleftrightarrow> length src < n"
proof (cases "length src < n")
  case True
  then show ?thesis using writeBytes_loop_None [of 0 src n b] by (simp add: writeBytes_def)
next
  case False
  then have "n \<le> length src" by simp
  from writeBytes_eq [OF this assms] False show ?thesis by (metis option.distinct(1))
qed

end

text \<open>The vector of libstdc++: capacity doubles, \<open>reserve\<close> allocates what is asked for.\<close>

definition libstdcxx :: vector_impl where
  "libstdcxx = \<lparr>vgrow = (\<lambda>c. max 1 (2 * c)), vreserve = (\<lambda>n. n), vfresh = (\<lambda>n. replicate n 0)\<rparr>"

lemma libstdcxx_ok: "vector_ok libstdcxx"
  by (auto simp: vector_ok_def libstdcxx_def less_max_iff_disj)

interpretation libstd: vector_laws libstdcxx
  by unfold_locales (rule libstdcxx_ok)

section \<open>The 64-bit reader\<close>

lemma readLong_Cons:
  "readLong oob (b0 # b1 # b2 # b3 # b4 # b5 # b6 # b7 # rest) =
   Some (ucast (oob 56 (ucast b0) OR oob 48 (ucast b1) OR oob 40 (ucast b2) OR
     oob 32 (ucast b3) OR join32 b4 b5 b6 b7))"
  unfolding readLong_def join32_def Let_def scast_and_ff by (simp add: shl32_def or.assoc)

lemma readLong_be64:
  "readLong oob (be64 i @ rest) =
   Some (ucast (oob 56 (ucast (ucast (drop_bit 56 i) :: byte)) OR oob 48 (ucast (ucast (drop_bit 48 i) :: byte)) OR
     oob 40 (ucast (ucast (drop_bit 40 i) :: byte)) OR oob 32 (ucast (ucast (drop_bit 32 i) :: byte)) OR
     ucast i))"
proof -
  have "join32 (ucast (drop_bit 24 i)) (ucast (drop_bit 16 i)) (ucast (drop_bit 8 i)) (ucast i) = ucast i"
    by (auto simp: bit_join32 bit_simps intro!: bit_word_eqI split: if_splits)
  then show ?thesis by (simp add: be64_def readLong_Cons)
qed

lemma readLong_small:
  assumes "readLong oob b = Some v"
  shows "v < 2 ^ 32"
proof -
  from assms obtain w :: int32 where "v = ucast w"
    by (auto simp: readLong_def Let_def split: bind_splits)
  moreover have "unat w < 2 ^ LENGTH(32)" by (rule unsigned_less)
  then have "unat (ucast w :: int64) < 2 ^ 32"
    by (simp add: unsigned_ucast_eq take_bit_nat_eq_self)
  ultimately show ?thesis by (simp add: word_less_nat_alt)
qed

lemma take_bit32_small: "(i :: int64) < 2 ^ 32 \<Longrightarrow> take_bit 32 i = i"
  by (simp add: word_unat_eq_iff unsigned_take_bit_eq word_less_nat_alt take_bit_nat_eq_self)

lemma drop32_zero:
  assumes "(i :: int64) < 2 ^ 32" and "32 \<le> k"
  shows "drop_bit k i = 0"
proof (rule bit_word_eqI)
  fix n
  have "i = take_bit 32 i"
    using assms(1) by (rule take_bit32_small [symmetric])
  then have "\<not> bit i (k + n)"
    using assms(2) by (metis bit_take_bit_iff not_less trans_le_add1)
  then show "bit (drop_bit k i) n = bit (0 :: int64) n"
    by (simp add: bit_drop_bit_eq)
qed

lemma readLong_be64_small:
  assumes "\<And>k. oob k 0 = 0" and "i < 2 ^ 32"
  shows "readLong oob (be64 i @ rest) = Some i"
proof -
  have "(ucast (ucast i :: int32) :: int64) = i"
    using take_bit32_small [OF assms(2)] by (simp add: word_unat_eq_iff unsigned_ucast_eq)
  then show ?thesis
    by (simp add: readLong_be64 drop32_zero [OF assms(2)] assms(1))
qed

section \<open>The reading cursor\<close>

lemma read_next_contents:
  assumes "vsize b \<le> capacity b" and "r < vsize b" and "readerIndex b = int r" and "r < 2147483647"
  shows "read_next b = Some (contents b ! r, b\<lparr>readerIndex := int (Suc r)\<rparr>)"
proof -
  have "wrap32 (int (Suc r)) = int (Suc r)" using assms(4) by (intro wrap32_nat) simp
  then show ?thesis using assms by (simp add: read_next_def contents_def add.commute)
qed

lemma buf_readInt_contents:
  assumes "vsize b \<le> capacity b" and "r + 4 \<le> vsize b" and "readerIndex b = int r" and "vsize b < 2 ^ 31"
  shows "buf_readInt b = Some (join32 (contents b ! r) (contents b ! (r + 1)) (contents b ! (r + 2))
      (contents b ! (r + 3)), b\<lparr>readerIndex := int (r + 4)\<rparr>)"
proof -
  have upd: "contents (b\<lparr>readerIndex := x\<rparr>) = contents b" "capacity (b\<lparr>readerIndex := x\<rparr>) = capacity b" for x
    by (simp_all add: contents_def capacity_def)
  have step: "read_next (b\<lparr>readerIndex := int k\<rparr>) = Some (contents b ! k, b\<lparr>readerIndex := int (Suc k)\<rparr>)"
    if "k < vsize b" for k
    using read_next_contents [of "b\<lparr>readerIndex := int k\<rparr>" k] that assms by (simp add: upd)
  have "b = b\<lparr>readerIndex := int r\<rparr>" using assms(3) by simp
  then have s0: "read_next b = Some (contents b ! r, b\<lparr>readerIndex := int (Suc r)\<rparr>)"
    using step [of r] assms(2) by simp
  have s1: "read_next (b\<lparr>readerIndex := int (Suc r)\<rparr>) =
      Some (contents b ! Suc r, b\<lparr>readerIndex := int (Suc (Suc r))\<rparr>)"
    and s2: "read_next (b\<lparr>readerIndex := int (Suc (Suc r))\<rparr>) =
      Some (contents b ! Suc (Suc r), b\<lparr>readerIndex := int (Suc (Suc (Suc r)))\<rparr>)"
    and s3: "read_next (b\<lparr>readerIndex := int (Suc (Suc (Suc r)))\<rparr>) =
      Some (contents b ! Suc (Suc (Suc r)), b\<lparr>readerIndex := int (Suc (Suc (Suc (Suc r))))\<rparr>)"
    using assms(2) by (intro step; simp)+
  have idx: "r + 1 = Suc r" "r + 2 = Suc (Suc r)" "r + 3 = Suc (Suc (Suc r))" "r + 4 = Suc (Suc (Suc (Suc r)))"
    by simp_all
  show ?thesis
    unfolding buf_readInt_def join32_def scast_and_ff s0 idx
    by (simp only: s1 s2 s3 bind.bind_lunit prod.case)
qed

section \<open>Properties\<close>

text \<open>
  What \<open>writeByte\<close>, \<open>writeShort\<close> and \<open>writeInt\<close> append at the end of the buffer is read back
  as the same value by the static reader of the same width, whatever follows it.
\<close>

lemma write_read_roundtrip:
  assumes "vector_ok V" and "fits 4 b"
  shows "readByte (drop (vsize b) (contents (writeByte V c b)) @ rest) = Some c \<and>
    readShort (drop (vsize b) (contents (writeShort V s b)) @ rest) = Some s \<and>
    readInt (drop (vsize b) (contents (writeInt V i b)) @ rest) = Some i"
proof -
  have v: "vector_laws V" using assms(1) by (rule vector_laws.intro)
  have "fits 1 b" "fits 2 b" using assms(2) by (auto intro: fits_mono)
  with assms(2) show ?thesis
    by (simp add: vector_laws.byte_read [OF v] vector_laws.short_read [OF v]
        vector_laws.int_read [OF v])
qed

text \<open>
  The member reader \<open>readInt()\<close>, with its cursor at the end of the buffer before the write,
  returns the \<open>int\<close> that \<open>writeInt\<close> appended and moves the cursor over exactly its four bytes.
\<close>

lemma buf_readInt_written:
  assumes "vector_ok V" and "fits 4 b" and "readerIndex b = int (vsize b)"
  shows "buf_readInt (writeInt V i b) = Some (i, (writeInt V i b)\<lparr>readerIndex := int (vsize b) + 4\<rparr>)"
proof -
  have v: "vector_laws V" using assms(1) by (rule vector_laws.intro)
  let ?w = "writeInt V i b"
  have f: "fits 4 b" by (rule assms(2))
  have c: "contents ?w = contents b @ be32 i" and sz: "vsize ?w = vsize b + 4" and fw: "fits 0 ?w"
    using vector_laws.int_contents [OF v] vector_laws.int_vsize [OF v]
      vector_laws.int_fits [OF v, of i 0] f by simp_all
  have r: "readerIndex ?w = int (vsize b)"
    using f assms(3) by (simp add: vector_laws.writeInt_eq [OF v] vector_laws.push_backs [OF v] fits_def)
  have len: "length (contents b) = vsize b" using f by (simp add: contents_def fits_def capacity_def)
  have "buf_readInt ?w = Some (join32 (ucast (drop_bit 24 i)) (ucast (drop_bit 16 i)) (ucast (drop_bit 8 i)) (ucast i),
      ?w\<lparr>readerIndex := int (vsize b + 4)\<rparr>)"
    using buf_readInt_contents [of ?w "vsize b"] fw r sz
    by (simp add: fits_def c nth_append len be32_def)
  moreover have "join32 (ucast (drop_bit 24 i)) (ucast (drop_bit 16 i)) (ucast (drop_bit 8 i)) (ucast i) = i"
    using readInt_be32 [of i "[]"] by (simp add: be32_def readInt_Cons)
  ultimately show ?thesis by simp
qed

text \<open>
  \<open>writeBytes\<close> of \<open>n\<close> bytes appends exactly the first \<open>n\<close> bytes of the source, and leaves
  defined behaviour exactly when the source region is shorter than \<open>n\<close>.
\<close>

lemma writeBytes_spec:
  assumes "vector_ok V" and "fits n b"
  shows "case writeBytes V src (int n) b of
      None \<Rightarrow> length src < n
    | Some b' \<Rightarrow> n \<le> length src \<and> contents b' = contents b @ take n src \<and>
        writerIndex b' = writerIndex b + int n"
proof -
  have v: "vector_laws V" using assms(1) by (rule vector_laws.intro)
  show ?thesis
  proof (cases "n \<le> length src")
    case True
    obtain b' where "writeBytes V src (int n) b = Some b'" "contents b' = contents b @ take n src"
      "fits 0 b'" "vsize b' = vsize b + n"
      by (rule vector_laws.writeBytes_eq [OF v True assms(2)])
    with True assms(2) show ?thesis by (simp add: fits_def)
  next
    case False
    with vector_laws.writeBytes_None_iff [OF v assms(2), of src] show ?thesis by simp
  qed
qed

text \<open>
  Whatever the compiled code does with the shifts that are too wide, reading back a \<open>long\<close>
  of 2^32 or more that \<open>writeLong\<close> wrote gives a value below 2^32, so not the value written:
  the four high bytes of an 8-byte field are never restored.
\<close>

lemma readLong_loses_high_bytes:
  assumes "2 ^ 32 \<le> i"
  shows "\<exists>v. readLong oob (be64 i @ rest) = Some v \<and> v < 2 ^ 32 \<and> v \<noteq> i"
proof -
  obtain v where "readLong oob (be64 i @ rest) = Some v" using readLong_be64 by blast
  with readLong_small [OF this] assms show ?thesis by auto
qed

text \<open>
  A \<open>long\<close> below 2^32 that \<open>writeLong\<close> appends is read back by \<open>readLong\<close>, for every
  compiler whose too-wide shift of zero is zero.
\<close>

lemma write_readLong_small:
  assumes "vector_ok V" and "fits 8 b" and "\<And>k. oob k 0 = 0" and "i < 2 ^ 32"
  shows "readLong oob (drop (vsize b) (contents (writeLong V i b)) @ rest) = Some i"
proof -
  have v: "vector_laws V" using assms(1) by (rule vector_laws.intro)
  have "contents (writeLong V i b) = contents b @ be64 i"
    using vector_laws.long_contents [OF v] assms(2) by simp
  moreover have "length (contents b) = vsize b"
    using assms(2) by (simp add: contents_def fits_def capacity_def)
  ultimately show ?thesis using readLong_be64_small [of oob, OF assms(3,4)] by simp
qed

end
