(* ===== verification/KitePacket.thy ===== *)
theory KitePacket
  imports ByteBuf
begin

text \<open>
  \<^verbatim>\<open>protocol/protocol.h\<close>, \<^verbatim>\<open>protocol/protocol.cpp\<close> and \<^verbatim>\<open>protocol/KitePacket.cpp\<close>: the command
  codes, the packet, its serialisation and its parser.

  Two things the packet relies on are arguments.  The base class \<open>KitePacketHeader\<close> is not in
  the repository; its constructors are the record \<open>header_ctors\<close> (its getters and setters
  are the fields of \<open>header\<close>, whose types the calls in \<open>KitePacket.cpp\<close> fix).  The protocol
  buffer runtime, through which a message of any class is sized, serialised and parsed, is the
  record \<open>msg_rt\<close>.
\<close>

section \<open>Protocol constants\<close>

definition CMD_HEARTBEAT :: byte where "CMD_HEARTBEAT = 0x01"
definition CMD_CONN_META :: byte where "CMD_CONN_META = 0x02"
definition CMD_CONN_AUTH :: byte where "CMD_CONN_AUTH = 0x03"
definition CMD_MESSAGE_STORE_ACK :: byte where "CMD_MESSAGE_STORE_ACK = 0x04"
definition CMD_DELIVER_ACK :: byte where "CMD_DELIVER_ACK = 0x05"
definition CMD_TX_ACK :: byte where "CMD_TX_ACK = 0x06"
definition CMD_BYTES_MESSAGE :: byte where "CMD_BYTES_MESSAGE = 0x11"
definition CMD_STRING_MESSAGE :: byte where "CMD_STRING_MESSAGE = 0x12"

definition PACKET_HEAD_LEN :: int where "PACKET_HEAD_LEN = 4 + 1 + 2 + 8 + 4"
definition MAX_PACKET_BYTES :: int where "MAX_PACKET_BYTES = 32 * 1024"

definition TX_UNKNOWN :: int where "TX_UNKNOWN = 0"
definition TX_COMMIT :: int where "TX_COMMIT = 1"
definition TX_ROLLBACK :: int where "TX_ROLLBACK = 2"
definition HEAD_EXTENSION :: int64 where "HEAD_EXTENSION = 0"
definition HEAD_VERSION :: int16 where "HEAD_VERSION = 2"

definition CMD_STR_CRLF :: "byte list" where "CMD_STR_CRLF = [0x0D, 0x0A]"

lemmas cmd_defs = CMD_HEARTBEAT_def CMD_CONN_META_def CMD_CONN_AUTH_def CMD_MESSAGE_STORE_ACK_def
  CMD_DELIVER_ACK_def CMD_TX_ACK_def CMD_BYTES_MESSAGE_def CMD_STRING_MESSAGE_def

section \<open>Packets\<close>

record header =
  opaque :: int32
  cmdType :: byte
  version :: int16
  extension :: int64

record header_ctors =
  hdr :: header
  hdr_cmd :: "byte \<Rightarrow> header"
  hdr_opaque_cmd :: "int32 \<Rightarrow> byte \<Rightarrow> header"
  hdr_full :: "int32 \<Rightarrow> byte \<Rightarrow> int16 \<Rightarrow> int64 \<Rightarrow> header"

text \<open>The message classes \<open>parseFrom\<close> creates.\<close>

datatype msg_class = ConnAuthAckC | MessageStoreAckC | TxACKPacketC | BytesMessageC
  | StringMessageC | HeartBeatC

record 'm msg_rt =
  rt_new :: "msg_class \<Rightarrow> 'm"
  rt_ByteSize :: "'m \<Rightarrow> int"
  rt_SerializeToArray :: "'m \<Rightarrow> int \<Rightarrow> byte list"
  rt_ParseFromArray :: "'m \<Rightarrow> byte list \<Rightarrow> bool \<times> 'm"

record 'm kitePacket =
  hd_of :: header
  message :: "'m option"
  pbuf :: byteBuf

definition KitePacket_default :: "header_ctors \<Rightarrow> 'm kitePacket" where
  "KitePacket_default H = \<lparr>hd_of = hdr H, message = None, pbuf = ByteBuf\<rparr>"

definition KitePacket_cmd :: "header_ctors \<Rightarrow> byte \<Rightarrow> 'm option \<Rightarrow> 'm kitePacket" where
  "KitePacket_cmd H cmd msg = \<lparr>hd_of = hdr_cmd H cmd, message = msg, pbuf = ByteBuf\<rparr>"

definition KitePacket_opaque :: "header_ctors \<Rightarrow> int32 \<Rightarrow> byte \<Rightarrow> 'm option \<Rightarrow> 'm kitePacket" where
  "KitePacket_opaque H o' cmd msg = \<lparr>hd_of = hdr_opaque_cmd H o' cmd, message = msg, pbuf = ByteBuf\<rparr>"

definition KitePacket_full ::
  "header_ctors \<Rightarrow> int32 \<Rightarrow> byte \<Rightarrow> int16 \<Rightarrow> int64 \<Rightarrow> 'm option \<Rightarrow> 'm kitePacket" where
  "KitePacket_full H o' cmd ver ext msg =
     \<lparr>hd_of = hdr_full H o' cmd ver ext, message = msg, pbuf = ByteBuf\<rparr>"

definition setMessage :: "'m option \<Rightarrow> 'm kitePacket \<Rightarrow> 'm kitePacket" where
  "setMessage m p = p\<lparr>message := m\<rparr>"

definition getMessage :: "'m kitePacket \<Rightarrow> 'm option" where
  "getMessage p = message p"

definition getDelim :: string where
  "getDelim = [CHR 0x0D, CHR 0x0A]"

definition getHeaderLen :: int where
  "getHeaderLen = PACKET_HEAD_LEN"

definition getMaxFrameLength :: int where
  "getMaxFrameLength = MAX_PACKET_BYTES"

lemma getHeaderLen_eq [simp]: "getHeaderLen = 19"
  by (simp add: getHeaderLen_def PACKET_HEAD_LEN_def)

section \<open>Serialisation\<close>

text \<open>
  The loop at the end of \<open>toByteBuf\<close>.  When the write pointer is NULL the buffer is resized and
  \<open>continue\<close> goes to the loop condition, which is \<open>true\<close>; otherwise the payload is serialised
  into a temporary buffer, through a pointer beyond its \<open>size()\<close>, and copied.  The outer option
  is \<open>None\<close> when the loop does not return, the inner one when a write leaves its region.
\<close>

definition copy_payload :: "vector_impl \<Rightarrow> 'm msg_rt \<Rightarrow> 'm \<Rightarrow> int \<Rightarrow> byteBuf \<Rightarrow> byteBuf option" where
  "copy_payload V R m serialized_size b =
     (let buf = ByteBuf_sized V serialized_size in
      case getWritePtr serialized_size buf of
        None \<Rightarrow> None
      | Some p \<Rightarrow>
          (case store_at p (rt_SerializeToArray R m serialized_size) buf of
             None \<Rightarrow> None
           | Some buf' \<Rightarrow> writeBytes V (getBuffPtr buf') serialized_size b))"

partial_function (option) payload_loop ::
  "vector_impl \<Rightarrow> 'm msg_rt \<Rightarrow> 'm \<Rightarrow> int \<Rightarrow> int \<Rightarrow> byteBuf \<Rightarrow> byteBuf option option" where
  "payload_loop V R m serialized_size total_output_size b =
     (case getWritePtr serialized_size b of
        None \<Rightarrow> payload_loop V R m serialized_size total_output_size (resize V total_output_size b)
      | Some p \<Rightarrow> Some (copy_payload V R m serialized_size b))"

text \<open>The header fields, in the order they are written.\<close>

definition write_head :: "vector_impl \<Rightarrow> header \<Rightarrow> int \<Rightarrow> byteBuf \<Rightarrow> byteBuf" where
  "write_head V h serialized_size b =
     (let b = writeInt V (word_of_int (getHeaderLen + serialized_size)) b;
          b = writeInt V (opaque h) b;
          b = writeByte V (cmdType h) b;
          b = writeShort V (version h) b;
          b = writeLong V (extension h) b
      in writeInt V (word_of_int serialized_size) b)"

text \<open>
  \<open>toByteBuf\<close> returns the pointer \<open>&buff[0]\<close> and, through \<open>num\<close>, a byte count; the model
  returns the count and the packet, whose \<open>pbuf\<close> the pointer gives access to.
\<close>

definition toByteBuf ::
  "vector_impl \<Rightarrow> 'm msg_rt \<Rightarrow> 'm kitePacket \<Rightarrow> (int \<times> 'm kitePacket) option option" where
  "toByteBuf V R p =
     (case message p of
        None \<Rightarrow> Some None
      | Some m \<Rightarrow>
          (let serialized_size = rt_ByteSize R m;
               total_output_size = getHeaderLen + serialized_size + 4;
               b = (if buf_size (pbuf p) < total_output_size
                    then resize V total_output_size (pbuf p) else pbuf p);
               b = write_head V (hd_of p) serialized_size b
           in case payload_loop V R m serialized_size total_output_size b of
                None \<Rightarrow> None
              | Some None \<Rightarrow> Some None
              | Some (Some b') \<Rightarrow> Some (Some (total_output_size, p\<lparr>pbuf := b'\<rparr>))))"

text \<open>What the caller sends: \<open>num\<close> bytes from the returned pointer.\<close>

definition sent_bytes :: "int \<times> 'm kitePacket \<Rightarrow> byte list" where
  "sent_bytes r = take (nat (fst r)) (getBuffPtr (pbuf (snd r)))"

section \<open>Parsing\<close>

function delimPacket_loop :: "byte list \<Rightarrow> nat \<Rightarrow> nat \<Rightarrow> int option" where
  "delimPacket_loop buf bufsize i =
     (if i < bufsize
      then (case (rd buf (i - 1), rd buf i) of
              (Some DChar1, Some DChar2) \<Rightarrow>
                if DChar1 = 0x0D \<and> DChar2 = 0x0A then Some (int i + 1)
                else delimPacket_loop buf bufsize (Suc i)
            | _ \<Rightarrow> None)
      else Some 0)"
  by pat_completeness auto
termination
  by (relation "measure (\<lambda>(buf, bufsize, i). bufsize - i)") auto

declare delimPacket_loop.simps [simp del]

definition delimPacket :: "byte list \<Rightarrow> int \<Rightarrow> int option" where
  "delimPacket buf bufsize = delimPacket_loop buf (nat bufsize) 1"

text \<open>The \<open>switch\<close> on the command code; \<open>None\<close> is its default branch.\<close>

definition class_of_cmd :: "byte \<Rightarrow> msg_class option" where
  "class_of_cmd c =
     (if c = CMD_CONN_AUTH then Some ConnAuthAckC
      else if c = CMD_MESSAGE_STORE_ACK then Some MessageStoreAckC
      else if c = CMD_TX_ACK then Some TxACKPacketC
      else if c = CMD_BYTES_MESSAGE then Some BytesMessageC
      else if c = CMD_STRING_MESSAGE then Some StringMessageC
      else if c = CMD_HEARTBEAT then Some HeartBeatC
      else None)"

text \<open>
  \<open>new M\<close> and \<open>ParseFromArray(buf, len)\<close>, whose result the code ignores.  A length that is
  negative or leaves the region is undefined.
\<close>

definition parse_body :: "'m msg_rt \<Rightarrow> msg_class \<Rightarrow> byte list \<Rightarrow> int \<Rightarrow> 'm option" where
  "parse_body R k buf len =
     (if 0 \<le> len \<and> nat len \<le> length buf
      then Some (snd (rt_ParseFromArray R (rt_new R k) (take (nat len) buf)))
      else None)"

definition parseFrom ::
  "shl_oob \<Rightarrow> 'm msg_rt \<Rightarrow> 'm kitePacket \<Rightarrow> byte list \<Rightarrow> int \<Rightarrow> (bool \<times> 'm kitePacket) option" where
  "parseFrom oob R pkg buf pkglen = do {
     o' \<leftarrow> readInt buf;
     cmd \<leftarrow> readByte (drop 4 buf);
     ver \<leftarrow> readShort (drop (4 + 1) buf);
     ext \<leftarrow> readLong oob (drop (4 + 1 + 2) buf);
     bodyLength \<leftarrow> readInt (drop (4 + 1 + 2 + 8) buf);
     (if pkglen - getHeaderLen < sint bodyLength then Some (False, pkg)
      else (case class_of_cmd cmd of
              None \<Rightarrow> Some (False, pkg)
            | Some k \<Rightarrow> do {
                msg \<leftarrow> parse_body R k (drop (nat getHeaderLen) buf) (sint bodyLength);
                Some (True, pkg\<lparr>hd_of := \<lparr>opaque = o', cmdType = cmd, version = ver, extension = ext\<rparr>,
                                message := Some msg\<rparr>)
              }))
   }"

section \<open>The wire format\<close>

text \<open>
  The abstract format of a packet: length of what follows the length field, opaque, command,
  version, extension, body length, body.
\<close>

definition head_bytes :: "header \<Rightarrow> int \<Rightarrow> byte list" where
  "head_bytes h s = be32 (word_of_int (19 + s)) @ be32 (opaque h) @ [cmdType h] @ be16 (version h) @
     be64 (extension h) @ be32 (word_of_int s)"

definition packet_bytes :: "header \<Rightarrow> byte list \<Rightarrow> byte list" where
  "packet_bytes h body = head_bytes h (int (length body)) @ body"

lemma length_head_bytes [simp]: "length (head_bytes h s) = 23"
  by (simp add: head_bytes_def)

lemma length_packet_bytes [simp]: "length (packet_bytes h body) = 23 + length body"
  by (simp add: packet_bytes_def)

context vector_laws begin

lemma write_head_laws:
  assumes "fits (23 + k) b"
  shows "contents (write_head V h s b) = contents b @ head_bytes h s"
    and "fits k (write_head V h s b)"
    and "vsize (write_head V h s b) = vsize b + 23"
    and "capacity b \<le> capacity (write_head V h s b)"
    and "vsize b + 23 \<le> capacity b \<Longrightarrow> capacity (write_head V h s b) = capacity b"
proof -
  define b1 where "b1 = writeInt V (word_of_int (getHeaderLen + s)) b"
  define b2 where "b2 = writeInt V (opaque h) b1"
  define b3 where "b3 = writeByte V (cmdType h) b2"
  define b4 where "b4 = writeShort V (version h) b3"
  define b5 where "b5 = writeLong V (extension h) b4"
  define b6 where "b6 = writeInt V (word_of_int s) b5"
  have w: "write_head V h s b = b6"
    by (simp add: write_head_def b1_def b2_def b3_def b4_def b5_def b6_def Let_def)
  have f1: "fits (19 + k) b1" unfolding b1_def by (rule wint.fits_write) (use assms in simp)
  have f2: "fits (15 + k) b2" unfolding b2_def by (rule wint.fits_write) (use f1 in simp)
  have f3: "fits (14 + k) b3" unfolding b3_def by (rule wbyte.fits_write) (use f2 in simp)
  have f4: "fits (12 + k) b4" unfolding b4_def by (rule wshort.fits_write) (use f3 in simp)
  have f5: "fits (4 + k) b5" unfolding b5_def by (rule wlong.fits_write) (use f4 in simp)
  have f6: "fits k b6" unfolding b6_def by (rule wint.fits_write) (use f5 in simp)
  have g0: "fits 4 b" and g1: "fits 4 b1" and g2: "fits 1 b2" and g3: "fits 2 b3" and g4: "fits 8 b4"
    and g5: "fits 4 b5"
    using assms f1 f2 f3 f4 f5 by (auto intro: fits_mono)
  note g = g0 g1 g2 g3 g4 g5
  have c: "contents b6 = contents b @ head_bytes h s"
    using g by (simp add: b1_def b2_def b3_def b4_def b5_def b6_def wint.contents_write
        wbyte.contents_write wshort.contents_write wlong.contents_write head_bytes_def)
  have v: "vsize b1 = vsize b + 4" "vsize b2 = vsize b1 + 4" "vsize b3 = vsize b2 + 1"
    "vsize b4 = vsize b3 + 2" "vsize b5 = vsize b4 + 8" "vsize b6 = vsize b5 + 4"
    using g by (simp_all add: b1_def b2_def b3_def b4_def b5_def b6_def wint.vsize_write
        wbyte.vsize_write wshort.vsize_write wlong.vsize_write)
  have "capacity b \<le> capacity b1" "capacity b1 \<le> capacity b2" "capacity b2 \<le> capacity b3"
    "capacity b3 \<le> capacity b4" "capacity b4 \<le> capacity b5" "capacity b5 \<le> capacity b6"
    unfolding b1_def b2_def b3_def b4_def b5_def b6_def
    using g by (simp_all add: b1_def b2_def b3_def b4_def b5_def wint.capacity_write
        wbyte.capacity_write wshort.capacity_write wlong.capacity_write)
  then have cap: "capacity b \<le> capacity b6" by linarith
  have keep: "capacity b6 = capacity b" if r: "vsize b + 23 \<le> capacity b"
  proof -
    have "capacity b1 = capacity b" unfolding b1_def by (rule wint.capacity_kept) (use r in simp)
    moreover from this have "capacity b2 = capacity b1"
      unfolding b2_def by (intro wint.capacity_kept) (use r v in simp)
    moreover from calculation have "capacity b3 = capacity b2"
      unfolding b3_def by (intro wbyte.capacity_kept) (use r v in simp)
    moreover from calculation have "capacity b4 = capacity b3"
      unfolding b4_def by (intro wshort.capacity_kept) (use r v in simp)
    moreover from calculation have "capacity b5 = capacity b4"
      unfolding b5_def by (intro wlong.capacity_kept) (use r v in simp)
    moreover from calculation have "capacity b6 = capacity b5"
      unfolding b6_def by (intro wint.capacity_kept) (use r v in simp)
    ultimately show ?thesis by simp
  qed
  show "contents (write_head V h s b) = contents b @ head_bytes h s"
    and "fits k (write_head V h s b)" and "vsize (write_head V h s b) = vsize b + 23"
    and "capacity b \<le> capacity (write_head V h s b)"
    using c f6 v cap by (simp_all add: w)
  show "vsize b + 23 \<le> capacity b \<Longrightarrow> capacity (write_head V h s b) = capacity b"
    using keep by (simp add: w)
qed

lemma copy_payload_eq:
  assumes "length (rt_SerializeToArray R m (int n)) = n" and "fits n b"
    and "vreserve V (n + 1) < 2 ^ 31"
  obtains b' where "copy_payload V R m (int n) b = Some b'"
    and "contents b' = contents b @ rt_SerializeToArray R m (int n)"
    and "vsize b' = vsize b + n" and "fits 0 b'"
    and "vsize b + n \<le> capacity b \<longrightarrow> capacity b' = capacity b"
proof -
  let ?bs = "rt_SerializeToArray R m (int n)" and ?t = "ByteBuf_sized V (int n)"
  have nat_eq: "nat (int n + 1) = n + 1" by simp
  have ptr: "getWritePtr (int n) ?t = Some 0" and room: "n < capacity ?t"
    using sized_write_ptr [of "int n"] assms(3) by (simp_all add: nat_eq)
  let ?t' = "?t\<lparr>mem := ?bs @ drop n (mem ?t)\<rparr>"
  have st: "store_at 0 ?bs ?t = Some ?t'"
    using room assms(1) by (simp add: store_at_def)
  have "n \<le> length (getBuffPtr ?t')"
    using assms(1) by (simp add: getBuffPtr_def)
  from this assms(2) obtain b' where b': "writeBytes V (getBuffPtr ?t') (int n) b = Some b'"
    "contents b' = contents b @ take n (getBuffPtr ?t')" "fits 0 b'" "vsize b' = vsize b + n"
    "vsize b + n \<le> capacity b \<longrightarrow> capacity b' = capacity b"
    by (rule writeBytes_eq)
  moreover have "take n (getBuffPtr ?t') = ?bs"
    using assms(1) by (simp add: getBuffPtr_def)
  moreover have "copy_payload V R m (int n) b = Some b'"
    using b'(1) by (simp add: copy_payload_def ptr st)
  ultimately show thesis by (intro that) simp_all
qed

text \<open>
  The payload loop on a buffer with room for the payload: one iteration.
\<close>

lemma payload_loop_room:
  assumes "getWritePtr s b \<noteq> None"
  shows "payload_loop V R m s t b = Some (copy_payload V R m s b)"
  using assms by (subst payload_loop.simps) auto

lemma write_ptr_room:
  assumes "fits n b" and "capacity b < 2 ^ 31" and "vsize b + n \<le> capacity b"
  shows "getWritePtr (int n) b \<noteq> None"
proof -
  have "int (capacity b) - int (vsize b) = int (capacity b - vsize b)"
    using assms(3) by simp
  moreover have "wrap32 (int (capacity b - vsize b)) = int (capacity b - vsize b)"
    using assms(2) by (intro wrap32_nat) simp
  ultimately show ?thesis
    using assms by (simp add: getWritePtr_def fits_def)
qed

text \<open>Serialising a packet whose buffer has not been used: the complete result.\<close>

lemma toByteBuf_fresh:
  assumes pk: "pbuf p = ByteBuf" "message p = Some m"
    and sz: "rt_ByteSize R m = int n" "length (rt_SerializeToArray R m (int n)) = n"
    and bnd: "n + 23 < 2 ^ 31" "vreserve V (n + 24) < 2 ^ 31" "vreserve V (n + 1) < 2 ^ 31"
  obtains p' where "toByteBuf V R p = Some (Some (int n + 23, p'))"
    and "contents (pbuf p') = packet_bytes (hd_of p) (rt_SerializeToArray R m (int n))"
    and "p' = p\<lparr>pbuf := pbuf p'\<rparr>" and "fits 0 (pbuf p')" and "vsize (pbuf p') = n + 23"
    and "capacity (pbuf p') = vreserve V (n + 24)"
    and "sent_bytes (int n + 23, p') = packet_bytes (hd_of p) (rt_SerializeToArray R m (int n))"
proof -
  define b0 where "b0 = resize V (int n + 23) ByteBuf"
  have nat_eq: "nat (24 + int n) = n + 24" by simp
  have c0': "vreserve V (n + 24) = capacity b0"
    using reserve [of "n + 24"] by (simp add: b0_def resize_def nat_eq ByteBuf_def realloc_def capacity_def fresh)
  have "n + 24 \<le> vreserve V (n + 24)" by (rule reserve)
  with c0' have c0: "n + 24 \<le> capacity b0" "capacity b0 < 2 ^ 31" using bnd(2) by simp_all
  have "fits (23 + n) ByteBuf" using bnd(1) by (simp add: fits_def ByteBuf_def capacity_def)
  then have f0: "fits (23 + n) b0" unfolding b0_def by (rule fits_resize)
  have v0: "vsize b0 = 0" "contents b0 = []" by (simp_all add: b0_def ByteBuf_def contents_def)
  define b1 where "b1 = write_head V (hd_of p) (int n) b0"
  note wh = write_head_laws [OF f0, of "hd_of p" "int n", folded b1_def]
  have c1: "capacity b1 = capacity b0" using wh(5) v0 c0 by simp
  have "getWritePtr (int n) b1 \<noteq> None"
    by (rule write_ptr_room) (use wh c1 c0 v0 in auto)
  then have pl: "payload_loop V R m (int n) (int n + 23) b1 = Some (copy_payload V R m (int n) b1)"
    by (rule payload_loop_room)
  obtain b2 where b2: "copy_payload V R m (int n) b1 = Some b2"
    "contents b2 = contents b1 @ rt_SerializeToArray R m (int n)" "vsize b2 = vsize b1 + n" "fits 0 b2"
    "vsize b1 + n \<le> capacity b1 \<longrightarrow> capacity b2 = capacity b1"
    by (rule copy_payload_eq [OF sz(2) wh(2) bnd(3)])
  show thesis
  proof (rule that [of "p\<lparr>pbuf := b2\<rparr>"])
    have e: "19 + int n + 4 = int n + 23" by simp
    have "buf_size (pbuf p) < int n + 23"
      by (simp add: pk buf_size_def ByteBuf_def)
    then show "toByteBuf V R p = Some (Some (int n + 23, p\<lparr>pbuf := b2\<rparr>))"
      by (simp only: toByteBuf_def pk sz(1) getHeaderLen_eq e option.case Let_def if_True
          b0_def [symmetric] b1_def [symmetric] pl b2(1))
    show "contents (pbuf (p\<lparr>pbuf := b2\<rparr>)) = packet_bytes (hd_of p) (rt_SerializeToArray R m (int n))"
      by (simp add: b2(2) wh(1) v0 packet_bytes_def sz(2))
    then show "sent_bytes (int n + 23, p\<lparr>pbuf := b2\<rparr>) =
        packet_bytes (hd_of p) (rt_SerializeToArray R m (int n))"
      using b2(3) wh(3) v0 by (simp add: sent_bytes_def getBuffPtr_def contents_def nat_add_distrib add.commute [of n])
  qed (use b2 wh v0 c1 c0 c0' in simp_all)
qed

text \<open>
  The loop never returns once the write pointer is NULL and the capacity already exceeds
  the total: \<open>resize\<close> changes nothing and the test repeats.
\<close>

lemma payload_loop_stuck:
  assumes "getWritePtr s b = None" and "nat (t + 1) \<le> capacity b"
  shows "payload_loop V R m s t b = None"
proof (rule ccontr)
  assume "payload_loop V R m s t b \<noteq> None"
  then obtain y where ret: "payload_loop V R m s t b = Some y" by auto
  have "\<not> (getWritePtr s b = None \<and> nat (t + 1) \<le> capacity b)"
  proof (rule payload_loop.raw_induct
      [where P = "\<lambda>V R m s t b y. \<not> (getWritePtr s b = None \<and> nat (t + 1) \<le> capacity b)", OF _ ret])
    fix f V R m s t b y
    assume IH: "\<And>V (R :: 'a msg_rt) m s t b y. f V R m s t b = Some y \<Longrightarrow>
        \<not> (getWritePtr s b = None \<and> nat (t + 1) \<le> capacity b)"
      and eq: "(case getWritePtr s b of None \<Rightarrow> f V R m s t (resize V t b)
          | Some p \<Rightarrow> Some (copy_payload V R m s b)) = Some y"
    show "\<not> (getWritePtr s b = None \<and> nat (t + 1) \<le> capacity b)"
    proof
      assume a: "getWritePtr s b = None \<and> nat (t + 1) \<le> capacity b"
      then have "resize V t b = b" by (simp add: resize_def)
      with a eq have "f V R m s t b = Some y" by simp
      from IH [OF this] a show False by blast
    qed
  qed
  with assms show False by blast
qed

lemma toByteBuf_second_stuck:
  assumes res: "\<And>k. vreserve V k = k"
    and b: "fits (23 + n) (pbuf p)" "vsize (pbuf p) = a + 23" "capacity (pbuf p) = a + 24"
    and m: "message p = Some m" "rt_ByteSize R m = int n"
    and n: "a + 22 \<le> n" "n + 24 < 2 ^ 31"
  shows "toByteBuf V R p = None"
proof -
  define b0 where "b0 = resize V (int n + 23) (pbuf p)"
  have nat_eq: "nat (24 + int n) = n + 24" by simp
  have c0: "capacity b0 = n + 24"
    using n b by (simp add: b0_def resize_def nat_eq res capacity_realloc)
  have f0: "fits (23 + n) b0" unfolding b0_def by (rule fits_resize) (rule b(1))
  have v0: "vsize b0 = a + 23" by (simp add: b0_def b(2))
  define b1 where "b1 = write_head V (hd_of p) (int n) b0"
  note wh = write_head_laws [OF f0, of "hd_of p" "int n", folded b1_def]
  have c1: "capacity b1 = n + 24" using wh(5) v0 c0 n by simp
  have "wrap32 (int (capacity b1) - writerIndex b1) = int (n + 24 - (a + 46))"
    using wrap32_nat [of "n + 24 - (a + 46)"] wh(2,3) v0 c1 n by (simp add: fits_def)
  then have "getWritePtr (int n) b1 = None"
    using n by (simp add: getWritePtr_def)
  moreover have "nat (int n + 23 + 1) \<le> capacity b1" using c1 by simp
  ultimately have pl: "payload_loop V R m (int n) (int n + 23) b1 = None"
    by (rule payload_loop_stuck)
  have e: "19 + int n + 4 = int n + 23" by simp
  have "buf_size (pbuf p) < int n + 23" using b(2) n by (simp add: buf_size_def)
  then show ?thesis
    by (simp only: toByteBuf_def m getHeaderLen_eq e option.case Let_def if_True
        b0_def [symmetric] b1_def [symmetric] pl)
qed

end

section \<open>Parsing what was serialised\<close>

text \<open>The frame that follows the length field, as the session hands it to \<open>parseFrom\<close>.\<close>

definition frame_bytes :: "header \<Rightarrow> byte list \<Rightarrow> byte list" where
  "frame_bytes h body = drop 4 (packet_bytes h body)"

lemma frame_bytes_eq:
  "frame_bytes h body = be32 (opaque h) @ [cmdType h] @ be16 (version h) @ be64 (extension h) @
     be32 (word_of_int (int (length body))) @ body"
  by (simp add: frame_bytes_def packet_bytes_def head_bytes_def)

lemma length_frame_bytes [simp]: "length (frame_bytes h body) = 19 + length body"
  by (simp add: frame_bytes_def)

lemma frame_fields:
  "readInt (frame_bytes h body @ rest) = Some (opaque h)"
  "readByte (drop 4 (frame_bytes h body @ rest)) = Some (cmdType h)"
  "readShort (drop 5 (frame_bytes h body @ rest)) = Some (version h)"
  "readLong oob (drop 7 (frame_bytes h body @ rest)) =
     readLong oob (be64 (extension h) @ be32 (word_of_int (int (length body))) @ body @ rest)"
  "readInt (drop 15 (frame_bytes h body @ rest)) = Some (word_of_int (int (length body)))"
  "drop 19 (frame_bytes h body @ rest) = body @ rest"
  by (simp_all add: frame_bytes_eq readInt_be32 readShort_be16 readByte_def)

lemma sint_length: "n < 2 ^ 31 \<Longrightarrow> sint (word_of_nat n :: int32) = int n"
  using wrap32_nat [of n] by (simp add: wrap32_def)

lemma readLong_frame:
  "readLong oob (drop 7 (frame_bytes h body @ rest)) = readLong oob (be64 (extension h))"
  unfolding frame_fields by (simp add: readLong_be64 readLong_be64 [where rest = "[]", simplified])

text \<open>
  The result of parsing a well-formed frame, on every branch: the extension is what
  \<open>readLong\<close> makes of its bytes, every other field is the one sent.
\<close>

lemma parseFrom_frame:
  assumes "length body < 2 ^ 31" and "pkglen = 19 + int (length body)"
    and "readLong oob (be64 (extension h)) = Some ext"
  shows "parseFrom oob R pkg (frame_bytes h body @ rest) pkglen =
     (case class_of_cmd (cmdType h) of
        None \<Rightarrow> Some (False, pkg)
      | Some k \<Rightarrow> Some (True, pkg\<lparr>hd_of := h\<lparr>extension := ext\<rparr>,
          message := Some (snd (rt_ParseFromArray R (rt_new R k) body))\<rparr>))"
  using assms
  by (cases h) (auto simp del: drop_append
      simp: parseFrom_def frame_fields(1,2,3,5,6) readLong_frame sint_length parse_body_def
      split: option.split)

lemma readLong_be64_total: "\<exists>ext. readLong oob (be64 e) = Some ext"
  using readLong_be64 [of oob e "[]"] by simp

text \<open>Frames the parser refuses: unknown command, or a body length beyond the frame.\<close>

lemma class_of_cmd_None_iff:
  "class_of_cmd c = None \<longleftrightarrow> c \<notin> {CMD_CONN_AUTH, CMD_MESSAGE_STORE_ACK, CMD_TX_ACK,
     CMD_BYTES_MESSAGE, CMD_STRING_MESSAGE, CMD_HEARTBEAT}"
  by (auto simp: class_of_cmd_def)

lemma parseFrom_False_pkg: "parseFrom oob R pkg buf n = Some (False, pkg') \<Longrightarrow> pkg' = pkg"
  by (auto simp: parseFrom_def split: bind_splits option.splits if_splits)

lemma parseFrom_True_fields:
  assumes "parseFrom oob R pkg buf n = Some (True, pkg')"
  shows "pbuf pkg' = pbuf pkg" "message pkg' \<noteq> None" "class_of_cmd (cmdType (hd_of pkg')) \<noteq> None"
    "19 \<le> length buf"
  using assms
  by (auto simp: parseFrom_def readInt_def readByte_def rd_def split: bind_splits option.splits if_splits)

section \<open>The runtime's contract\<close>

text \<open>
  What the packet code needs of the protocol buffer runtime: for a message \<open>m\<close> that may
  travel as class \<open>k\<close>, \<open>ByteSize\<close> is the length of what \<open>SerializeToArray\<close> writes, and parsing
  those bytes into a new message of class \<open>k\<close> gives \<open>m\<close> back.
\<close>

locale msg_runtime =
  fixes R :: "'m msg_rt" and sendable :: "msg_class \<Rightarrow> 'm \<Rightarrow> bool"
  assumes size_nonneg: "sendable k m \<Longrightarrow> 0 \<le> rt_ByteSize R m"
    and length_ser: "sendable k m \<Longrightarrow> int (length (rt_SerializeToArray R m (rt_ByteSize R m))) = rt_ByteSize R m"
    and parse_ser: "sendable k m \<Longrightarrow>
      rt_ParseFromArray R (rt_new R k) (rt_SerializeToArray R m (rt_ByteSize R m)) = (True, m)"
begin

definition body_of :: "'m \<Rightarrow> byte list" where
  "body_of m = rt_SerializeToArray R m (rt_ByteSize R m)"

lemma size_eq: "sendable k m \<Longrightarrow> rt_ByteSize R m = int (length (body_of m))"
  by (simp add: body_of_def length_ser)

lemma body_of_eq: "sendable k m \<Longrightarrow> rt_SerializeToArray R m (int (length (body_of m))) = body_of m"
  by (simp add: body_of_def length_ser)

lemma parse_frame_of:
  assumes "sendable k m" and "class_of_cmd (cmdType h) = Some k"
    and "rt_ByteSize R m < 2 ^ 31" and "readLong oob (be64 (extension h)) = Some ext"
  shows "parseFrom oob R pkg (frame_bytes h (body_of m) @ rest) (19 + rt_ByteSize R m) =
     Some (True, pkg\<lparr>hd_of := h\<lparr>extension := ext\<rparr>, message := Some m\<rparr>)"
proof -
  have sz: "rt_ByteSize R m = int (length (body_of m))" using assms(1) by (rule size_eq)
  have "rt_ParseFromArray R (rt_new R k) (body_of m) = (True, m)"
    using parse_ser [OF assms(1)] by (simp add: body_of_def)
  then show ?thesis
    using assms sz by (simp add: parseFrom_frame [where ext = ext])
qed

end

text \<open>Inside a frame with a whole header every field is readable.\<close>

lemma header_readable:
  assumes "19 \<le> length buf"
  obtains o' ver ext len where "readInt buf = Some o'" "readByte (drop 4 buf) = Some (buf ! 4)"
    "readShort (drop 5 buf) = Some ver" "readLong oob (drop 7 buf) = Some ext"
    "readInt (drop 15 buf) = Some len"
proof -
  have "readInt buf \<noteq> None" "readShort (drop 5 buf) \<noteq> None" "readLong oob (drop 7 buf) \<noteq> None"
    "readInt (drop 15 buf) \<noteq> None"
    using assms by (simp_all add: readers_None_iff)
  moreover have "readByte (drop 4 buf) = Some (buf ! 4)"
    using assms by (simp add: readByte_def)
  ultimately show thesis using that by blast
qed

section \<open>Delimiter search\<close>

definition crlf_at :: "byte list \<Rightarrow> nat \<Rightarrow> bool" where
  "crlf_at buf i \<longleftrightarrow> 0 < i \<and> buf ! (i - 1) = 0x0D \<and> buf ! i = 0x0A"

lemma delimPacket_loop_spec:
  assumes "n \<le> length buf" and "0 < i" and "\<forall>j. 0 < j \<and> j < i \<longrightarrow> \<not> crlf_at buf j"
  shows "\<exists>r. delimPacket_loop buf n i = Some r \<and>
    (r = 0 \<and> (\<forall>j<n. \<not> crlf_at buf j) \<or>
     (\<exists>k<n. r = int k + 1 \<and> crlf_at buf k \<and> (\<forall>j<k. \<not> crlf_at buf j)))"
  using assms
proof (induction buf n i rule: delimPacket_loop.induct)
  case (1 buf n i)
  show ?case
  proof (cases "i < n")
    case False
    with "1.prems" have "\<forall>j<n. \<not> crlf_at buf j" by (auto simp: crlf_at_def)
    with False show ?thesis by (simp add: delimPacket_loop.simps [of buf n i])
  next
    case True
    with "1.prems" have r: "rd buf (i - 1) = Some (buf ! (i - 1))" "rd buf i = Some (buf ! i)"
      by simp_all
    show ?thesis
    proof (cases "crlf_at buf i")
      case hit: True
      have "\<forall>j<i. \<not> crlf_at buf j" using "1.prems"(3) by (auto simp: crlf_at_def)
      with True r hit show ?thesis
        by (auto simp: delimPacket_loop.simps [of buf n i] crlf_at_def intro: exI [of _ i])
    next
      case miss: False
      with "1.prems" True have "delimPacket_loop buf n i = delimPacket_loop buf n (Suc i)"
        by (auto simp: delimPacket_loop.simps [of buf n i] r crlf_at_def)
      moreover have "\<forall>j. 0 < j \<and> j < Suc i \<longrightarrow> \<not> crlf_at buf j"
        using "1.prems"(3) miss by (auto simp: less_Suc_eq)
      moreover have "\<not> (buf ! (i - 1) = 0x0D \<and> buf ! i = 0x0A)"
        using miss "1.prems"(2) by (simp add: crlf_at_def)
      ultimately show ?thesis
        using "1.IH" [OF True refl r] "1.prems"(1) by simp
    qed
  qed
qed

section \<open>Properties\<close>

text \<open>
  The smallest runtime: messages that are their own bytes.  It serves the examples below; the
  runtime of the generated messages is set up with them.
\<close>

definition raw_rt :: "byte list msg_rt" where
  "raw_rt = \<lparr>rt_new = (\<lambda>_. []), rt_ByteSize = (\<lambda>m. int (length m)),
     rt_SerializeToArray = (\<lambda>m n. take (nat n) m), rt_ParseFromArray = (\<lambda>_ bs. (True, bs))\<rparr>"

lemma raw_rt_runtime: "msg_runtime raw_rt (\<lambda>_ _. True)"
  by unfold_locales (simp_all add: raw_rt_def)

definition sample_packet :: "byte list kitePacket" where
  "sample_packet = \<lparr>hd_of = \<lparr>opaque = 7, cmdType = CMD_STRING_MESSAGE, version = 2, extension = 5\<rparr>,
     message = Some [0xCA, 0xFE], pbuf = ByteBuf\<rparr>"

text \<open>
  C10: \<open>toByteBuf\<close> on a packet whose buffer is unused returns, with the count header + body + 4,
  and the bytes it hands to the socket are exactly the wire format: length field, opaque,
  command, version, extension, body length, serialised body.  The packet's header and message
  are unchanged.
\<close>

theorem toByteBuf_bytes:
  assumes "vector_ok V" and "pbuf p = ByteBuf" and "message p = Some m"
    and "rt_ByteSize R m = int n" and "length (rt_SerializeToArray R m (int n)) = n"
    and "n + 23 < 2 ^ 31" and "vreserve V (n + 24) < 2 ^ 31" and "vreserve V (n + 1) < 2 ^ 31"
  shows "\<exists>p'. toByteBuf V R p = Some (Some (int n + 23, p')) \<and>
    sent_bytes (int n + 23, p') = packet_bytes (hd_of p) (rt_SerializeToArray R m (int n)) \<and>
    hd_of p' = hd_of p \<and> message p' = message p"
proof -
  have v: "vector_laws V" using assms(1) by (rule vector_laws.intro)
  obtain p' where p': "toByteBuf V R p = Some (Some (int n + 23, p'))"
    "sent_bytes (int n + 23, p') = packet_bytes (hd_of p) (rt_SerializeToArray R m (int n))"
    "p' = p\<lparr>pbuf := pbuf p'\<rparr>"
    by (rule vector_laws.toByteBuf_fresh [OF v assms(2-8)])
  moreover have "hd_of p' = hd_of p" "message p' = message p"
    by (subst p'(3), simp)+
  ultimately show ?thesis by auto
qed

theorem toByteBuf_bytes_witness:
  "\<exists>p'. toByteBuf libstdcxx raw_rt sample_packet = Some (Some (int 2 + 23, p')) \<and>
    sent_bytes (int 2 + 23, p') = packet_bytes (hd_of sample_packet) (rt_SerializeToArray raw_rt [0xCA, 0xFE] (int 2)) \<and>
    hd_of p' = hd_of sample_packet \<and> message p' = message sample_packet"
  by (rule toByteBuf_bytes [OF libstdcxx_ok]) (simp_all add: sample_packet_def raw_rt_def libstdcxx_def)

text \<open>
  A packet that is serialised, sent, and parsed on the other side from the frame that follows the
  length field comes back whole, for any runtime that keeps the contract.
\<close>

lemma packet_survives:
  assumes "vector_ok V" and "msg_runtime R sendable" and "sendable k m"
    and "class_of_cmd (cmdType (hd_of p)) = Some k"
    and "pbuf p = ByteBuf" and "message p = Some m" and "rt_ByteSize R m = int n"
    and "n + 23 < 2 ^ 31" and "vreserve V (n + 24) < 2 ^ 31" and "vreserve V (n + 1) < 2 ^ 31"
    and "\<And>k. oob k 0 = 0" and "extension (hd_of p) < 2 ^ 32"
  shows "\<exists>num p'. toByteBuf V R p = Some (Some (num, p')) \<and>
    readInt (sent_bytes (num, p')) = Some (word_of_int (num - 4)) \<and>
    parseFrom oob R pkg (drop 4 (sent_bytes (num, p')) @ rest) (num - 4) =
      Some (True, pkg\<lparr>hd_of := hd_of p, message := Some m\<rparr>)"
proof -
  let ?body = "rt_SerializeToArray R m (int n)" and ?h = "hd_of p"
  have v: "vector_laws V" using assms(1) by (rule vector_laws.intro)
  have len: "length ?body = n"
    using msg_runtime.length_ser [OF assms(2,3)] assms(7) by simp
  obtain p' where p': "toByteBuf V R p = Some (Some (int n + 23, p'))"
    "sent_bytes (int n + 23, p') = packet_bytes ?h ?body"
    by (rule vector_laws.toByteBuf_fresh [OF v assms(5-7) len assms(8-10)])
  have "readLong oob (be64 (extension ?h)) = Some (extension ?h)"
    using readLong_be64_small [of oob, OF assms(11,12), of "[]"] by simp
  from msg_runtime.parse_frame_of [OF assms(2,3,4) _ this] assms(7,8)
  have "parseFrom oob R pkg (frame_bytes ?h ?body @ rest) (19 + int n) =
      Some (True, pkg\<lparr>hd_of := ?h, message := Some m\<rparr>)"
    by (simp add: msg_runtime.body_of_def [OF assms(2)])
  moreover have "readInt (packet_bytes ?h ?body) = Some (word_of_int (19 + int n))"
    by (simp add: packet_bytes_def head_bytes_def readInt_be32 len)
  moreover have "drop 4 (packet_bytes ?h ?body) = frame_bytes ?h ?body" "int n + 23 - 4 = 19 + int n"
    by (simp_all add: frame_bytes_def)
  ultimately show ?thesis using p' by (intro exI [of _ "int n + 23"] exI [of _ p']) (simp only: simp_thms)
qed



text \<open>
  C26: with a vector whose \<open>reserve\<close> allocates what is asked for (libstdc++), a packet that has
  been serialised once and is then given a message at least 22 bytes longer can not be
  serialised again: the loop of \<open>toByteBuf\<close> does not return.
\<close>

theorem toByteBuf_reuse_hangs:
  assumes "vector_ok V" and "\<And>k. vreserve V k = k"
    and "pbuf p = ByteBuf" and "message p = Some m"
    and "rt_ByteSize R m = int a" and "length (rt_SerializeToArray R m (int a)) = a"
    and "rt_ByteSize R m' = int n" and "a + 22 \<le> n" and "a + n + 46 < 2 ^ 31"
    and "toByteBuf V R p = Some (Some (num, p'))"
  shows "toByteBuf V R (setMessage (Some m') p') = None"
proof -
  have v: "vector_laws V" using assms(1) by (rule vector_laws.intro)
  have b: "a + 23 < 2 ^ 31" "vreserve V (a + 24) < 2 ^ 31" "vreserve V (a + 1) < 2 ^ 31"
    using assms(2,8,9) by simp_all
  obtain q where q: "toByteBuf V R p = Some (Some (int a + 23, q))" "fits 0 (pbuf q)"
    "vsize (pbuf q) = a + 23" "capacity (pbuf q) = vreserve V (a + 24)"
    by (rule vector_laws.toByteBuf_fresh [OF v assms(3-6) b])
  with assms(10) have [simp]: "p' = q" by simp
  show ?thesis
  proof (rule vector_laws.toByteBuf_second_stuck [OF v assms(2) _ _ _ _ assms(7,8)])
    show "fits (23 + n) (pbuf (setMessage (Some m') p'))"
      using q(2,3) assms(9) by (simp add: setMessage_def fits_def)
  qed (use q assms in \<open>simp_all add: setMessage_def\<close>)
qed

theorem toByteBuf_reuse_hangs_witness:
  "\<exists>num p'. toByteBuf libstdcxx raw_rt sample_packet = Some (Some (num, p')) \<and>
     toByteBuf libstdcxx raw_rt (setMessage (Some (replicate 24 0)) p') = None"
proof -
  obtain p' where p': "toByteBuf libstdcxx raw_rt sample_packet = Some (Some (int 2 + 23, p'))"
    by (rule libstd.toByteBuf_fresh [of sample_packet "[0xCA, 0xFE]" raw_rt 2])
      (simp_all add: sample_packet_def raw_rt_def libstdcxx_def)
  have "toByteBuf libstdcxx raw_rt (setMessage (Some (replicate 24 0)) p') = None"
    by (rule toByteBuf_reuse_hangs [OF libstdcxx_ok _ _ _ _ _ _ _ _ p', where m = "[0xCA, 0xFE]" and a = 2 and n = 24])
      (simp_all add: sample_packet_def raw_rt_def libstdcxx_def)
  with p' show ?thesis by blast
qed

text \<open>
  C21: \<open>parseFrom\<close> stays inside the frame it is given exactly when the frame has at least the 19
  header bytes and, unless it is refused, a body length that is not negative and ends inside
  the frame.  In particular every frame shorter than a header is read out of bounds.
\<close>

theorem parseFrom_defined_iff:
  "parseFrom oob R pkg buf pkglen \<noteq> None \<longleftrightarrow> 19 \<le> length buf \<and>
   (\<exists>len. readInt (drop 15 buf) = Some len \<and>
     (pkglen - 19 < sint len \<or> class_of_cmd (buf ! 4) = None \<or>
      0 \<le> sint len \<and> 19 + nat (sint len) \<le> length buf))"
proof (cases "19 \<le> length buf")
  case True
  then obtain o' ver ext len where "readInt buf = Some o'" "readByte (drop 4 buf) = Some (buf ! 4)"
    "readShort (drop 5 buf) = Some ver" "readLong oob (drop 7 buf) = Some ext"
    "readInt (drop 15 buf) = Some len"
    by (rule header_readable)
  with True show ?thesis
    by (auto simp: parseFrom_def parse_body_def split: option.splits)
next
  case False
  then have "readInt (drop 15 buf) = None" by (simp add: readers_None_iff)
  then have "parseFrom oob R pkg buf pkglen = None"
    by (auto simp: parseFrom_def split: bind_splits)
  with False show ?thesis by simp
qed

text \<open>
  \<open>delimPacket\<close> returns the number of bytes up to and including the first CR LF among the
  first \<open>bufsize\<close> bytes, and 0 when there is none.
\<close>

lemma delimPacket_first_crlf:
  assumes "n \<le> length buf"
  shows "\<exists>r. delimPacket buf (int n) = Some r \<and>
    (r = 0 \<and> (\<forall>j<n. \<not> crlf_at buf j) \<or>
     (\<exists>k<n. r = int k + 1 \<and> crlf_at buf k \<and> (\<forall>j<k. \<not> crlf_at buf j)))"
  using delimPacket_loop_spec [OF assms, of 1] by (simp add: delimPacket_def)

end
