(* ===== verification/Session.thy ===== *)
theory Session
  imports KitePacket
begin

text \<open>
  \<^verbatim>\<open>remoting/inc/asioSession.hpp\<close>: framing on a connection.  Reading is a chain of asynchronous
  operations: four length bytes, then that many bytes into a streambuf, then \<open>parseFrom\<close>, the
  handler, and, in the handler, the next \<open>async_read\<close>.

  Of boost asio the session uses: \<open>async_read\<close> completes when the buffer is full, or with an
  error and the bytes read so far; a completion never runs inside the call that starts it;
  \<open>prepare\<close> throws for a size it can not provide (\<open>prep\<close> says which it can); \<open>commit\<close> appends
  to, and \<open>consume\<close> drops from, the readable bytes of a streambuf.  An exception leaves
  \<open>io_service::run\<close> and with it the only thread that runs handlers.
\<close>

section \<open>State\<close>

text \<open>\<open>None\<close> is success, \<open>Some c\<close> the error code \<open>c\<close>.\<close>

type_synonym error_code = "nat option"

datatype read_op = Idle | AwaitLen | AwaitData nat | Threw

record 'm session =
  read_buffer :: "byte list"
  pkglen :: "byte list"
  rpkg :: "'m kitePacket"
  rop :: read_op

record 'm handler_call =
  hc_error :: error_code
  hc_size :: int
  hc_pkg :: "'m kitePacket"

text \<open>A session at the start; \<open>rpkg\<close> is the packet \<open>async_read\<close> is called with.\<close>

definition asioSession :: "byte list \<Rightarrow> 'm kitePacket \<Rightarrow> 'm session" where
  "asioSession garbage p = \<lparr>read_buffer = [], pkglen = garbage, rpkg = p, rop = Idle\<rparr>"

section \<open>Writing\<close>

text \<open>
  \<open>async_write\<close> and \<open>write\<close> hand the same bytes to the socket.  The asynchronous one starts an
  operation only for a positive count; \<open>None\<close> inside is no operation.
\<close>

definition async_write ::
  "vector_impl \<Rightarrow> 'm msg_rt \<Rightarrow> 'm kitePacket \<Rightarrow> (byte list option \<times> 'm kitePacket) option option" where
  "async_write V R p =
     (case toByteBuf V R p of
        None \<Rightarrow> None
      | Some None \<Rightarrow> Some None
      | Some (Some (num, p')) \<Rightarrow>
          Some (Some (if num > 0 then Some (sent_bytes (num, p')) else None, p')))"

definition sync_write ::
  "vector_impl \<Rightarrow> 'm msg_rt \<Rightarrow> 'm kitePacket \<Rightarrow> (byte list \<times> 'm kitePacket) option option" where
  "sync_write V R p =
     (case toByteBuf V R p of
        None \<Rightarrow> None
      | Some None \<Rightarrow> Some None
      | Some (Some (num, p')) \<Rightarrow> Some (Some (sent_bytes (num, p'), p')))"

text \<open>The completion of a write calls the handler with what it got.\<close>

definition async_write_complete :: "(error_code \<Rightarrow> nat \<Rightarrow> 's \<Rightarrow> 's) \<Rightarrow> error_code \<Rightarrow> nat \<Rightarrow> 's \<Rightarrow> 's" where
  "async_write_complete handle e bytes_transferred s = handle e bytes_transferred s"

section \<open>Reading\<close>

definition async_setup_read_varint :: "'m session \<Rightarrow> 'm session" where
  "async_setup_read_varint s = s\<lparr>rop := AwaitLen\<rparr>"

definition async_read :: "'m session \<Rightarrow> 'm session" where
  "async_read s = async_setup_read_varint s"

text \<open>
  \<open>pkglen[0]<<24 | pkglen[1]<<16 | pkglen[2]<<8 | pkglen[3]\<close>: each \<open>char\<close> is promoted to \<open>int\<close>
  with its sign.
\<close>

definition frame_len :: "byte list \<Rightarrow> int32" where
  "frame_len b =
     push_bit 24 (scast (b ! 0)) OR push_bit 16 (scast (b ! 1)) OR push_bit 8 (scast (b ! 2)) OR scast (b ! 3)"

definition async_read_pkglen ::
  "(nat \<Rightarrow> bool) \<Rightarrow> error_code \<Rightarrow> nat \<Rightarrow> 'm session \<Rightarrow> 'm handler_call option \<times> 'm session" where
  "async_read_pkglen prep e bytes_read s =
     (if e \<noteq> None then (Some \<lparr>hc_error = e, hc_size = int bytes_read, hc_pkg = rpkg s\<rparr>, s)
      else
        (let len = sint (frame_len (pkglen s));
             n = nat (len mod 2 ^ 64)
         in (None, s\<lparr>rop := (if prep n then AwaitData n else Threw)\<rparr>)))"

text \<open>
  \<open>stored\<close> are the bytes the operation has put into the prepared space; \<open>commit\<close> makes them
  readable.  \<open>None\<close>: the parser has read beyond the readable bytes.
\<close>

definition async_read_pkgdata ::
  "shl_oob \<Rightarrow> 'm msg_rt \<Rightarrow> error_code \<Rightarrow> byte list \<Rightarrow> 'm session \<Rightarrow>
     ('m handler_call option \<times> 'm session) option" where
  "async_read_pkgdata oob R e stored s =
     (if e \<noteq> None then Some (Some \<lparr>hc_error = e, hc_size = int (length stored), hc_pkg = rpkg s\<rparr>, s)
      else
        (let s = s\<lparr>read_buffer := read_buffer s @ stored\<rparr>;
             len = sint (frame_len (pkglen s))
         in if len \<ge> getMaxFrameLength
            then Some (Some \<lparr>hc_error = e, hc_size = int (length stored), hc_pkg = rpkg s\<rparr>, s)
            else (case parseFrom oob R (rpkg s) (read_buffer s) len of
                    None \<Rightarrow> None
                  | Some (True, p) \<Rightarrow>
                      Some (Some \<lparr>hc_error = e, hc_size = len, hc_pkg = p\<rparr>,
                        s\<lparr>rpkg := p, read_buffer := drop (nat len) (read_buffer s)\<rparr>)
                  | Some (False, p) \<Rightarrow>
                      Some (None, async_setup_read_varint
                        (s\<lparr>rpkg := p, read_buffer := drop (length stored) (read_buffer s)\<rparr>)))))"

section \<open>The I/O thread\<close>

text \<open>
  One completion: \<open>inc\<close> is what the peer has sent and the session has not read, \<open>closed\<close> the
  error the connection ends with after it, or \<open>None\<close> while it is open.
\<close>

datatype 'm io_result = Blocked | Undefined | Completed "'m handler_call option" "'m session" "byte list"

definition io_step ::
  "(nat \<Rightarrow> bool) \<Rightarrow> shl_oob \<Rightarrow> 'm msg_rt \<Rightarrow> error_code \<Rightarrow> 'm session \<Rightarrow> byte list \<Rightarrow> 'm io_result" where
  "io_step prep oob R closed s inc =
     (case rop s of
        AwaitLen \<Rightarrow>
          (if 4 \<le> length inc
           then (let (c, s') = async_read_pkglen prep None 4 (s\<lparr>rop := Idle, pkglen := take 4 inc\<rparr>)
                 in Completed c s' (drop 4 inc))
           else (case closed of
                   None \<Rightarrow> Blocked
                 | Some e \<Rightarrow>
                    (let (c, s') = async_read_pkglen prep closed (length inc)
                       (s\<lparr>rop := Idle, pkglen := inc @ drop (length inc) (pkglen s)\<rparr>)
                     in Completed c s' [])))
      | AwaitData n \<Rightarrow>
          (if n \<le> length inc
           then (case async_read_pkgdata oob R None (take n inc) (s\<lparr>rop := Idle\<rparr>) of
                   None \<Rightarrow> Undefined
                 | Some (c, s') \<Rightarrow> Completed c s' (drop n inc))
           else (case closed of
                   None \<Rightarrow> Blocked
                 | Some e \<Rightarrow>
                    (case async_read_pkgdata oob R closed inc (s\<lparr>rop := Idle\<rparr>) of
                       None \<Rightarrow> Undefined
                     | Some (c, s') \<Rightarrow> Completed c s' [])))
      | _ \<Rightarrow> Blocked)"

text \<open>A handler that, as \<open>handle_read_pkg\<close> does, reads again after every call without an error.\<close>

definition reread :: "'m handler_call option \<Rightarrow> 'm session \<Rightarrow> 'm session" where
  "reread c s = (case c of None \<Rightarrow> s | Some h \<Rightarrow> if hc_error h = None then async_read s else s)"

fun op_rank :: "read_op \<Rightarrow> nat" where
  "op_rank AwaitLen = 1"
| "op_rank (AwaitData n) = 2"
| "op_rank _ = 0"

lemma reread_rank: "op_rank (rop (reread c s)) \<le> max 1 (op_rank (rop s))"
  by (simp add: reread_def async_read_def async_setup_read_varint_def split: option.split)

lemma io_step_rank:
  assumes "io_step prep oob R closed s inc = Completed c s' inc'"
  shows "2 * length inc' + op_rank (rop (reread c s')) < 2 * length inc + op_rank (rop s)"
  using assms
  by (auto simp: io_step_def async_read_pkglen_def async_read_pkgdata_def reread_def async_read_def
      async_setup_read_varint_def Let_def
      split: read_op.splits if_splits option.splits prod.splits bool.splits)

text \<open>
  Run until the session waits for input, is closed, has thrown or has left defined behaviour:
  the calls of the handler in order, and how it ended.
\<close>

datatype 'm loop_end = Stopped "'m session" "byte list" | Overrun

function read_loop ::
  "(nat \<Rightarrow> bool) \<Rightarrow> shl_oob \<Rightarrow> 'm msg_rt \<Rightarrow> error_code \<Rightarrow> 'm session \<Rightarrow> byte list \<Rightarrow>
     'm handler_call list \<times> 'm loop_end" where
  "read_loop prep oob R closed s inc =
     (case io_step prep oob R closed s inc of
        Blocked \<Rightarrow> ([], Stopped s inc)
      | Undefined \<Rightarrow> ([], Overrun)
      | Completed c s' inc' \<Rightarrow>
          (let (cs, e) = read_loop prep oob R closed (reread c s') inc'
           in (case c of None \<Rightarrow> cs | Some h \<Rightarrow> h # cs, e)))"
  by pat_completeness auto
termination
  by (relation "measure (\<lambda>(prep, oob, R, closed, s, inc). 2 * length inc + op_rank (rop s))")
    (auto simp: io_step_rank)

declare read_loop.simps [simp del]

section \<open>The length field\<close>

text \<open>A length field whose four bytes are all below 0x80.\<close>

definition plain_len :: "byte list \<Rightarrow> bool" where
  "plain_len b \<longleftrightarrow> (\<forall>c\<in>set (take 4 b). \<not> bit c 7)"

lemma scast_plain: "\<not> bit (c :: byte) 7 \<Longrightarrow> (scast c :: int32) = ucast c"
proof (rule bit_word_eqI)
  fix n assume "\<not> bit c 7" "n < LENGTH(32)"
  then show "bit (scast c :: int32) n \<longleftrightarrow> bit (ucast c :: int32) n"
    by (cases "n < 7"; cases "n = 7")
      (auto simp: bit_signed_iff bit_unsigned_iff min_def dest: bit_imp_le_length)
qed

lemma scast_sign: "bit (scast (c :: byte) :: int32) n \<longleftrightarrow> n < 32 \<and> bit c (min n 7)"
  by (auto simp: bit_signed_iff min_def)

lemma list4: "length b = 4 \<Longrightarrow> \<exists>b0 b1 b2 b3. b = [b0, b1, b2, b3]"
  by (auto simp: length_Suc_conv numeral_eq_Suc)

lemma frame_len_sign:
  assumes "length b = 4"
  shows "bit (frame_len b) 31 \<longleftrightarrow> \<not> plain_len b"
  using list4 [OF assms]
  by (auto simp: frame_len_def plain_len_def bit_or_iff bit_push_bit_iff scast_sign)

lemma frame_len_plain:
  assumes "length b = 4" and "plain_len b"
  shows "readInt b = Some (frame_len b)"
  using list4 [OF assms(1)] assms(2)
  by (auto simp: frame_len_def plain_len_def readInt_Cons scast_plain join32_def)

lemma sint_neg_iff: "sint (w :: int32) < 0 \<longleftrightarrow> bit w 31"
  using bit_last_iff [of w] by simp


lemma frame_len_nonneg: "length b = 4 \<Longrightarrow> 0 \<le> sint (frame_len b) \<longleftrightarrow> plain_len b"
  using sint_neg_iff [of "frame_len b"] frame_len_sign [of b] by auto

lemma length_be32 [simp]: "length (be32 i) = 4"
  by (simp add: be32_def)

lemma frame_len_be32: "plain_len (be32 i) \<Longrightarrow> frame_len (be32 i) = i"
  using frame_len_plain [of "be32 i"] readInt_be32 [of i "[]"] by simp

lemma frame_len_value:
  assumes "plain_len (be32 (word_of_int L))" and "0 \<le> L" and "L < 2 ^ 31"
  shows "sint (frame_len (be32 (word_of_int L))) = L"
  using wrap32_id [of L] assms(2,3) by (simp add: frame_len_be32 [OF assms(1)] wrap32_def)

lemma plain_be32: "plain_len (be32 i) \<longleftrightarrow> \<not> bit i 31 \<and> \<not> bit i 23 \<and> \<not> bit i 15 \<and> \<not> bit i 7"
  by (auto simp: plain_len_def be32_def bit_simps)

lemma bit_7_mod: "bit (L :: int) 7 \<longleftrightarrow> 128 \<le> L mod 256"
proof -
  have "L mod 256 = 128 * (L div 128 mod 2) + L mod 128"
    using zmod_zmult2_eq [of 2 L 128] by simp
  moreover have "0 \<le> L mod 128" "L mod 128 < 128" by simp_all
  ultimately show ?thesis by (cases "even (L div 128)") (auto simp: bit_iff_odd odd_iff_mod_2_eq_one)
qed

text \<open>The lengths below the frame limit that survive the sign-extending reader.\<close>

lemma plain_len_iff:
  assumes "0 \<le> L" and "L < 32768"
  shows "plain_len (be32 (word_of_int L)) \<longleftrightarrow> L mod 256 < 128"
proof -
  have "\<not> bit L n" if "15 \<le> n" for n
  proof -
    have "(32768::int) \<le> 2 ^ n" using power_increasing [of 15 n "2::int"] that by simp
    with assms have "L div 2 ^ n = 0" by (intro div_pos_pos_trivial) auto
    then show ?thesis by (simp add: bit_iff_odd)
  qed
  then show ?thesis
    by (auto simp: plain_be32 bit_word_of_int_iff bit_7_mod)
qed

section \<open>Single completions\<close>

lemma read_buffer_reread [simp]: "read_buffer (reread c s) = read_buffer s"
  and pkglen_reread [simp]: "pkglen (reread c s) = pkglen s"
  and rpkg_reread [simp]: "rpkg (reread c s) = rpkg s"
  by (simp_all add: reread_def async_read_def async_setup_read_varint_def split: option.split)

lemma reread_None [simp]: "reread None s = s"
  by (simp add: reread_def)

lemma reread_ok [simp]: "hc_error h = None \<Longrightarrow> reread (Some h) s = s\<lparr>rop := AwaitLen\<rparr>"
  by (simp add: reread_def async_read_def async_setup_read_varint_def)

lemma sint_nat_mod:
  assumes "0 \<le> sint (w :: int32)"
  shows "nat (sint w mod 2 ^ 64) = nat (sint w)"
proof -
  have "sint w < 2 ^ 64" using sint_lt [of w] by simp
  with assms show ?thesis by simp
qed

lemma step_len:
  assumes "rop s = AwaitLen" and "4 \<le> length inc" and "plain_len (take 4 inc)"
    and "prep (nat (sint (frame_len (take 4 inc))))"
  shows "io_step prep oob R closed s inc =
    Completed None (s\<lparr>pkglen := take 4 inc, rop := AwaitData (nat (sint (frame_len (take 4 inc))))\<rparr>) (drop 4 inc)"
proof -
  have "0 \<le> sint (frame_len (take 4 inc))" using assms(2,3) by (simp add: frame_len_nonneg)
  note m = sint_nat_mod [OF this]
  show ?thesis using assms(1,2,4) m by (simp add: io_step_def async_read_pkglen_def Let_def)
qed

text \<open>The space no \<open>prepare\<close> can provide.\<close>

definition prep_ok :: "(nat \<Rightarrow> bool) \<Rightarrow> bool" where
  "prep_ok prep \<longleftrightarrow> (\<forall>n<32768. prep n) \<and> (\<forall>n\<ge>2 ^ 63. \<not> prep n)"

lemma step_len_throws:
  assumes "prep_ok prep" and "rop s = AwaitLen" and "4 \<le> length inc" and "\<not> plain_len (take 4 inc)"
  shows "io_step prep oob R closed s inc =
    Completed None (s\<lparr>pkglen := take 4 inc, rop := Threw\<rparr>) (drop 4 inc)"
proof -
  let ?l = "sint (frame_len (take 4 inc))"
  have neg: "?l < 0" using assms(3,4) frame_len_nonneg [of "take 4 inc"] by simp
  have lo: "- (2 ^ 31) \<le> ?l" using sint_ge [of "frame_len (take 4 inc)"] by simp
  have "?l mod 2 ^ 64 = (?l + 2 ^ 64) mod 2 ^ 64" by simp
  also have "\<dots> = ?l + 2 ^ 64" using neg lo by (intro mod_pos_pos_trivial) auto
  finally have m: "?l mod 2 ^ 64 = ?l + 2 ^ 64" .
  have "2 ^ 63 \<le> nat (?l + 2 ^ 64)"
    using lo by (simp add: le_nat_iff)
  then have "\<not> prep (nat (?l + 2 ^ 64))" using assms(1) by (simp add: prep_ok_def)
  with m assms(2,3) show ?thesis by (simp add: io_step_def async_read_pkglen_def Let_def)
qed

lemma step_data:
  assumes "rop s = AwaitData n" and "n \<le> length inc"
  shows "io_step prep oob R closed s inc =
    (case async_read_pkgdata oob R None (take n inc) (s\<lparr>rop := Idle\<rparr>) of
       None \<Rightarrow> Undefined | Some (c, s') \<Rightarrow> Completed c s' (drop n inc))"
  using assms by (simp add: io_step_def)

lemma read_loop_step:
  "io_step prep oob R closed s inc = Completed c s' inc' \<Longrightarrow>
   read_loop prep oob R closed s inc =
     (let (cs, e) = read_loop prep oob R closed (reread c s') inc'
      in (case c of None \<Rightarrow> cs | Some h \<Rightarrow> h # cs, e))"
  by (simp add: read_loop.simps [of _ _ _ _ s])

lemma read_loop_blocked:
  "io_step prep oob R closed s inc = Blocked \<Longrightarrow> read_loop prep oob R closed s inc = ([], Stopped s inc)"
  by (simp add: read_loop.simps [of _ _ _ _ s])

section \<open>A well-formed packet\<close>

definition wire :: "'m msg_rt \<Rightarrow> header \<times> 'm \<Rightarrow> byte list" where
  "wire R x = packet_bytes (fst x) (rt_SerializeToArray R (snd x) (rt_ByteSize R (snd x)))"

definition frame_size :: "'m msg_rt \<Rightarrow> header \<times> 'm \<Rightarrow> int" where
  "frame_size R x = 19 + rt_ByteSize R (snd x)"

text \<open>A packet of a class the client parses, below the frame limit, with a short extension.\<close>

definition frame_ok :: "'m msg_rt \<Rightarrow> (msg_class \<Rightarrow> 'm \<Rightarrow> bool) \<Rightarrow> header \<times> 'm \<Rightarrow> bool" where
  "frame_ok R sendable x \<longleftrightarrow>
     (\<exists>k. class_of_cmd (cmdType (fst x)) = Some k \<and> sendable k (snd x)) \<and>
     frame_size R x < getMaxFrameLength \<and> extension (fst x) < 2 ^ 32"

definition delivered :: "'m kitePacket \<Rightarrow> header \<times> 'm \<Rightarrow> 'm kitePacket" where
  "delivered p x = p\<lparr>hd_of := fst x, message := Some (snd x)\<rparr>"

definition delivery :: "'m msg_rt \<Rightarrow> 'm kitePacket \<Rightarrow> header \<times> 'm \<Rightarrow> 'm handler_call" where
  "delivery R p x = \<lparr>hc_error = None, hc_size = frame_size R x, hc_pkg = delivered p x\<rparr>"

lemma delivered_again [simp]: "delivered (delivered p x) y = delivered p y"
  by (simp add: delivered_def)

lemma delivery_again [simp]: "delivery R (delivered p x) y = delivery R p y"
  by (simp add: delivery_def)

context msg_runtime begin

lemma wire_split:
  assumes "frame_ok R sendable x"
  shows "wire R x = be32 (word_of_int (frame_size R x)) @ frame_bytes (fst x) (body_of (snd x))"
    and "frame_size R x = int (length (frame_bytes (fst x) (body_of (snd x))))"
    and "0 \<le> frame_size R x" "frame_size R x < 32768"
    and "sint (word_of_int (frame_size R x) :: int32) = frame_size R x"
proof -
  obtain k where k: "sendable k (snd x)" using assms by (auto simp: frame_ok_def)
  note sz = size_eq [OF k]
  show len: "frame_size R x = int (length (frame_bytes (fst x) (body_of (snd x))))"
    by (simp add: frame_size_def sz)
  show "0 \<le> frame_size R x" by (simp add: len)
  show max: "frame_size R x < 32768"
    using assms by (simp add: frame_ok_def getMaxFrameLength_def MAX_PACKET_BYTES_def)
  show "sint (word_of_int (frame_size R x) :: int32) = frame_size R x"
    using wrap32_id [of "frame_size R x"] max unfolding wrap32_def len by simp
  show "wire R x = be32 (word_of_int (frame_size R x)) @ frame_bytes (fst x) (body_of (snd x))"
    using sz by (simp add: wire_def frame_size_def frame_bytes_def packet_bytes_def head_bytes_def body_of_def)
qed

end

section \<open>Whole frames\<close>

lemma pkgdata_parsed:
  assumes "sint (frame_len (pkglen s)) = L" and "L < 32768"
    and "parseFrom oob R (rpkg s) (read_buffer s @ bs) L = Some (True, p)"
  shows "async_read_pkgdata oob R None bs s =
    Some (Some \<lparr>hc_error = None, hc_size = L, hc_pkg = p\<rparr>,
      s\<lparr>read_buffer := drop (nat L) (read_buffer s @ bs), rpkg := p\<rparr>)"
  using assms by (simp add: async_read_pkgdata_def getMaxFrameLength_def MAX_PACKET_BYTES_def)

lemma pkgdata_refused:
  assumes "sint (frame_len (pkglen s)) = L" and "L < 32768"
    and "parseFrom oob R (rpkg s) (read_buffer s @ bs) L = Some (False, p)"
  shows "async_read_pkgdata oob R None bs s =
    Some (None, s\<lparr>read_buffer := drop (length bs) (read_buffer s @ bs), rpkg := p, rop := AwaitLen\<rparr>)"
  using assms
  by (simp add: async_read_pkgdata_def getMaxFrameLength_def MAX_PACKET_BYTES_def async_setup_read_varint_def)

lemma pkgdata_oversize:
  assumes "sint (frame_len (pkglen s)) = L" and "32768 \<le> L"
  shows "async_read_pkgdata oob R None bs s =
    Some (Some \<lparr>hc_error = None, hc_size = int (length bs), hc_pkg = rpkg s\<rparr>,
      s\<lparr>read_buffer := read_buffer s @ bs\<rparr>)"
  using assms by (simp add: async_read_pkgdata_def getMaxFrameLength_def MAX_PACKET_BYTES_def)

text \<open>
  Both completions of a frame whose length field is plain: the length, then the data, which is
  parsed from the start of the streambuf.
\<close>

lemma read_loop_frame:
  assumes "rop s = AwaitLen" and "plain_len (be32 (word_of_int L))" and "0 \<le> L" and "L < 2 ^ 31"
    and "prep (nat L)" and "length bs = nat L"
    and "async_read_pkgdata oob R None bs (s\<lparr>pkglen := be32 (word_of_int L), rop := Idle\<rparr>) = Some (c, s')"
  shows "read_loop prep oob R closed s (be32 (word_of_int L) @ bs @ rest) =
     (let (cs, e) = read_loop prep oob R closed (reread c s') rest
      in (case c of None \<Rightarrow> cs | Some h \<Rightarrow> h # cs, e))"
proof -
  let ?b = "be32 (word_of_int L)" and ?inc = "be32 (word_of_int L) @ bs @ rest"
  have fl: "sint (frame_len ?b) = L" by (rule frame_len_value [OF assms(2-4)])
  have "io_step prep oob R closed s ?inc =
      Completed None (s\<lparr>pkglen := ?b, rop := AwaitData (nat L)\<rparr>) (bs @ rest)"
    using step_len [of s ?inc prep oob R closed] assms(1,2,5) fl by simp
  note s1 = read_loop_step [OF this]
  have "io_step prep oob R closed (s\<lparr>pkglen := ?b, rop := AwaitData (nat L)\<rparr>) (bs @ rest) =
      Completed c s' rest"
    using assms(6,7) by (simp add: step_data)
  note s2 = read_loop_step [OF this]
  show ?thesis by (simp add: s1 s2 split: prod.split)
qed

context msg_runtime begin

lemma read_one:
  assumes ok: "frame_ok R sendable x" and len: "frame_size R x mod 256 < 128"
    and prep: "prep_ok prep" and oob: "\<And>k. oob k 0 = 0"
    and s: "rop s = AwaitLen" "read_buffer s = []"
  shows "read_loop prep oob R closed s (wire R x @ rest) =
    (let (cs, e) = read_loop prep oob R closed
        (s\<lparr>pkglen := be32 (word_of_int (frame_size R x)), rpkg := delivered (rpkg s) x\<rparr>) rest
     in (delivery R (rpkg s) x # cs, e))"
proof -
  let ?L = "frame_size R x" and ?bs = "frame_bytes (fst x) (body_of (snd x))"
  note w = wire_split [OF ok]
  obtain k where k: "class_of_cmd (cmdType (fst x)) = Some k" "sendable k (snd x)"
    and e: "extension (fst x) < 2 ^ 32"
    using ok by (auto simp: frame_ok_def)
  have pl: "plain_len (be32 (word_of_int ?L))" using w(3,4) len by (simp add: plain_len_iff)
  have "readLong oob (be64 (extension (fst x))) = Some (extension (fst x))"
    using readLong_be64_small [of oob, OF oob e, of "[]"] by simp
  from parse_frame_of [OF k(2,1) _ this, of "rpkg s" "[]"] w(4)
  have p: "parseFrom oob R (rpkg s) ?bs ?L = Some (True, delivered (rpkg s) x)"
    by (simp add: delivered_def frame_size_def)
  let ?s' = "s\<lparr>read_buffer := [], pkglen := be32 (word_of_int ?L), rpkg := delivered (rpkg s) x, rop := Idle\<rparr>"
  have "async_read_pkgdata oob R None ?bs (s\<lparr>pkglen := be32 (word_of_int ?L), rop := Idle\<rparr>) =
      Some (Some (delivery R (rpkg s) x), ?s')"
  proof -
    have "nat ?L = length ?bs" using w(2) by simp
    with pkgdata_parsed [of "s\<lparr>pkglen := be32 (word_of_int ?L), rop := Idle\<rparr>" ?L oob R ?bs, OF _ w(4)] s p w(5)
    show ?thesis by (simp add: frame_len_be32 [OF pl] delivery_def)
  qed
  from read_loop_frame [OF s(1) pl w(3) _ _ _ this, of prep closed rest] w prep
  have "read_loop prep oob R closed s (wire R x @ rest) =
      (let (cs, e) = read_loop prep oob R closed (reread (Some (delivery R (rpkg s) x)) ?s') rest
       in (delivery R (rpkg s) x # cs, e))"
    by (simp add: prep_ok_def)
  moreover have "reread (Some (delivery R (rpkg s) x)) ?s' =
      s\<lparr>pkglen := be32 (word_of_int ?L), rpkg := delivered (rpkg s) x\<rparr>"
    using s by (cases s) (simp add: delivery_def)
  ultimately show ?thesis by simp
qed

lemma read_many:
  assumes "\<forall>x\<in>set xs. frame_ok R sendable x \<and> frame_size R x mod 256 < 128"
    and "prep_ok prep" and "\<And>k. oob k 0 = 0" and "rop s = AwaitLen" and "read_buffer s = []"
  shows "\<exists>s'. rop s' = AwaitLen \<and> read_buffer s' = [] \<and> rpkg s' = foldl delivered (rpkg s) xs \<and>
    read_loop prep oob R closed s (concat (map (wire R) xs) @ rest) =
      (map (delivery R (rpkg s)) xs @ fst (read_loop prep oob R closed s' rest),
       snd (read_loop prep oob R closed s' rest))"
  using assms(1,4,5)
proof (induction xs arbitrary: s)
  case Nil
  then show ?case by (intro exI [of _ s]) simp
next
  case (Cons x xs)
  let ?s = "s\<lparr>pkglen := be32 (word_of_int (frame_size R x)), rpkg := delivered (rpkg s) x\<rparr>"
  obtain s' where s': "rop s' = AwaitLen" "read_buffer s' = []"
    "rpkg s' = foldl delivered (delivered (rpkg s) x) xs"
    "read_loop prep oob R closed ?s (concat (map (wire R) xs) @ rest) =
      (map (delivery R (rpkg s)) xs @ fst (read_loop prep oob R closed s' rest),
       snd (read_loop prep oob R closed s' rest))"
    using Cons.IH [of ?s] Cons.prems by auto
  show ?case
    using Cons.prems s' read_one [of x prep oob s closed "concat (map (wire R) xs) @ rest"] assms(2,3)
    by (intro exI [of _ s']) simp
qed

text \<open>A frame whose length field is not plain ends the thread.\<close>

lemma read_dies:
  assumes ok: "frame_ok R sendable x" and len: "128 \<le> frame_size R x mod 256"
    and prep: "prep_ok prep" and s: "rop s = AwaitLen"
  shows "\<exists>s'. read_loop prep oob R closed s (wire R x @ rest) =
      ([], Stopped s' (drop 4 (wire R x) @ rest)) \<and> rop s' = Threw"
proof -
  note w = wire_split [OF ok]
  have "\<not> plain_len (be32 (word_of_int (frame_size R x)))"
    using w(3,4) len by (simp add: plain_len_iff)
  then have "io_step prep oob R closed s (wire R x @ rest) =
      Completed None (s\<lparr>pkglen := be32 (word_of_int (frame_size R x)), rop := Threw\<rparr>) (drop 4 (wire R x) @ rest)"
    using step_len_throws [OF prep s, of "wire R x @ rest" oob R closed] by (simp add: w(1))
  note s1 = read_loop_step [OF this]
  have "io_step prep oob R closed (s\<lparr>pkglen := be32 (word_of_int (frame_size R x)), rop := Threw\<rparr>) i = Blocked" for i
    by (simp add: io_step_def)
  from s1 read_loop_blocked [OF this] show ?thesis by simp
qed

end

section \<open>Arrival in pieces\<close>

lemma io_step_append:
  "io_step prep oob R None s a = Completed c s' a' \<Longrightarrow>
   io_step prep oob R None s (a @ b) = Completed c s' (a' @ b)"
  by (auto simp: io_step_def split: read_op.splits if_splits option.splits prod.splits)

lemma read_loop_append:
  "read_loop prep oob R closed s a = (cs, Stopped s' r) \<Longrightarrow> closed = None \<Longrightarrow>
   read_loop prep oob R closed s (a @ b) =
     (cs @ fst (read_loop prep oob R closed s' (r @ b)), snd (read_loop prep oob R closed s' (r @ b)))"
proof (induction prep oob R closed s a arbitrary: cs rule: read_loop.induct)
  case (1 prep oob R closed s inc)
  show ?case
  proof (cases "io_step prep oob R closed s inc")
    case Blocked
    with "1.prems" show ?thesis by (simp add: read_loop_blocked)
  next
    case Undefined
    with "1.prems" show ?thesis by (simp add: read_loop.simps [of _ _ _ _ s inc])
  next
    case (Completed c s1 inc1)
    then obtain cs1 where cs1: "read_loop prep oob R closed (reread c s1) inc1 = (cs1, Stopped s' r)"
      and cs: "cs = (case c of None \<Rightarrow> cs1 | Some h \<Rightarrow> h # cs1)"
      using "1.prems" by (auto simp: read_loop_step split: prod.splits)
    have "io_step prep oob R closed s (inc @ b) = Completed c s1 (inc1 @ b)"
      using Completed "1.prems"(2) io_step_append by blast
    then show ?thesis
      using "1.IH" [OF Completed cs1 "1.prems"(2)] cs
      by (simp add: read_loop_step split: option.split prod.split)
  qed
qed

section \<open>Properties\<close>

definition sample_wire_packet :: "header \<times> byte list" where
  "sample_wire_packet = (\<lparr>opaque = 7, cmdType = CMD_STRING_MESSAGE, version = 2, extension = 5\<rparr>, [0xCA, 0xFE])"

definition hdr_sample :: "byte \<Rightarrow> header" where
  "hdr_sample c = \<lparr>opaque = 7, cmdType = c, version = 2, extension = 0\<rparr>"

definition sample_session :: "byte list session" where
  "sample_session = async_read (asioSession [0, 0, 0, 0] sample_packet)"

definition any_prep :: "nat \<Rightarrow> bool" where
  "any_prep n \<longleftrightarrow> n < 2 ^ 31"

lemma any_prep_ok: "prep_ok any_prep"
  by (auto simp: prep_ok_def any_prep_def)

lemma sample_session_ready: "rop sample_session = AwaitLen" "read_buffer sample_session = []"
  by (simp_all add: sample_session_def asioSession_def async_read_def async_setup_read_varint_def)

lemma x86_shl_0: "x86_shl k 0 = 0"
  by (simp add: x86_shl_def)

lemma sample_frame_ok: "frame_ok raw_rt (\<lambda>_ _. True) sample_wire_packet"
  by (simp add: frame_ok_def sample_wire_packet_def frame_size_def raw_rt_def class_of_cmd_def
      cmd_defs getMaxFrameLength_def MAX_PACKET_BYTES_def)

lemma sample_frame_size: "frame_size raw_rt sample_wire_packet = 21"
  by (simp add: frame_size_def sample_wire_packet_def raw_rt_def)

text \<open>
  C6: a stream of well-formed packets is delivered completely, in order and without change:
  for any number of packets with parsable classes, sizes below the frame limit whose low byte
  is below 128, followed by the beginning of a further length field, the handler is called
  once per packet, with success, the frame's size and a packet with that header and message,
  and the session waits for the next length with an empty buffer.
\<close>

theorem session_delivers_in_order:
  assumes "msg_runtime R sendable"
    and "\<forall>x\<in>set xs. frame_ok R sendable x \<and> frame_size R x mod 256 < 128"
    and "prep_ok prep" and "\<And>k. oob k 0 = 0"
    and "rop s = AwaitLen" and "read_buffer s = []" and "length rest < 4"
  shows "\<exists>s'. read_loop prep oob R None s (concat (map (wire R) xs) @ rest) =
      (map (delivery R (rpkg s)) xs, Stopped s' rest) \<and> rop s' = AwaitLen \<and> read_buffer s' = []"
proof -
  obtain s' where s': "rop s' = AwaitLen" "read_buffer s' = []"
    "read_loop prep oob R None s (concat (map (wire R) xs) @ rest) =
      (map (delivery R (rpkg s)) xs @ fst (read_loop prep oob R None s' rest),
       snd (read_loop prep oob R None s' rest))"
    using msg_runtime.read_many [where oob = oob, OF assms(1-6)] by blast
  moreover have "io_step prep oob R None s' rest = Blocked"
    using s'(1) assms(7) by (simp add: io_step_def)
  ultimately show ?thesis by (simp add: read_loop_blocked)
qed

theorem session_delivers_in_order_witness:
  "\<exists>s'. read_loop any_prep x86_shl raw_rt None sample_session
      (concat (map (wire raw_rt) [sample_wire_packet, sample_wire_packet]) @ [0, 0]) =
      (map (delivery raw_rt (rpkg sample_session)) [sample_wire_packet, sample_wire_packet], Stopped s' [0, 0]) \<and>
    rop s' = AwaitLen \<and> read_buffer s' = []"
  by (rule session_delivers_in_order [where oob = x86_shl, OF raw_rt_runtime _ any_prep_ok x86_shl_0 sample_session_ready])
    (simp_all add: sample_frame_ok sample_frame_size)



text \<open>
  C22: the length field is read with signed characters, so a valid packet whose frame size has a
  low byte of 128 or more (any of 128..255, 384..511, and so on) ends the I/O thread: the
  packets before it are delivered, the size passed to \<open>prepare\<close> is negative, the exception
  leaves the loop, and neither it nor anything after it is ever delivered.
\<close>

theorem session_dies_on_length:
  assumes "msg_runtime R sendable"
    and "\<forall>x\<in>set xs. frame_ok R sendable x \<and> frame_size R x mod 256 < 128"
    and "prep_ok prep" and "\<And>k. oob k 0 = 0"
    and "rop s = AwaitLen" and "read_buffer s = []"
    and "frame_ok R sendable x" and "128 \<le> frame_size R x mod 256"
  shows "\<exists>s'. read_loop prep oob R closed s (concat (map (wire R) xs) @ wire R x @ rest) =
      (map (delivery R (rpkg s)) xs, Stopped s' (drop 4 (wire R x) @ rest)) \<and> rop s' = Threw"
proof -
  obtain s' where s': "rop s' = AwaitLen"
    "read_loop prep oob R closed s (concat (map (wire R) xs) @ wire R x @ rest) =
      (map (delivery R (rpkg s)) xs @ fst (read_loop prep oob R closed s' (wire R x @ rest)),
       snd (read_loop prep oob R closed s' (wire R x @ rest)))"
    using msg_runtime.read_many [where oob = oob, OF assms(1-6)] by blast
  moreover obtain t where "read_loop prep oob R closed s' (wire R x @ rest) =
      ([], Stopped t (drop 4 (wire R x) @ rest))" "rop t = Threw"
    using msg_runtime.read_dies [OF assms(1,7,8,3) s'(1)] by blast
  ultimately show ?thesis by (intro exI [of _ t]) simp
qed

theorem session_dies_on_length_witness:
  "\<exists>s'. read_loop any_prep x86_shl raw_rt None sample_session
      (concat (map (wire raw_rt) [sample_wire_packet]) @
       wire raw_rt (fst sample_wire_packet, replicate 109 0) @ []) =
      (map (delivery raw_rt (rpkg sample_session)) [sample_wire_packet],
       Stopped s' (drop 4 (wire raw_rt (fst sample_wire_packet, replicate 109 0)) @ [])) \<and> rop s' = Threw"
  by (rule session_dies_on_length [where oob = x86_shl, OF raw_rt_runtime _ any_prep_ok x86_shl_0 sample_session_ready])
    (simp_all add: sample_frame_ok sample_frame_size,
     simp_all add: frame_ok_def sample_wire_packet_def frame_size_def raw_rt_def class_of_cmd_def
      cmd_defs getMaxFrameLength_def MAX_PACKET_BYTES_def)



text \<open>
  A frame with a command the client does not know, with a complete header and a body that
  fits, is skipped whole: no call of the handler, the packet unchanged, and reading goes on
  with an empty buffer.
\<close>

lemma session_skips_unknown:
  assumes "class_of_cmd (cmdType h) = None"
    and "19 + length body < 32768" and "(19 + length body) mod 256 < 128"
    and "prep_ok prep" and "rop s = AwaitLen" and "read_buffer s = []"
  shows "\<exists>s'. read_loop prep oob R closed s (packet_bytes h body @ rest) = read_loop prep oob R closed s' rest \<and>
    rop s' = AwaitLen \<and> read_buffer s' = [] \<and> rpkg s' = rpkg s"
proof -
  let ?L = "19 + int (length body)"
  let ?b = "be32 (word_of_int ?L)" and ?bs = "frame_bytes h body"
  have "?L mod 256 = int ((19 + length body) mod 256)"
    by (simp only: of_nat_mod of_nat_add of_nat_numeral)
  with assms(2,3) have L: "0 \<le> ?L" "?L < 32768" "?L mod 256 < 128" by simp_all
  then have pl: "plain_len ?b" by (simp only: plain_len_iff)
  have fl: "sint (frame_len ?b) = ?L" by (rule frame_len_value [OF pl]) (use L in simp_all)
  obtain ext where "readLong oob (be64 (extension h)) = Some ext" using readLong_be64_total by blast
  from parseFrom_frame [OF _ refl this, of body R "rpkg s" "[]"] assms(1,2)
  have p: "parseFrom oob R (rpkg s) ?bs ?L = Some (False, rpkg s)" by simp
  let ?s' = "s\<lparr>pkglen := ?b, rop := AwaitLen\<rparr>"
  have "async_read_pkgdata oob R None ?bs (s\<lparr>pkglen := ?b, rop := Idle\<rparr>) = Some (None, ?s')"
    using pkgdata_refused [of "s\<lparr>pkglen := ?b, rop := Idle\<rparr>" ?L oob R ?bs] fl L(2) p assms(6)
    by (cases s) simp
  from read_loop_frame [OF assms(5) pl L(1) _ _ _ this, of prep closed rest] assms(4) L(2)
  have "read_loop prep oob R closed s (?b @ ?bs @ rest) = read_loop prep oob R closed ?s' rest"
    by (simp add: prep_ok_def nat_add_distrib split: prod.split)
  moreover have "packet_bytes h body = ?b @ ?bs"
    by (simp add: packet_bytes_def frame_bytes_def head_bytes_def)
  ultimately show ?thesis using assms(5,6) by (intro exI [of _ ?s']) simp
qed

end
