(* ===== verification/Containers.thy ===== *)
theory Containers
  imports Prelude
begin

text \<open>
  \<^verbatim>\<open>commons/ConcurrentMap.hpp\<close>, \<^verbatim>\<open>commons/ConcurrentSet.hpp\<close> and
  \<^verbatim>\<open>remoting/ListenerManager\<close>: tables guarded by one mutex each, so every method is one step.
  An \<open>unordered_map\<close> or \<open>map\<close> is a partial function, an \<open>unordered_set\<close> a set; an out-parameter
  is an argument whose new value is part of the result.
\<close>

section \<open>ConcurrentMap\<close>

record ('k, 'v) concurrentMap =
  mvalues :: "'k \<rightharpoonup> 'v"

definition ConcurrentMap :: "('k, 'v) concurrentMap" where
  "ConcurrentMap = \<lparr>mvalues = Map.empty\<rparr>"

definition putIfAbsent :: "'k \<Rightarrow> 'v \<Rightarrow> 'v \<Rightarrow> ('k, 'v) concurrentMap \<Rightarrow> bool \<times> 'v \<times> ('k, 'v) concurrentMap" where
  "putIfAbsent k v oldval m =
     (case mvalues m k of
        Some w \<Rightarrow> (True, w, m)
      | None \<Rightarrow> (False, oldval, m\<lparr>mvalues := (mvalues m)(k \<mapsto> v)\<rparr>))"

definition remove_get :: "'k \<Rightarrow> 'v \<Rightarrow> ('k, 'v) concurrentMap \<Rightarrow> bool \<times> 'v \<times> ('k, 'v) concurrentMap" where
  "remove_get k v m =
     (case mvalues m k of
        None \<Rightarrow> (False, v, m)
      | Some w \<Rightarrow> (True, w, m\<lparr>mvalues := (mvalues m)(k := None)\<rparr>))"

definition cm_remove :: "'k \<Rightarrow> ('k, 'v) concurrentMap \<Rightarrow> bool \<times> ('k, 'v) concurrentMap" where
  "cm_remove k m =
     (case mvalues m k of
        None \<Rightarrow> (False, m)
      | Some w \<Rightarrow> (True, m\<lparr>mvalues := (mvalues m)(k := None)\<rparr>))"

definition cm_get :: "'k \<Rightarrow> 'v \<Rightarrow> ('k, 'v) concurrentMap \<Rightarrow> bool \<times> 'v" where
  "cm_get k v m = (case mvalues m k of None \<Rightarrow> (False, v) | Some w \<Rightarrow> (True, w))"

definition cm_containsKey :: "'k \<Rightarrow> ('k, 'v) concurrentMap \<Rightarrow> bool" where
  "cm_containsKey k m = (case mvalues m k of None \<Rightarrow> False | Some w \<Rightarrow> True)"

section \<open>ConcurrentSet\<close>

text \<open>
  \<open>putIfAbsent\<close> of the set is not modelled: its body uses \<open>it->second\<close> on a set iterator and
  does not compile when it is instantiated; nothing instantiates it.
\<close>

record 'k concurrentSet =
  svalues :: "'k set"

definition ConcurrentSet :: "'k concurrentSet" where
  "ConcurrentSet = \<lparr>svalues = {}\<rparr>"

definition cs_add :: "'k \<Rightarrow> 'k concurrentSet \<Rightarrow> 'k concurrentSet" where
  "cs_add k s = (if k \<in> svalues s then s else s\<lparr>svalues := insert k (svalues s)\<rparr>)"

definition cs_remove :: "'k \<Rightarrow> 'k concurrentSet \<Rightarrow> bool \<times> 'k concurrentSet" where
  "cs_remove k s = (if k \<notin> svalues s then (False, s) else (True, s\<lparr>svalues := svalues s - {k}\<rparr>))"

definition cs_containsKey :: "'k \<Rightarrow> 'k concurrentSet \<Rightarrow> bool" where
  "cs_containsKey k s = (if k \<notin> svalues s then False else True)"

definition cs_size :: "'k concurrentSet \<Rightarrow> int" where
  "cs_size s = int (card (svalues s))"

section \<open>ListenerManager\<close>

text \<open>
  The table of listeners by channel.  \<open>map::insert\<close> leaves an existing entry alone.  A listener
  is a value of type \<open>'l\<close>; the static default listener is a field.
\<close>

record 'l listenerManager =
  listeners :: "string \<rightharpoonup> 'l"
  defaultListener :: 'l

definition registerListener :: "string \<Rightarrow> 'l \<Rightarrow> 'l listenerManager \<Rightarrow> 'l listenerManager" where
  "registerListener channel listener m =
     (if listeners m channel = None
      then m\<lparr>listeners := (listeners m)(channel \<mapsto> listener)\<rparr> else m)"

definition unregisterListener :: "string \<Rightarrow> 'l listenerManager \<Rightarrow> 'l listenerManager" where
  "unregisterListener channel m = m\<lparr>listeners := (listeners m)(channel := None)\<rparr>"

definition getListener :: "string \<Rightarrow> 'l listenerManager \<Rightarrow> 'l" where
  "getListener channel m =
     (case listeners m channel of None \<Rightarrow> defaultListener m | Some l \<Rightarrow> l)"

section \<open>The table contract\<close>

text \<open>
  What every user of such a table relies on: a lookup, an insertion that keeps an existing
  entry, and an erasure.  The lemmas say which of several registrations of a key wins.
\<close>

locale table =
  fixes find :: "'s \<Rightarrow> 'k \<Rightarrow> 'v option" and ins :: "'k \<Rightarrow> 'v \<Rightarrow> 's \<Rightarrow> 's" and erase :: "'k \<Rightarrow> 's \<Rightarrow> 's"
  assumes find_ins: "find (ins k v s) = (if find s k = None then (find s)(k \<mapsto> v) else find s)"
    and find_erase: "find (erase k s) = (find s)(k := None)"
begin

lemma dom_ins: "dom (find (ins k v s)) = insert k (dom (find s))"
  by (auto simp: find_ins dom_def)

lemma dom_erase: "dom (find (erase k s)) = dom (find s) - {k}"
  by (auto simp: find_erase dom_def)

text \<open>After any sequence of insertions the first one for a key decides.\<close>

lemma find_fold_ins:
  "find (fold (\<lambda>(k, v). ins k v) kvs s) k = (case find s k of Some v \<Rightarrow> Some v | None \<Rightarrow> map_of kvs k)"
  by (induction kvs arbitrary: s) (auto simp: find_ins split: option.splits if_splits)

lemma replace: "find (ins k v (erase k s)) = (find s)(k \<mapsto> v)"
  by (simp add: find_ins find_erase)

lemma ins_other: "k \<noteq> l \<Longrightarrow> find (ins k v s) l = find s l"
  by (simp add: find_ins)

end

interpretation cmap: table mvalues "\<lambda>k v m. snd (snd (putIfAbsent k v v m))" "\<lambda>k m. snd (cm_remove k m)"
  by unfold_locales (auto simp: putIfAbsent_def cm_remove_def fun_eq_iff split: option.splits)

interpretation lmgr: table listeners registerListener unregisterListener
  by unfold_locales (auto simp: registerListener_def unregisterListener_def)

text \<open>A history of the manager's two mutating calls.\<close>

datatype 'l lm_op = Register string 'l | Unregister string

fun lm_apply :: "'l lm_op \<Rightarrow> 'l listenerManager \<Rightarrow> 'l listenerManager" where
  "lm_apply (Register ch l) m = registerListener ch l m"
| "lm_apply (Unregister ch) m = unregisterListener ch m"

definition lm_run :: "'l lm_op list \<Rightarrow> 'l listenerManager \<Rightarrow> 'l listenerManager" where
  "lm_run ops m = fold lm_apply ops m"

lemma lm_run_binding:
  assumes "listeners m ch = Some l" and "Unregister ch \<notin> set ops"
  shows "listeners (lm_run ops m) ch = Some l"
  using assms
proof (induction ops arbitrary: m)
  case (Cons x ops)
  then have "listeners (lm_apply x m) ch = Some l"
    by (cases x) (auto simp: lmgr.find_ins lmgr.find_erase)
  with Cons show ?case by (simp add: lm_run_def)
qed (simp add: lm_run_def)

section \<open>Properties\<close>

text \<open>
  \<open>ConcurrentMap\<close> is a map: whatever a key was bound to, the first \<open>putIfAbsent\<close> of a sequence
  binds it and reports False, later ones report True with the value bound first and change
  nothing; \<open>get\<close>, \<open>containsKey\<close> and both \<open>remove\<close> agree on that binding.
\<close>

lemma concurrentMap_first_wins:
  assumes "mvalues m k = None"
  shows "\<exists>m'. putIfAbsent k v d m = (False, d, m') \<and> putIfAbsent k w e m' = (True, v, m') \<and>
    cm_get k e m' = (True, v) \<and> cm_containsKey k m' \<and>
    remove_get k e m' = (True, v, m) \<and> cm_remove k m' = (True, m)"
proof -
  have "(mvalues m)(k := None) = mvalues m" using assms by auto
  with assms show ?thesis
    by (simp add: putIfAbsent_def cm_get_def cm_containsKey_def remove_get_def cm_remove_def)
qed

text \<open>
  A listener registered for a channel is the one \<open>getListener\<close> returns until the channel is
  unregistered, however many other registrations follow, for that channel or others; a second
  registration of the same channel is silently ignored.
\<close>

lemma listener_first_registration_wins:
  assumes "listeners (lm_run before m) ch = None" and "Unregister ch \<notin> set after"
  shows "getListener ch (lm_run (before @ Register ch l # after) m) = l"
proof -
  have "listeners (registerListener ch l (lm_run before m)) ch = Some l"
    using assms(1) by (simp add: lmgr.find_ins)
  from lm_run_binding [OF this assms(2)] show ?thesis
    by (simp add: lm_run_def getListener_def)
qed

text \<open>
  \<open>ConcurrentSet\<close>: \<open>add\<close> and \<open>remove\<close> change membership of their key only, \<open>size\<close> counts the
  members, and \<open>remove\<close> reports whether the key was there.
\<close>

lemma concurrentSet_ops:
  assumes "finite (svalues s)"
  shows "cs_containsKey x (cs_add k s) = (x = k \<or> cs_containsKey x s) \<and>
    cs_containsKey x (snd (cs_remove k s)) = (x \<noteq> k \<and> cs_containsKey x s) \<and>
    fst (cs_remove k s) = cs_containsKey k s \<and>
    cs_size (cs_add k s) = (if cs_containsKey k s then cs_size s else cs_size s + 1) \<and>
    cs_size (snd (cs_remove k s)) = (if cs_containsKey k s then cs_size s - 1 else cs_size s)"
proof -
  have "k \<in> svalues s \<Longrightarrow> 0 < card (svalues s)"
    using assms by (auto simp: card_gt_0_iff)
  with assms show ?thesis
    by (auto simp: cs_containsKey_def cs_add_def cs_remove_def cs_size_def of_nat_diff Suc_le_eq)
qed

end
