(* ===== verification/Futures.thy ===== *)
theory Futures
  imports Containers
begin

text \<open>
  \<^verbatim>\<open>remoting/inc/KiteResponse.hpp\<close> and \<^verbatim>\<open>remoting/ResponseFuture.cpp\<close>: requests waiting for
  their response, in a static map by request id.

  A \<open>ResponseFuture\<close> object is a boost promise and a request id; its reference is a number.
  Of the promise the code uses that a value can be set once (a second \<open>set_value\<close> throws),
  that \<open>get_future\<close> works once, and that a wait ends with the value or at the timeout.
\<close>

section \<open>Objects and the static map\<close>

record 'm kiteResponse =
  resp_requestId :: int32
  resp_message :: "'m option"

definition KiteResponse :: "int32 \<Rightarrow> 'm option \<Rightarrow> 'm kiteResponse" where
  "KiteResponse i m = \<lparr>resp_requestId = i, resp_message = m\<rparr>"

record 'm responseFuture =
  requestId :: int32
  fvalue :: "'m kiteResponse option"
  retrieved :: bool

record 'm futures =
  objs :: "nat \<Rightarrow> 'm responseFuture"
  futureMap :: "int32 \<rightharpoonup> nat"

datatype future_error = promise_already_satisfied | future_already_retrieved

definition ResponseFuture :: "int32 \<Rightarrow> 'm responseFuture" where
  "ResponseFuture i = \<lparr>requestId = i, fvalue = None, retrieved = False\<rparr>"

definition new_future :: "nat \<Rightarrow> int32 \<Rightarrow> 'm futures \<Rightarrow> 'm futures" where
  "new_future n i s = s\<lparr>objs := (objs s)(n := ResponseFuture i)\<rparr>"

definition fm_insert :: "int32 \<Rightarrow> nat \<Rightarrow> 'm futures \<Rightarrow> 'm futures" where
  "fm_insert i n s = (if futureMap s i = None then s\<lparr>futureMap := (futureMap s)(i \<mapsto> n)\<rparr> else s)"

definition fm_erase :: "int32 \<Rightarrow> 'm futures \<Rightarrow> 'm futures" where
  "fm_erase i s = s\<lparr>futureMap := (futureMap s)(i := None)\<rparr>"

interpretation fmap: table futureMap fm_insert fm_erase
  by unfold_locales (auto simp: fm_insert_def fm_erase_def)

definition ResponseFutureUsed :: "nat \<Rightarrow> 'm futures \<Rightarrow> 'm futures" where
  "ResponseFutureUsed n s =
     (let i = requestId (objs s n) in
      if futureMap s i = None then fm_insert i n s else s)"

definition setResponse :: "nat \<Rightarrow> 'm kiteResponse \<Rightarrow> 'm futures \<Rightarrow> future_error + 'm futures" where
  "setResponse n resp s =
     (case fvalue (objs s n) of
        Some v \<Rightarrow> Inl promise_already_satisfied
      | None \<Rightarrow> Inr (s\<lparr>objs := (objs s)(n := (objs s n)\<lparr>fvalue := Some resp\<rparr>)\<rparr>))"

definition receiveResponse :: "'m kiteResponse \<Rightarrow> 'm futures \<Rightarrow> future_error + 'm futures" where
  "receiveResponse resp s =
     (let i = resp_requestId resp in
      case futureMap s i of
        None \<Rightarrow> Inr s
      | Some n \<Rightarrow> setResponse n resp (fm_erase i s))"

definition get_future :: "nat \<Rightarrow> 'm futures \<Rightarrow> future_error + 'm futures" where
  "get_future n s =
     (if retrieved (objs s n) then Inl future_already_retrieved
      else Inr (s\<lparr>objs := (objs s)(n := (objs s n)\<lparr>retrieved := True\<rparr>)\<rparr>))"

definition getRequestId :: "nat \<Rightarrow> 'm futures \<Rightarrow> int32" where
  "getRequestId n s = requestId (objs s n)"

text \<open>
  \<open>getResponse(timeout)\<close> after \<open>get_future\<close>: at the end of the wait either the value is there
  and is returned, or the entry of this request id is erased, under the map's lock, and a null
  pointer is returned.  \<open>mid\<close> is what other threads do between the wait and the lock.
\<close>

definition erase_request :: "nat \<Rightarrow> 'm futures \<Rightarrow> 'm futures" where
  "erase_request n s = fm_erase (requestId (objs s n)) s"

definition getResponse_timeout ::
  "nat \<Rightarrow> ('m futures \<Rightarrow> 'm futures) \<Rightarrow> 'm futures \<Rightarrow> 'm kiteResponse option \<times> 'm futures" where
  "getResponse_timeout n mid s =
     (case fvalue (objs s n) of
        Some r \<Rightarrow> (Some r, s)
      | None \<Rightarrow> (None, erase_request n (mid s)))"

text \<open>\<open>getResponse()\<close> without a timeout returns only once the value is there.\<close>

definition getResponse_ready :: "nat \<Rightarrow> 'm futures \<Rightarrow> 'm kiteResponse option" where
  "getResponse_ready n s = fvalue (objs s n)"

section \<open>Calls in flight\<close>

text \<open>
  Each call of the client creates a future, registers it, sends its packet, and waits with a
  timeout; meanwhile the I/O thread delivers responses.  A call is at one of these points; the
  wait and the erasure of a call that timed out are separate steps.  Which request ids the
  packets get is decided by \<open>KitePacketHeader\<close>, which is not in the repository: \<open>pick s i\<close> says
  that a new packet may get id \<open>i\<close> in state \<open>s\<close>.
\<close>

datatype 'm call_pc = NoCall | Created | Waiting | TimedOut | Returned "'m kiteResponse option"

record 'm calls =
  fs :: "'m futures"
  pc :: "nat \<Rightarrow> 'm call_pc"

definition calls_init :: "'m calls" where
  "calls_init = \<lparr>fs = \<lparr>objs = (\<lambda>_. ResponseFuture 0), futureMap = Map.empty\<rparr>, pc = (\<lambda>_. NoCall)\<rparr>"

inductive call_step :: "('m calls \<Rightarrow> int32 \<Rightarrow> bool) \<Rightarrow> 'm calls \<Rightarrow> 'm calls \<Rightarrow> bool" for pick where
  c_create: "pc s n = NoCall \<Longrightarrow> pick s i \<Longrightarrow>
    call_step pick s (s\<lparr>fs := new_future n i (fs s), pc := (pc s)(n := Created)\<rparr>)"
| c_used: "pc s n = Created \<Longrightarrow> get_future n (ResponseFutureUsed n (fs s)) = Inr f \<Longrightarrow>
    call_step pick s (s\<lparr>fs := f, pc := (pc s)(n := Waiting)\<rparr>)"
| c_receive: "receiveResponse resp (fs s) = Inr f \<Longrightarrow> call_step pick s (s\<lparr>fs := f\<rparr>)"
| c_value: "pc s n = Waiting \<Longrightarrow> fvalue (objs (fs s) n) = Some r \<Longrightarrow>
    call_step pick s (s\<lparr>pc := (pc s)(n := Returned (Some r))\<rparr>)"
| c_timeout: "pc s n = Waiting \<Longrightarrow> fvalue (objs (fs s) n) = None \<Longrightarrow>
    call_step pick s (s\<lparr>pc := (pc s)(n := TimedOut)\<rparr>)"
| c_erase: "pc s n = TimedOut \<Longrightarrow>
    call_step pick s (s\<lparr>fs := erase_request n (fs s), pc := (pc s)(n := Returned None)\<rparr>)"

inductive calls_reachable :: "('m calls \<Rightarrow> int32 \<Rightarrow> bool) \<Rightarrow> 'm calls \<Rightarrow> bool" for pick where
  cr_init: "calls_reachable pick calls_init"
| cr_step: "calls_reachable pick s \<Longrightarrow> call_step pick s s' \<Longrightarrow> calls_reachable pick s'"

inductive_cases call_stepE: "call_step pick s s'"

section \<open>The invariant\<close>

text \<open>The calls between the registration of their future and their return.\<close>

definition in_flight :: "'m call_pc \<Rightarrow> bool" where
  "in_flight p \<longleftrightarrow> p = Waiting \<or> p = TimedOut"

definition calls_inv :: "'m calls \<Rightarrow> bool" where
  "calls_inv s \<longleftrightarrow>
     (\<forall>i n. futureMap (fs s) i = Some n \<longrightarrow>
        requestId (objs (fs s) n) = i \<and> fvalue (objs (fs s) n) = None \<and> in_flight (pc s n)) \<and>
     (\<forall>n r. fvalue (objs (fs s) n) = Some r \<longrightarrow> resp_requestId r = requestId (objs (fs s) n)) \<and>
     (\<forall>n r. pc s n = Returned (Some r) \<longrightarrow> fvalue (objs (fs s) n) = Some r) \<and>
     (\<forall>n. pc s n = NoCall \<or> pc s n = Created \<longrightarrow>
        fvalue (objs (fs s) n) = None \<and> \<not> retrieved (objs (fs s) n))"

lemma calls_invD:
  assumes "calls_inv s"
  shows "futureMap (fs s) i = Some n \<Longrightarrow> requestId (objs (fs s) n) = i"
    and "futureMap (fs s) i = Some n \<Longrightarrow> fvalue (objs (fs s) n) = None"
    and "futureMap (fs s) i = Some n \<Longrightarrow> in_flight (pc s n)"
    and "fvalue (objs (fs s) n) = Some r \<Longrightarrow> resp_requestId r = requestId (objs (fs s) n)"
    and "pc s n = Returned (Some r) \<Longrightarrow> fvalue (objs (fs s) n) = Some r"
    and "pc s n = NoCall \<or> pc s n = Created \<Longrightarrow> fvalue (objs (fs s) n) = None \<and> \<not> retrieved (objs (fs s) n)"
  using assms by (auto simp: calls_inv_def)

lemma calls_inv_init: "calls_inv calls_init"
  by (simp add: calls_inv_def calls_init_def ResponseFuture_def)

text \<open>What the compound operations do, in terms of the two tables.\<close>

lemma used_eq:
  "ResponseFutureUsed n f =
     f\<lparr>futureMap := (if futureMap f (requestId (objs f n)) = None
        then (futureMap f)(requestId (objs f n) \<mapsto> n) else futureMap f)\<rparr>"
  by (simp add: ResponseFutureUsed_def fm_insert_def Let_def)

lemma receive_inv_eq:
  assumes "calls_inv s"
  shows "receiveResponse r (fs s) = Inr
    (case futureMap (fs s) (resp_requestId r) of
       None \<Rightarrow> fs s
     | Some n \<Rightarrow> (fs s)\<lparr>objs := (objs (fs s))(n := (objs (fs s) n)\<lparr>fvalue := Some r\<rparr>),
         futureMap := (futureMap (fs s))(resp_requestId r := None)\<rparr>)"
  using calls_invD(2) [OF assms]
  by (auto simp: receiveResponse_def setResponse_def fm_erase_def Let_def split: option.splits)

lemma calls_inv_receive:
  assumes inv: "calls_inv s" and "receiveResponse r (fs s) = Inr f"
  shows "calls_inv (s\<lparr>fs := f\<rparr>)"
proof (cases "futureMap (fs s) (resp_requestId r)")
  case None
  with assms have "f = fs s" by (simp add: receive_inv_eq)
  with inv show ?thesis by simp
next
  case (Some n)
  let ?f = "(fs s)\<lparr>objs := (objs (fs s))(n := (objs (fs s) n)\<lparr>fvalue := Some r\<rparr>),
         futureMap := (futureMap (fs s))(resp_requestId r := None)\<rparr>"
  have f: "f = ?f" using assms Some by (simp add: receive_inv_eq)
  have n: "requestId (objs (fs s) n) = resp_requestId r" "in_flight (pc s n)"
    using calls_invD [OF inv] Some by auto
  show ?thesis
    using inv n unfolding f calls_inv_def by (auto simp: in_flight_def)
qed

lemma calls_inv_used:
  assumes inv: "calls_inv s" and c: "pc s n = Created"
    and g: "get_future n (ResponseFutureUsed n (fs s)) = Inr f"
  shows "calls_inv (s\<lparr>fs := f, pc := (pc s)(n := Waiting)\<rparr>)"
proof -
  have f: "f = (ResponseFutureUsed n (fs s))\<lparr>objs := (objs (fs s))(n := (objs (fs s) n)\<lparr>retrieved := True\<rparr>)\<rparr>"
    using g by (auto simp: get_future_def used_eq split: if_splits)
  have "fvalue (objs (fs s) n) = None" using calls_invD(6) [OF inv] c by blast
  then show ?thesis
    using inv c unfolding f used_eq calls_inv_def by (auto simp: in_flight_def)
qed

lemma call_step_inv: "call_step pick s s' \<Longrightarrow> calls_inv s \<Longrightarrow> calls_inv s'"
proof (induction rule: call_step.induct)
  case (c_create s n i)
  have "futureMap (fs s) k \<noteq> Some n" for k
    using calls_invD(3) [OF c_create.prems, of k n] c_create.hyps(1) by (auto simp: in_flight_def)
  with c_create show ?case unfolding calls_inv_def
    by (auto simp: new_future_def ResponseFuture_def in_flight_def)
next
  case (c_used s n f)
  then show ?case by (blast intro: calls_inv_used)
next
  case (c_receive resp s f)
  then show ?case by (blast intro: calls_inv_receive)
next
  case (c_value s n r)
  then show ?case unfolding calls_inv_def by (auto simp: in_flight_def)
next
  case (c_timeout s n)
  then show ?case unfolding calls_inv_def by (auto simp: in_flight_def)
next
  case (c_erase s n)
  then show ?case unfolding calls_inv_def by (auto simp: in_flight_def fm_erase_def erase_request_def)
qed

lemma reachable_inv: "calls_reachable pick s \<Longrightarrow> calls_inv s"
  by (induction rule: calls_reachable.induct) (auto intro: calls_inv_init call_step_inv)

text \<open>
  When no two calls in progress share a request id, a waiting call without a value is always
  registered.
\<close>

definition unique_pick :: "('m calls \<Rightarrow> int32 \<Rightarrow> bool) \<Rightarrow> bool" where
  "unique_pick pick \<longleftrightarrow> (\<forall>s i n. pick s i \<longrightarrow>
     (pc s n = Created \<or> in_flight (pc s n)) \<longrightarrow> requestId (objs (fs s) n) \<noteq> i)"

definition unique_inv :: "'m calls \<Rightarrow> bool" where
  "unique_inv s \<longleftrightarrow>
     (\<forall>m n. (pc s m = Created \<or> in_flight (pc s m)) \<longrightarrow> (pc s n = Created \<or> in_flight (pc s n)) \<longrightarrow>
        requestId (objs (fs s) m) = requestId (objs (fs s) n) \<longrightarrow> m = n) \<and>
     (\<forall>n. in_flight (pc s n) \<longrightarrow> fvalue (objs (fs s) n) = None \<longrightarrow>
        futureMap (fs s) (requestId (objs (fs s) n)) = Some n)"

lemma unique_inv_used:
  assumes inv: "calls_inv s" and u: "unique_inv s" and c: "pc s n = Created"
    and g: "get_future n (ResponseFutureUsed n (fs s)) = Inr f"
  shows "unique_inv (s\<lparr>fs := f, pc := (pc s)(n := Waiting)\<rparr>)"
proof -
  let ?i = "requestId (objs (fs s) n)"
  have f: "f = (ResponseFutureUsed n (fs s))\<lparr>objs := (objs (fs s))(n := (objs (fs s) n)\<lparr>retrieved := True\<rparr>)\<rparr>"
    using g by (auto simp: get_future_def used_eq split: if_splits)
  have "futureMap (fs s) ?i = None"
  proof (rule ccontr)
    assume "futureMap (fs s) ?i \<noteq> None"
    then obtain m where m: "futureMap (fs s) ?i = Some m" by auto
    with calls_invD(1,3) [OF inv] have "requestId (objs (fs s) m) = ?i" "in_flight (pc s m)" by auto
    with u c have "m = n" by (auto simp: unique_inv_def)
    with \<open>in_flight (pc s m)\<close> c show False by (simp add: in_flight_def)
  qed
  then show ?thesis
    using u c unfolding f used_eq unique_inv_def by (auto simp: in_flight_def)
qed

lemma unique_inv_receive:
  assumes inv: "calls_inv s" and u: "unique_inv s" and r: "receiveResponse r (fs s) = Inr f"
  shows "unique_inv (s\<lparr>fs := f\<rparr>)"
proof (cases "futureMap (fs s) (resp_requestId r)")
  case None
  with inv r have "f = fs s" by (simp add: receive_inv_eq)
  with u show ?thesis by simp
next
  case (Some k)
  let ?f = "(fs s)\<lparr>objs := (objs (fs s))(k := (objs (fs s) k)\<lparr>fvalue := Some r\<rparr>),
         futureMap := (futureMap (fs s))(resp_requestId r := None)\<rparr>"
  have f: "f = ?f" using inv r Some by (simp add: receive_inv_eq)
  have k: "requestId (objs (fs s) k) = resp_requestId r" "in_flight (pc s k)"
    using calls_invD [OF inv] Some by auto
  have id: "requestId (objs f n) = requestId (objs (fs s) n)" for n by (simp add: f)
  have "futureMap f (requestId (objs f n)) = Some n"
    if "in_flight (pc s n)" "fvalue (objs f n) = None" for n
  proof -
    from that(2) have "n \<noteq> k" "fvalue (objs (fs s) n) = None" by (auto simp: f split: if_splits)
    with u k that(1) have "requestId (objs (fs s) n) \<noteq> resp_requestId r"
      "futureMap (fs s) (requestId (objs (fs s) n)) = Some n"
      unfolding unique_inv_def by metis+
    then show ?thesis unfolding id by (simp add: f)
  qed
  then show ?thesis using u unfolding unique_inv_def by (simp add: id)
qed

lemma call_step_unique:
  assumes "call_step pick s s'" and "unique_pick pick" and "calls_inv s" and "unique_inv s"
  shows "unique_inv s'"
  using assms
proof (induction rule: call_step.induct)
  case (c_create s n i)
  then have "requestId (objs (fs s) m) \<noteq> i" if "pc s m = Created \<or> in_flight (pc s m)" for m
    using that by (auto simp: unique_pick_def)
  with c_create show ?case unfolding unique_inv_def
    by (auto simp: new_future_def ResponseFuture_def in_flight_def)
next
  case (c_used s n f)
  then show ?case by (blast intro: unique_inv_used)
next
  case (c_receive resp s f)
  then show ?case by (blast intro: unique_inv_receive)
next
  case (c_value s n r)
  then show ?case unfolding unique_inv_def by (auto simp: in_flight_def)
next
  case (c_timeout s n)
  then show ?case unfolding unique_inv_def by (auto simp: in_flight_def)
next
  case (c_erase s n)
  then show ?case unfolding unique_inv_def by (auto simp: in_flight_def fm_erase_def erase_request_def)
qed

lemma reachable_unique:
  assumes "calls_reachable pick s" and "unique_pick pick"
  shows "unique_inv s"
  using assms(1)
proof (induction rule: calls_reachable.induct)
  case cr_init
  show ?case by (simp add: unique_inv_def calls_init_def in_flight_def)
next
  case (cr_step s s')
  then show ?case using assms(2) by (blast intro: call_step_unique reachable_inv)
qed

section \<open>A concrete run\<close>

text \<open>
  Ids are taken fresh among the calls in progress; one call with id 7 is created, registered,
  answered, and returns.
\<close>

definition fresh_pick :: "'m calls \<Rightarrow> int32 \<Rightarrow> bool" where
  "fresh_pick s i \<longleftrightarrow> (\<forall>n. pc s n = Created \<or> in_flight (pc s n) \<longrightarrow> requestId (objs (fs s) n) \<noteq> i)"

definition sample_created :: "nat calls" where
  "sample_created = calls_init\<lparr>fs := new_future 0 7 (fs calls_init), pc := (pc calls_init)(0 := Created)\<rparr>"

definition sample_waiting :: "nat calls" where
  "sample_waiting = sample_created
     \<lparr>fs := \<lparr>objs = (objs (fs sample_created))(0 := (ResponseFuture 7)\<lparr>retrieved := True\<rparr>), futureMap = [7 \<mapsto> 0]\<rparr>,
      pc := (pc sample_created)(0 := Waiting)\<rparr>"

definition sample_answered :: "nat calls" where
  "sample_answered = sample_waiting
     \<lparr>fs := \<lparr>objs = (objs (fs sample_waiting))
          (0 := (ResponseFuture 7)\<lparr>retrieved := True, fvalue := Some (KiteResponse 7 (Some 5))\<rparr>),
        futureMap = Map.empty\<rparr>\<rparr>"

definition sample_returned :: "nat calls" where
  "sample_returned = sample_answered
     \<lparr>pc := (pc sample_answered)(0 := Returned (Some (KiteResponse 7 (Some 5))))\<rparr>"

lemmas sample_calls_defs = sample_created_def sample_waiting_def sample_answered_def
  sample_returned_def calls_init_def new_future_def ResponseFuture_def KiteResponse_def

lemma fresh_pick_unique: "unique_pick fresh_pick"
  by (simp add: unique_pick_def fresh_pick_def)

lemma sample_created_reachable: "calls_reachable fresh_pick sample_created"
  unfolding sample_created_def
  by (rule cr_step [OF cr_init c_create]) (auto simp: calls_init_def fresh_pick_def in_flight_def)

lemma sample_waiting_reachable: "calls_reachable fresh_pick sample_waiting"
  unfolding sample_waiting_def
  by (rule cr_step [OF sample_created_reachable c_used])
    (simp_all add: sample_created_def calls_init_def new_future_def ResponseFuture_def
      get_future_def used_eq)

lemma sample_answered_reachable: "calls_reachable fresh_pick sample_answered"
  unfolding sample_answered_def
  by (rule cr_step [OF sample_waiting_reachable c_receive [of "KiteResponse 7 (Some 5)"]])
    (simp add: sample_waiting_def sample_created_def calls_init_def new_future_def
      ResponseFuture_def receiveResponse_def setResponse_def fm_erase_def KiteResponse_def)

lemma sample_returned_reachable: "calls_reachable fresh_pick sample_returned"
  unfolding sample_returned_def
  by (rule cr_step [OF sample_answered_reachable c_value])
    (simp_all add: sample_answered_def sample_waiting_def)

section \<open>Properties\<close>

text \<open>
  C7: a call never gets the response of another request: whatever request ids the packets were
  given, and in whatever order responses, timeouts and registrations happen, a call that
  returns a response returns one whose request id is its own.
\<close>

theorem response_matches_request:
  assumes "calls_reachable pick s" and "pc s n = Returned (Some r)"
  shows "resp_requestId r = requestId (objs (fs s) n)"
  using calls_invD(4,5) [OF reachable_inv [OF assms(1)]] assms(2) by blast

lemma response_matches_request_witness:
  "resp_requestId (KiteResponse 7 (Some (5::nat))) = requestId (objs (fs sample_returned) 0)"
  by (rule response_matches_request [OF sample_returned_reachable]) (simp add: sample_returned_def)

text \<open>
  The promise protocol is never violated: in every reachable state any response can be
  delivered without \<open>set_value\<close> throwing, and a call that has created its future can register
  it and retrieve it without \<open>get_future\<close> throwing.
\<close>

lemma promise_never_throws:
  assumes "calls_reachable pick s"
  shows "(\<exists>f. receiveResponse r (fs s) = Inr f) \<and>
    (pc s n = Created \<longrightarrow> (\<exists>f. get_future n (ResponseFutureUsed n (fs s)) = Inr f))"
proof -
  have inv: "calls_inv s" by (rule reachable_inv [OF assms])
  then have "\<exists>f. receiveResponse r (fs s) = Inr f" by (simp add: receive_inv_eq)
  moreover have "\<exists>f. get_future n (ResponseFutureUsed n (fs s)) = Inr f" if "pc s n = Created"
    using calls_invD(6) [OF inv, of n] that by (simp add: get_future_def used_eq)
  ultimately show ?thesis by blast
qed

lemma promise_never_throws_witness:
  "(\<exists>f. receiveResponse (KiteResponse 7 None) (fs sample_created) = Inr f) \<and>
   (\<exists>f. get_future 0 (ResponseFutureUsed 0 (fs sample_created)) = Inr f)"
  using promise_never_throws [OF sample_created_reachable, of "KiteResponse 7 None" 0]
  by (simp add: sample_created_def)



text \<open>
  C16: if no two calls in progress share a request id, a response that arrives while its call is
  waiting reaches it: after \<open>receiveResponse\<close> the future of that call holds the response, and the
  future of no other call changes.
\<close>

theorem response_reaches_call:
  assumes "calls_reachable pick s" and "unique_pick pick"
    and "pc s n = Waiting" and "fvalue (objs (fs s) n) = None"
    and "resp_requestId r = requestId (objs (fs s) n)"
  shows "\<exists>f. receiveResponse r (fs s) = Inr f \<and> fvalue (objs f n) = Some r \<and>
    (\<forall>m. m \<noteq> n \<longrightarrow> objs f m = objs (fs s) m)"
proof -
  have inv: "calls_inv s" and u: "unique_inv s"
    using assms(1,2) by (auto intro: reachable_inv reachable_unique)
  have "futureMap (fs s) (resp_requestId r) = Some n"
    using u assms(3-5) by (simp add: unique_inv_def in_flight_def)
  then show ?thesis by (simp add: receive_inv_eq [OF inv])
qed

lemma response_reaches_call_witness:
  "\<exists>f. receiveResponse (KiteResponse 7 (Some 5)) (fs sample_waiting) = Inr f \<and>
     fvalue (objs f 0) = Some (KiteResponse 7 (Some 5)) \<and>
     (\<forall>m. m \<noteq> 0 \<longrightarrow> objs f m = objs (fs sample_waiting) m)"
  by (rule response_reaches_call [OF sample_waiting_reachable fresh_pick_unique])
    (simp_all add: sample_calls_defs)

end
