(* ===== verification/Atomics.thy ===== *)
theory Atomics
  imports Prelude
begin

text \<open>
  \<^verbatim>\<open>commons/AtomicInteger.hpp\<close>, \<^verbatim>\<open>commons/Counter.hpp\<close> and \<^verbatim>\<open>commons/KiteStats\<close>: cells
  guarded by a mutex.  Every method runs under the cell's lock, so it is one step on the
  value; only \<open>getCountChange\<close> takes and releases the lock more than once, and is modelled as
  the separate steps it consists of, with what other threads do in between.

  Arithmetic on the cells is two's complement: at the flags of \<open>Makefile.in\<close> the compiler
  emits plain machine additions.
\<close>

section \<open>Atomic\<close>

record 'a atomic =
  val :: 'a

definition Atomic :: "'a \<Rightarrow> 'a atomic" where
  "Atomic v = \<lparr>val = v\<rparr>"

definition atomic_set :: "'a \<Rightarrow> 'a atomic \<Rightarrow> 'a atomic" where
  "atomic_set v a = a\<lparr>val := v\<rparr>"

definition atomic_get :: "'a atomic \<Rightarrow> 'a" where
  "atomic_get a = val a"

definition updateTo :: "'a \<Rightarrow> 'a atomic \<Rightarrow> bool \<times> 'a atomic" where
  "updateTo update a = (if val a \<noteq> update then (True, a\<lparr>val := update\<rparr>) else (False, a))"

definition atomic_compareAndSet :: "'a \<Rightarrow> 'a \<Rightarrow> 'a atomic \<Rightarrow> bool \<times> 'a atomic" where
  "atomic_compareAndSet expect update a =
     (if val a = expect then (True, a\<lparr>val := update\<rparr>) else (False, a))"

definition getAndSet :: "'a \<Rightarrow> 'a atomic \<Rightarrow> 'a \<times> 'a atomic" where
  "getAndSet update a = (let tmp = val a in (tmp, a\<lparr>val := update\<rparr>))"

section \<open>AtomicInteger\<close>

definition MAX_VALUE :: int32 where "MAX_VALUE = 0x7FFFFFFF"

definition AtomicInteger :: "int32 \<Rightarrow> int32 atomic" where
  "AtomicInteger v = Atomic v"

definition ai_eq :: "int32 \<Rightarrow> int32 atomic \<Rightarrow> bool" where
  "ai_eq x a \<longleftrightarrow> val a = x"

definition post_inc :: "int32 atomic \<Rightarrow> int32 \<times> int32 atomic" where
  "post_inc a = (val a, a\<lparr>val := val a + 1\<rparr>)"

definition pre_inc :: "int32 atomic \<Rightarrow> int32 \<times> int32 atomic" where
  "pre_inc a = (let a = a\<lparr>val := val a + 1\<rparr> in (val a, a))"

definition post_dec :: "int32 atomic \<Rightarrow> int32 \<times> int32 atomic" where
  "post_dec a = (val a, a\<lparr>val := val a - 1\<rparr>)"

definition pre_dec :: "int32 atomic \<Rightarrow> int32 \<times> int32 atomic" where
  "pre_dec a = (let a = a\<lparr>val := val a - 1\<rparr> in (val a, a))"

definition add_assign :: "int32 \<Rightarrow> int32 atomic \<Rightarrow> int32 atomic" where
  "add_assign delta a = a\<lparr>val := val a + delta\<rparr>"

definition sub_assign :: "int32 \<Rightarrow> int32 atomic \<Rightarrow> int32 atomic" where
  "sub_assign delta a = a\<lparr>val := val a - delta\<rparr>"

definition ai_getAndIncrement :: "int32 atomic \<Rightarrow> int32 \<times> int32 atomic" where
  "ai_getAndIncrement a = (let a = a\<lparr>val := val a + 1\<rparr> in (val a, a))"

text \<open>This overload hides the one of \<open>Atomic\<close>; it returns a value, not whether it succeeded.\<close>

definition ai_compareAndSet :: "int32 \<Rightarrow> int32 \<Rightarrow> int32 atomic \<Rightarrow> int32 \<times> int32 atomic" where
  "ai_compareAndSet oldval newval a =
     (if oldval = val a then (newval, a\<lparr>val := newval\<rparr>) else (oldval, a))"

section \<open>Counter\<close>

record counter =
  count :: int64

definition Counter0 :: counter where
  "Counter0 = \<lparr>count = 0\<rparr>"

definition Counter :: "int64 \<Rightarrow> counter" where
  "Counter c = \<lparr>count = c\<rparr>"

definition inc :: "counter \<Rightarrow> int64 \<times> counter" where
  "inc c = (let c = c\<lparr>count := count c + 1\<rparr> in (count c, c))"

definition getAndIncrement :: "counter \<Rightarrow> int64 \<times> counter" where
  "getAndIncrement c = (let c = c\<lparr>count := count c + 1\<rparr> in (count c, c))"

definition getCount :: "counter \<Rightarrow> int64" where
  "getCount c = count c"

definition setCount :: "int64 \<Rightarrow> counter \<Rightarrow> counter" where
  "setCount n c = c\<lparr>count := n\<rparr>"

definition compareAndSet :: "int64 \<Rightarrow> int64 \<Rightarrow> counter \<Rightarrow> bool \<times> counter" where
  "compareAndSet expval newval c =
     (if count c = expval then (True, c\<lparr>count := newval\<rparr>) else (False, c))"

text \<open>
  \<open>getCountChange\<close>: read, then compare-and-set to 0, until it succeeds.  \<open>env k\<close> is what other
  threads do to the counter between the read and the compare-and-set of attempt \<open>k\<close>.
\<close>

partial_function (option) getCountChange ::
  "(nat \<Rightarrow> counter \<Rightarrow> counter) \<Rightarrow> nat \<Rightarrow> counter \<Rightarrow> (int64 \<times> counter) option" where
  "getCountChange env k c =
     (let n = getCount c;
          (ret, c') = compareAndSet n 0 (env k c)
      in if ret then Some (n, c') else getCountChange env (Suc k) c')"

section \<open>KiteStats\<close>

record kiteStats =
  readCounter :: counter
  writeCounter :: counter

definition KiteStats :: kiteStats where
  "KiteStats = \<lparr>readCounter = Counter0, writeCounter = Counter0\<rparr>"

definition recordRead :: "kiteStats \<Rightarrow> kiteStats" where
  "recordRead s = s\<lparr>readCounter := snd (inc (readCounter s))\<rparr>"

definition recordWrite :: "kiteStats \<Rightarrow> kiteStats" where
  "recordWrite s = s\<lparr>writeCounter := snd (inc (writeCounter s))\<rparr>"

definition stats_start :: "kiteStats \<Rightarrow> kiteStats" where
  "stats_start s = s"

definition stats_close :: "kiteStats \<Rightarrow> kiteStats" where
  "stats_close s = s"

section \<open>The compare-and-set contract\<close>

text \<open>
  The interface the retry loops are written against: a value can be read, stored, and
  replaced when it is still the one that was read.
\<close>

locale cas_cell =
  fixes get :: "'s \<Rightarrow> 'v" and put :: "'v \<Rightarrow> 's \<Rightarrow> 's" and cas :: "'v \<Rightarrow> 'v \<Rightarrow> 's \<Rightarrow> bool \<times> 's"
  assumes get_put: "get (put v s) = v"
    and put_put: "put w (put v s) = put w s"
    and put_get: "put (get s) s = s"
    and cas_eq: "cas e n s = (if get s = e then (True, put n s) else (False, s))"
begin

lemma cas_True_iff [simp]: "fst (cas e n s) \<longleftrightarrow> get s = e"
  by (simp add: cas_eq)

lemma cas_fail: "get s \<noteq> e \<Longrightarrow> cas e n s = (False, s)"
  by (simp add: cas_eq)

lemma cas_current: "cas (get s) n s = (True, put n s)"
  by (simp add: cas_eq)

lemma get_cas: "get (snd (cas e n s)) = (if get s = e then n else get s)"
  by (simp add: cas_eq get_put)

text \<open>Of two threads that read the same value, only one can replace it by another value.\<close>

lemma cas_once:
  assumes "n \<noteq> e" and "cas e n s = (True, s')"
  shows "\<not> fst (cas e m s')"
  using assms by (auto simp: cas_eq get_put split: if_splits)

text \<open>Equal values mean equal cells: the value is the whole state.\<close>

lemma get_inject: "put v s = put v t \<Longrightarrow> get s = get t \<Longrightarrow> s = t"
  by (metis put_get put_put)

end

interpretation atomic_cell: cas_cell atomic_get atomic_set atomic_compareAndSet
  by unfold_locales (auto simp: atomic_get_def atomic_set_def atomic_compareAndSet_def)

interpretation counter_cell: cas_cell getCount setCount compareAndSet
  by unfold_locales (auto simp: getCount_def setCount_def compareAndSet_def)

lemma inc_simps [state_simps]:
  "getCount (snd (inc c)) = getCount c + 1" "fst (inc c) = getCount c + 1"
  "getCount (snd (getAndIncrement c)) = getCount c + 1" "fst (getAndIncrement c) = getCount c + 1"
  by (simp_all add: inc_def getAndIncrement_def getCount_def Let_def)

section \<open>Harvesting a counter under concurrency\<close>

text \<open>
  Several threads call \<open>inc\<close> and \<open>getCountChange\<close> on one counter.  A thread in
  \<open>getCountChange\<close> is at the top of the loop or holds the value it read.  The two totals are
  history variables: what all returned calls of \<open>getCountChange\<close> sum to, and how often the
  counter was incremented.
\<close>

datatype harvest_pc = Outside | LoopTop | HaveRead int64

record harvest_sys =
  hcell :: counter
  hpcs :: "nat \<Rightarrow> harvest_pc"
  harvested :: int64
  incremented :: int64

definition harvest_init :: harvest_sys where
  "harvest_init = \<lparr>hcell = Counter0, hpcs = (\<lambda>_. Outside), harvested = 0, incremented = 0\<rparr>"

inductive harvest_step :: "harvest_sys \<Rightarrow> harvest_sys \<Rightarrow> bool" where
  h_inc: "hpcs s t = Outside \<Longrightarrow>
    harvest_step s (s\<lparr>hcell := snd (inc (hcell s)), incremented := incremented s + 1\<rparr>)"
| h_enter: "hpcs s t = Outside \<Longrightarrow> harvest_step s (s\<lparr>hpcs := (hpcs s)(t := LoopTop)\<rparr>)"
| h_read: "hpcs s t = LoopTop \<Longrightarrow>
    harvest_step s (s\<lparr>hpcs := (hpcs s)(t := HaveRead (getCount (hcell s)))\<rparr>)"
| h_cas_ok: "hpcs s t = HaveRead n \<Longrightarrow> compareAndSet n 0 (hcell s) = (True, c') \<Longrightarrow>
    harvest_step s (s\<lparr>hcell := c', hpcs := (hpcs s)(t := Outside), harvested := harvested s + n\<rparr>)"
| h_cas_fail: "hpcs s t = HaveRead n \<Longrightarrow> compareAndSet n 0 (hcell s) = (False, c') \<Longrightarrow>
    harvest_step s (s\<lparr>hcell := c', hpcs := (hpcs s)(t := LoopTop)\<rparr>)"

inductive harvest_reachable :: "harvest_sys \<Rightarrow> bool" where
  hr_init: "harvest_reachable harvest_init"
| hr_step: "harvest_reachable s \<Longrightarrow> harvest_step s s' \<Longrightarrow> harvest_reachable s'"

inductive_cases harvest_stepE: "harvest_step s s'"

definition harvest_inv :: "harvest_sys \<Rightarrow> bool" where
  "harvest_inv s \<longleftrightarrow> harvested s + getCount (hcell s) = incremented s"

lemma harvest_step_inv: "harvest_step s s' \<Longrightarrow> harvest_inv s \<Longrightarrow> harvest_inv s'"
  by (erule harvest_stepE)
    (auto simp: harvest_inv_def state_simps counter_cell.cas_eq counter_cell.get_put split: if_splits)

section \<open>Properties\<close>

text \<open>
  C27: no increment is lost or counted twice.  In every interleaving of \<open>inc\<close> and
  \<open>getCountChange\<close> calls of any number of threads, the values the finished \<open>getCountChange\<close>
  calls returned, plus what is still in the counter, add up to the number of increments (in
  the counter's 64-bit arithmetic).
\<close>

theorem harvest_conserves:
  assumes "harvest_reachable s"
  shows "harvested s + getCount (hcell s) = incremented s"
proof -
  from assms have "harvest_inv s"
  proof (induction rule: harvest_reachable.induct)
    case hr_init
    show ?case by (simp add: harvest_inv_def harvest_init_def getCount_def Counter0_def)
  next
    case (hr_step s s')
    then show ?case by (blast intro: harvest_step_inv)
  qed
  then show ?thesis by (simp add: harvest_inv_def)
qed

definition harvest_sample :: harvest_sys where
  "harvest_sample = \<lparr>hcell = Counter 1, hpcs = (\<lambda>_. Outside), harvested = 0, incremented = 1\<rparr>"

theorem harvest_conserves_witness:
  "harvested harvest_sample + getCount (hcell harvest_sample) = incremented harvest_sample"
proof (rule harvest_conserves)
  have "harvest_step harvest_init harvest_sample"
    using harvest_step.h_inc [of harvest_init 0]
    by (simp add: harvest_init_def harvest_sample_def inc_def Counter0_def Counter_def Let_def)
  then show "harvest_reachable harvest_sample"
    by (rule harvest_reachable.hr_step [OF harvest_reachable.hr_init])
qed

text \<open>
  \<open>getCountChange\<close> returns as soon as one attempt runs without interference, whatever other
  threads did during the earlier attempts, and leaves the counter at 0.
\<close>

lemma getCountChange_returns:
  assumes "start \<le> k" and "\<And>c. getCount (env k c) = getCount c"
  shows "\<exists>n c'. getCountChange env start c = Some (n, c') \<and> getCount c' = 0"
  using assms(1)
proof (induction "k - start" arbitrary: start c)
  case 0
  then have "start = k" by simp
  then have "compareAndSet (getCount c) 0 (env start c) = (True, setCount 0 (env start c))"
    using assms(2) [of c] counter_cell.cas_current [of "env k c" 0] by simp
  then show ?case
    by (subst getCountChange.simps) (simp add: counter_cell.get_put)
next
  case (Suc d)
  let ?r = "compareAndSet (getCount c) 0 (env start c)"
  show ?case
  proof (cases "fst ?r")
    case True
    then show ?thesis
      by (subst getCountChange.simps)
        (auto simp: counter_cell.cas_eq counter_cell.get_put split: if_splits)
  next
    case False
    then have "getCountChange env start c = getCountChange env (Suc start) (snd ?r)"
      by (subst getCountChange.simps) (simp add: case_prod_unfold Let_def)
    moreover have "\<exists>n c'. getCountChange env (Suc start) (snd ?r) = Some (n, c') \<and> getCount c' = 0"
      using Suc.hyps(2) Suc.prems by (intro Suc.hyps(1)) auto
    ultimately show ?thesis by simp
  qed
qed

end
