(* ===== verification/HostPorts.thy ===== *)
theory HostPorts
  imports Prelude
begin

text \<open>
  \<^verbatim>\<open>commons/HostPort.hpp\<close>: the address of a server, parsed from \<open>host:port\<close>.  The splitter of
  boost's string algorithms is an argument; \<open>splits\<close> states its documented behaviour (every
  separator ends a part, adjacent separators are not merged).
\<close>

record hostPort =
  host :: string
  port :: string

definition HostPort :: "string \<Rightarrow> string \<Rightarrow> hostPort" where
  "HostPort h p = \<lparr>host = h, port = p\<rparr>"

definition getHost :: "hostPort \<Rightarrow> string" where
  "getHost a = host a"

definition setHost :: "string \<Rightarrow> hostPort \<Rightarrow> hostPort" where
  "setHost h a = a\<lparr>host := h\<rparr>"

definition getPort :: "hostPort \<Rightarrow> string" where
  "getPort a = port a"

definition setPort :: "string \<Rightarrow> hostPort \<Rightarrow> hostPort" where
  "setPort p a = a\<lparr>port := p\<rparr>"

text \<open>\<open>ping\<close> has an empty body, so it never throws and \<open>isAvailable\<close> never takes its handler.\<close>

definition ping :: "hostPort \<Rightarrow> bool" where
  "ping a = True"

definition isAvailable :: "hostPort \<Rightarrow> bool" where
  "isAvailable a = (if ping a then True else False)"

type_synonym splitter = "(char \<Rightarrow> bool) \<Rightarrow> string \<Rightarrow> string list"

definition splits :: "splitter \<Rightarrow> bool" where
  "splits sp \<longleftrightarrow> (\<forall>P. sp P [] = [[]]) \<and>
     (\<forall>P c cs. sp P (c # cs) = (if P c then [] # sp P cs else (c # hd (sp P cs)) # tl (sp P cs)))"

definition parse :: "splitter \<Rightarrow> string \<Rightarrow> hostPort option" where
  "parse sp hostport =
     (let parts = sp (\<lambda>c. c = CHR '':'') hostport
      in if length parts \<noteq> 2 then None
         else let h = (if hd parts \<noteq> [] then hd parts else ''127.0.0.1'');
                  p = (if last parts \<noteq> [] then last parts else ''13800'')
              in Some (HostPort h p))"

definition toString :: "hostPort \<Rightarrow> string" where
  "toString a = host a @ '':'' @ port a"

section \<open>Splitting\<close>

locale splitting =
  fixes sp :: splitter
  assumes ok: "splits sp"
begin

lemma sp_Nil [simp]: "sp P [] = [[]]"
  using ok by (simp add: splits_def)

lemma sp_Cons: "sp P (c # cs) = (if P c then [] # sp P cs else (c # hd (sp P cs)) # tl (sp P cs))"
  using ok by (simp add: splits_def)

lemma sp_nonempty [simp]: "sp P cs \<noteq> []"
  by (cases cs) (simp_all add: sp_Cons)

text \<open>One part more than there are separators.\<close>

lemma length_sp: "length (sp P cs) = Suc (length (filter P cs))"
  by (induction cs) (simp_all add: sp_Cons)

lemma sp_none: "\<forall>c\<in>set cs. \<not> P c \<Longrightarrow> sp P cs = [cs]"
  by (induction cs) (simp_all add: sp_Cons)

lemma sp_first: "\<forall>c\<in>set h. \<not> P c \<Longrightarrow> P s \<Longrightarrow> sp P (h @ s # t) = h # sp P t"
  by (induction h) (simp_all add: sp_Cons)

lemma hd_sp_no_sep: "c \<in> set (hd (sp P cs)) \<Longrightarrow> \<not> P c"
  by (induction cs) (auto simp: sp_Cons split: if_splits)

lemma parse_two:
  assumes "CHR '':'' \<notin> set h" and "CHR '':'' \<notin> set p"
  shows "parse sp (h @ '':'' @ p) =
    Some (HostPort (if h \<noteq> [] then h else ''127.0.0.1'') (if p \<noteq> [] then p else ''13800''))"
proof -
  have "sp (\<lambda>c. c = CHR '':'') (h @ CHR '':'' # p) = [h, p]"
    using assms by (subst sp_first) (auto intro: sp_none)
  then show ?thesis by (simp add: parse_def Let_def)
qed

lemma parse_None_iff: "parse sp s = None \<longleftrightarrow> length (filter (\<lambda>c. c = CHR '':'') s) \<noteq> 1"
  by (auto simp: parse_def length_sp Let_def)

end

text \<open>An executable splitter with that behaviour.\<close>

fun split_at :: splitter where
  "split_at P [] = [[]]"
| "split_at P (c # cs) = (if P c then [] # split_at P cs else (c # hd (split_at P cs)) # tl (split_at P cs))"

lemma split_at_splits: "splits split_at"
  by (simp add: splits_def)

interpretation std_split: splitting split_at
  by unfold_locales (rule split_at_splits)

section \<open>Properties\<close>

text \<open>
  An address written by \<open>toString\<close> is read back by \<open>parse\<close>, for every host and port that are
  not empty and contain no colon.
\<close>

lemma hostPort_roundtrip:
  assumes "splits sp" and "host a \<noteq> []" and "port a \<noteq> []"
    and "CHR '':'' \<notin> set (host a)" and "CHR '':'' \<notin> set (port a)"
  shows "parse sp (toString a) = Some a"
proof -
  have "splitting sp" using assms(1) by (rule splitting.intro)
  from splitting.parse_two [OF this assms(4,5)] assms(2,3) show ?thesis
    by (simp add: toString_def HostPort_def)
qed

text \<open>
  \<open>parse\<close> returns a null pointer exactly when the text does not contain exactly one colon; in
  every other case it returns an address with a non-empty host and a non-empty port, the
  defaults 127.0.0.1 and 13800 standing in for empty ones.
\<close>

lemma parse_null_iff:
  assumes "splits sp"
  shows "case parse sp s of
      None \<Rightarrow> length (filter (\<lambda>c. c = CHR '':'') s) \<noteq> 1
    | Some a \<Rightarrow> length (filter (\<lambda>c. c = CHR '':'') s) = 1 \<and> host a \<noteq> [] \<and> port a \<noteq> [] \<and>
        (\<exists>h p. s = h @ '':'' @ p \<and> host a = (if h \<noteq> [] then h else ''127.0.0.1'') \<and>
          port a = (if p \<noteq> [] then p else ''13800''))"
proof (cases "parse sp s")
  case None
  have "splitting sp" using assms by (rule splitting.intro)
  then have "length (filter (\<lambda>c. c = CHR '':'') s) \<noteq> 1"
    using splitting.parse_None_iff [of sp s] None by blast
  then show ?thesis by (simp only: None option.case simp_thms)
next
  case (Some a)
  have sp: "splitting sp" using assms by (rule splitting.intro)
  have one: "length (filter (\<lambda>c. c = CHR '':'') s) = 1"
    using splitting.parse_None_iff [OF sp, of s] Some by auto
  then have "filter (\<lambda>c. c = CHR '':'') s \<noteq> []" by auto
  then have "CHR '':'' \<in> set s" by (simp only: filter_empty_conv) blast
  then obtain h p where s: "s = h @ CHR '':'' # p" and h: "CHR '':'' \<notin> set h"
    by (meson split_list_first)
  have p: "CHR '':'' \<notin> set p"
    using one s by (auto simp: filter_empty_conv)
  from splitting.parse_two [OF sp h p] Some s
  have "a = HostPort (if h \<noteq> [] then h else ''127.0.0.1'') (if p \<noteq> [] then p else ''13800'')" by simp
  with Some one s show ?thesis by (auto simp: HostPort_def)
qed

end
