(* ===== verification/IOClient.thy ===== *)
theory IOClient
  imports Session Futures Atomics HostPorts
begin

text \<open>
  \<^verbatim>\<open>remoting/asioKiteIOClient.cpp\<close> and \<^verbatim>\<open>remoting/inc/asioKiteIOClient.h\<close>: the client.  Its
  handlers run on the one I/O thread; its operations run on caller threads and wait, in sleeps
  and for futures, while the I/O thread goes on.  What happens meanwhile is an argument
  (\<open>env\<close>) of the operation, a function on the state.

  An operation that leaves defined behaviour, throws or does not return yields a \<open>fault\<close>.
\<close>

section \<open>State\<close>

datatype STATE = NONE | PREPARE | RUNNING | RECONNECTING | RECOVERING | STOP

fun state_code :: "STATE \<Rightarrow> int64" where
  "state_code NONE = 0"
| "state_code PREPARE = 1"
| "state_code RUNNING = 2"
| "state_code RECONNECTING = 3"
| "state_code RECOVERING = 4"
| "state_code STOP = 5"

lemma state_code_inject [simp]: "state_code a = state_code b \<longleftrightarrow> a = b"
  by (cases a; cases b) simp_all

instantiation STATE :: linorder
begin

definition less_eq_STATE :: "STATE \<Rightarrow> STATE \<Rightarrow> bool" where
  "less_eq_STATE a b \<longleftrightarrow> state_code a \<le> state_code b"

definition less_STATE :: "STATE \<Rightarrow> STATE \<Rightarrow> bool" where
  "less_STATE a b \<longleftrightarrow> state_code a < state_code b"

instance
proof
  fix a b c :: STATE
  show "a < b \<longleftrightarrow> a \<le> b \<and> \<not> b \<le> a"
    by (simp add: less_eq_STATE_def less_STATE_def less_le_not_le)
  show "a \<le> a" by (simp add: less_eq_STATE_def)
  show "a \<le> b \<Longrightarrow> b \<le> c \<Longrightarrow> a \<le> c" by (simp add: less_eq_STATE_def)
  show "a \<le> b \<Longrightarrow> b \<le> a \<Longrightarrow> a = b" by (simp add: less_eq_STATE_def flip: state_code_inject)
  show "a \<le> b \<or> b \<le> a" by (auto simp: less_eq_STATE_def)
qed

end

datatype fault = Null_dereference | Promise_error future_error | Out_of_bounds | Not_returning

text \<open>What a listener is called with.\<close>

datatype 'm listener_event =
    TxAckReceived int32 "'m option"
  | BytesMessageReceived int32 "'m option"
  | StringMessageReceived int32 "'m option"

record heartbeat =
  stopCount :: counter
  nextHeartbeatTime :: counter
  hb_threads :: nat

record ('m, 'l) client =
  status :: counter
  hb :: heartbeat
  stats :: kiteStats
  resp_futures :: "'m futures"
  listener_mgr :: "'l listenerManager"
  sess :: "'m session"
  host_port :: "hostPort option"
  groupId :: string
  secretKey :: string
  serverUrl :: string
  acceptedTopics :: "string concurrentSet"
  resolving :: nat
  connecting :: bool
  written :: "byte list list"
  events :: "('l \<times> 'm listener_event) list"
  next_obj :: nat

definition Heartbeat :: heartbeat where
  "Heartbeat = \<lparr>stopCount = Counter0, nextHeartbeatTime = Counter0, hb_threads = 0\<rparr>"

text \<open>
  The constructor: \<open>is_any_of\<close> gets a backslash and a question mark.  \<open>resp_futures\<close> and
  \<open>listener_mgr\<close> are static, so they come from outside.
\<close>

definition asioKiteIOClient ::
  "splitter \<Rightarrow> header_ctors \<Rightarrow> byte list \<Rightarrow> 'm futures \<Rightarrow> 'l listenerManager \<Rightarrow> kiteStats \<Rightarrow>
     string \<Rightarrow> string \<Rightarrow> string \<Rightarrow> ('m, 'l) client" where
  "asioKiteIOClient sp H garbage fut lm ks gid skey surl =
     (let parts = sp (\<lambda>c. c = CHR 0x5C \<or> c = CHR ''?'') surl
      in \<lparr>status = Counter (state_code NONE), hb = Heartbeat, stats = ks, resp_futures = fut,
         listener_mgr = lm, sess = asioSession garbage (KitePacket_default H),
         host_port = parse sp (hd parts), groupId = gid, secretKey = skey, serverUrl = surl,
         acceptedTopics = ConcurrentSet, resolving = 0, connecting = False, written = [],
         events = [], next_obj = 0\<rparr>)"

definition getStatus :: "('m, 'l) client \<Rightarrow> counter" where
  "getStatus c = status c"

definition getServerUrl :: "('m, 'l) client \<Rightarrow> string" where
  "getServerUrl c = serverUrl c"

definition getAcceptedTopics :: "('m, 'l) client \<Rightarrow> string concurrentSet" where
  "getAcceptedTopics c = acceptedTopics c"

definition in_state :: "STATE \<Rightarrow> ('m, 'l) client \<Rightarrow> bool" where
  "in_state st c \<longleftrightarrow> getCount (status c) = state_code st"

definition set_status :: "STATE \<Rightarrow> ('m, 'l) client \<Rightarrow> ('m, 'l) client" where
  "set_status st c = c\<lparr>status := setCount (state_code st) (status c)\<rparr>"

section \<open>Heartbeat\<close>

text \<open>
  \<open>setNextHeartbeatTime\<close> calls itself again when its compare-and-set fails; \<open>env k\<close> is what
  other threads do to the cell between the read and the compare-and-set of attempt \<open>k\<close>.
\<close>

partial_function (option) setNextHeartbeatTime ::
  "(nat \<Rightarrow> counter \<Rightarrow> counter) \<Rightarrow> nat \<Rightarrow> int64 \<Rightarrow> counter \<Rightarrow> counter option" where
  "setNextHeartbeatTime env k time c =
     (let next = getCount c in
      if next <s time
      then (let (ret, c') = compareAndSet next time (env k c)
            in if ret then Some c' else setNextHeartbeatTime env (Suc k) time c')
      else Some c)"

definition hb_reset :: "heartbeat \<Rightarrow> heartbeat" where
  "hb_reset h = h\<lparr>stopCount := setCount 0 (stopCount h)\<rparr>"

definition hb_start :: "heartbeat \<Rightarrow> heartbeat" where
  "hb_start h = h\<lparr>hb_threads := Suc (hb_threads h)\<rparr>"

definition hb_stop :: "heartbeat \<Rightarrow> heartbeat" where
  "hb_stop h = h\<lparr>hb_threads := 0\<rparr>"

definition hb_isDead :: "heartbeat \<Rightarrow> bool" where
  "hb_isDead h \<longleftrightarrow> 5 \<le>s getCount (stopCount h)"

definition isDead :: "('m, 'l) client \<Rightarrow> bool" where
  "isDead c = hb_isDead (hb c)"

definition client_reset :: "('m, 'l) client \<Rightarrow> ('m, 'l) client" where
  "client_reset c = c\<lparr>hb := hb_reset (hb c)\<rparr>"

section \<open>Handlers on the I/O thread\<close>

definition handle_resolve :: "error_code \<Rightarrow> ('m, 'l) client \<Rightarrow> ('m, 'l) client" where
  "handle_resolve err c = (if err = None then c\<lparr>connecting := True\<rparr> else c)"

definition handle_connect :: "error_code \<Rightarrow> ('m, 'l) client \<Rightarrow> ('m, 'l) client" where
  "handle_connect err c =
     (if err = None
      then (let c = set_status RECOVERING c in c\<lparr>sess := async_read (sess c)\<rparr>)
      else c)"

definition handle_write_request :: "error_code \<Rightarrow> nat \<Rightarrow> ('m, 'l) client \<Rightarrow> ('m, 'l) client" where
  "handle_write_request err n c = (if err = None then c\<lparr>stats := recordWrite (stats c)\<rparr> else c)"

definition notify :: "string \<Rightarrow> 'm listener_event \<Rightarrow> ('m, 'l) client \<Rightarrow> ('m, 'l) client" where
  "notify addr ev c = c\<lparr>events := events c @ [(getListener addr (listener_mgr c), ev)]\<rparr>"

text \<open>The body of \<open>handle_read_pkg\<close> between the statistics and the next \<open>async_read\<close>.\<close>

definition dispatch :: "'m kitePacket \<Rightarrow> ('m, 'l) client \<Rightarrow> fault + ('m, 'l) client" where
  "dispatch p c =
     (let cmd = cmdType (hd_of p); o' = opaque (hd_of p) in
      if cmd = CMD_CONN_AUTH \<or> cmd = CMD_MESSAGE_STORE_ACK \<or> cmd = CMD_HEARTBEAT
      then (let c = client_reset c in
            case receiveResponse (KiteResponse o' (getMessage p)) (resp_futures c) of
              Inl e \<Rightarrow> Inl (Promise_error e)
            | Inr f \<Rightarrow> Inr (c\<lparr>resp_futures := f\<rparr>))
      else (case host_port c of
              None \<Rightarrow> Inl Null_dereference
            | Some a \<Rightarrow>
                (let addr = toString a in
                 if cmd = CMD_TX_ACK then Inr (notify addr (TxAckReceived o' (getMessage p)) c)
                 else if cmd = CMD_BYTES_MESSAGE then Inr (notify addr (BytesMessageReceived o' (getMessage p)) c)
                 else if cmd = CMD_STRING_MESSAGE then Inr (notify addr (StringMessageReceived o' (getMessage p)) c)
                 else Inr c)))"

definition handle_read_pkg ::
  "error_code \<Rightarrow> int \<Rightarrow> ('m, 'l) client \<Rightarrow> fault + ('m, 'l) client" where
  "handle_read_pkg err n c =
     (if err = None
      then (case dispatch (rpkg (sess c)) (c\<lparr>stats := recordRead (stats c)\<rparr>) of
              Inl e \<Rightarrow> Inl e
            | Inr c \<Rightarrow> Inr (c\<lparr>sess := async_read (sess c)\<rparr>))
      else Inr c)"

section \<open>Sending\<close>

text \<open>
  Every sending operation builds its packet as a local variable and starts an asynchronous write.
  \<open>cmdType\<close> is an \<open>int\<close> converted to \<open>char\<close>.
\<close>

definition start_write ::
  "vector_impl \<Rightarrow> 'm msg_rt \<Rightarrow> 'm kitePacket \<Rightarrow> ('m, 'l) client \<Rightarrow> fault + ('m, 'l) client" where
  "start_write V R p c =
     (case async_write V R p of
        None \<Rightarrow> Inl Not_returning
      | Some None \<Rightarrow> Inl Out_of_bounds
      | Some (Some (None, p')) \<Rightarrow> Inr c
      | Some (Some (Some bs, p')) \<Rightarrow> Inr (c\<lparr>written := written c @ [bs]\<rparr>))"

definition send ::
  "vector_impl \<Rightarrow> 'm msg_rt \<Rightarrow> header_ctors \<Rightarrow> int \<Rightarrow> 'm option \<Rightarrow> ('m, 'l) client \<Rightarrow>
     fault + ('m, 'l) client" where
  "send V R H cmdType' m c = start_write V R (KitePacket_cmd H (word_of_int cmdType') m) c"

definition sendAck ::
  "vector_impl \<Rightarrow> 'm msg_rt \<Rightarrow> header_ctors \<Rightarrow> int32 \<Rightarrow> int \<Rightarrow> 'm option \<Rightarrow> ('m, 'l) client \<Rightarrow>
     fault + ('m, 'l) client" where
  "sendAck V R H o' cmdType' m c = start_write V R (KitePacket_opaque H o' (word_of_int cmdType') m) c"

text \<open>
  The three operations that wait for a response differ in the timeout (1000 ms, for
  \<open>sendConnAndGet\<close> 3000 ms) and in the type the message is cast to, without a check.
  \<open>others\<close> is everything other threads do: until the wait ends (\<open>wait\<close>), between a timeout
  and the erasure (\<open>late\<close>), and at the compare-and-set of the heartbeat time (\<open>hbenv\<close>).  An
  exception thrown after the write is caught and gives a null pointer.
\<close>

record ('m, 'l) others =
  wait :: "('m, 'l) client \<Rightarrow> ('m, 'l) client"
  late :: "'m futures \<Rightarrow> 'm futures"
  hbenv :: "nat \<Rightarrow> counter \<Rightarrow> counter"
  now_after :: int64

definition register_future :: "int32 \<Rightarrow> ('m, 'l) client \<Rightarrow> ('m, 'l) client" where
  "register_future i c =
     (let n = next_obj c
      in c\<lparr>resp_futures := ResponseFutureUsed n (new_future n i (resp_futures c)), next_obj := Suc n\<rparr>)"

definition await_response ::
  "('m, 'l) others \<Rightarrow> nat \<Rightarrow> ('m, 'l) client \<Rightarrow> fault + ('m option \<times> ('m, 'l) client)" where
  "await_response E n c =
     (case get_future n (resp_futures c) of
        Inl e \<Rightarrow> Inr (None, c)
      | Inr f \<Rightarrow>
          (let c = wait E (c\<lparr>resp_futures := f\<rparr>) in
           case getResponse_timeout n (late E) (resp_futures c) of
             (None, f) \<Rightarrow> Inr (None, c\<lparr>resp_futures := f\<rparr>)
           | (Some r, f) \<Rightarrow>
               (case setNextHeartbeatTime (hbenv E) 0 (now_after E + 3000) (nextHeartbeatTime (hb c)) of
                  None \<Rightarrow> Inl Not_returning
                | Some t \<Rightarrow>
                    Inr (resp_message r, c\<lparr>resp_futures := f, hb := (hb c)\<lparr>nextHeartbeatTime := t\<rparr>\<rparr>))))"

definition send_and_get ::
  "vector_impl \<Rightarrow> 'm msg_rt \<Rightarrow> header_ctors \<Rightarrow> ('m, 'l) others \<Rightarrow> int \<Rightarrow> 'm option \<Rightarrow> ('m, 'l) client \<Rightarrow>
     fault + ('m option \<times> ('m, 'l) client)" where
  "send_and_get V R H E cmdType' m c =
     (let reqPacket = KitePacket_cmd H (word_of_int cmdType') m; n = next_obj c in
      case start_write V R reqPacket (register_future (opaque (hd_of reqPacket)) c) of
        Inl e \<Rightarrow> Inl e
      | Inr c \<Rightarrow> await_response E n c)"

definition sendHeartBeatAndGet ::
  "vector_impl \<Rightarrow> 'm msg_rt \<Rightarrow> header_ctors \<Rightarrow> (int \<Rightarrow> ('m, 'l) others) \<Rightarrow> int \<Rightarrow> 'm option \<Rightarrow> ('m, 'l) client \<Rightarrow>
     fault + ('m option \<times> ('m, 'l) client)" where
  "sendHeartBeatAndGet V R H E cmdType' m c = send_and_get V R H (E 1000) cmdType' m c"

definition sendConnAndGet ::
  "vector_impl \<Rightarrow> 'm msg_rt \<Rightarrow> header_ctors \<Rightarrow> (int \<Rightarrow> ('m, 'l) others) \<Rightarrow> int \<Rightarrow> 'm option \<Rightarrow> ('m, 'l) client \<Rightarrow>
     fault + ('m option \<times> ('m, 'l) client)" where
  "sendConnAndGet V R H E cmdType' m c = send_and_get V R H (E 3000) cmdType' m c"

definition sendMessageAndGet ::
  "vector_impl \<Rightarrow> 'm msg_rt \<Rightarrow> header_ctors \<Rightarrow> (int \<Rightarrow> ('m, 'l) others) \<Rightarrow> int \<Rightarrow> 'm option \<Rightarrow> ('m, 'l) client \<Rightarrow>
     fault + ('m option \<times> ('m, 'l) client)" where
  "sendMessageAndGet V R H E cmdType' m c = send_and_get V R H (E 1000) cmdType' m c"

definition client_registerListener :: "'l \<Rightarrow> ('m, 'l) client \<Rightarrow> fault + ('m, 'l) client" where
  "client_registerListener l c =
     (case host_port c of
        None \<Rightarrow> Inl Null_dereference
      | Some a \<Rightarrow> Inr (c\<lparr>listener_mgr := registerListener (toString a) l (listener_mgr c)\<rparr>))"

section \<open>Connecting\<close>

text \<open>
  The messages of the handshake and of the heartbeat, as far as the client uses them:
  \<open>new ConnMeta\<close> with the two strings set, \<open>status()\<close> of a \<open>ConnAuthAck\<close>, \<open>new HeartBeat\<close> with
  the version set, and \<open>version()\<close> of a \<open>HeartBeat\<close>.
\<close>

record 'm client_msgs =
  conn_meta :: "string \<Rightarrow> string \<Rightarrow> 'm"
  ack_status :: "'m \<Rightarrow> bool"
  heart_beat :: "int64 \<Rightarrow> 'm"
  hb_version :: "'m \<Rightarrow> int64"

definition handshake ::
  "vector_impl \<Rightarrow> 'm msg_rt \<Rightarrow> header_ctors \<Rightarrow> 'm client_msgs \<Rightarrow> (int \<Rightarrow> ('m, 'l) others) \<Rightarrow> ('m, 'l) client \<Rightarrow>
     fault + (bool \<times> ('m, 'l) client)" where
  "handshake V R H M E c =
     (case sendConnAndGet V R H E (uint CMD_CONN_META) (Some (conn_meta M (groupId c) (secretKey c))) c of
        Inl e \<Rightarrow> Inl e
      | Inr (None, c) \<Rightarrow> Inr (False, c)
      | Inr (Some ack, c) \<Rightarrow>
          (let success = ack_status M ack
           in Inr (success, if success then set_status RUNNING c else c)))"

text \<open>
  \<open>reconnect0(n)\<close> starts resolving and sleeps \<open>n\<close> seconds; \<open>sleep n\<close> is what happens meanwhile.
\<close>

definition reconnect0 ::
  "(nat \<Rightarrow> ('m, 'l) client \<Rightarrow> ('m, 'l) client) \<Rightarrow> nat \<Rightarrow> ('m, 'l) client \<Rightarrow> fault + ('m, 'l) client" where
  "reconnect0 sleep nretry c =
     (case host_port c of
        None \<Rightarrow> Inl Null_dereference
      | Some a \<Rightarrow> Inr (sleep nretry (c\<lparr>resolving := Suc (resolving c)\<rparr>)))"

function start_loop ::
  "(nat \<Rightarrow> ('m, 'l) client \<Rightarrow> ('m, 'l) client) \<Rightarrow> nat \<Rightarrow> ('m, 'l) client \<Rightarrow> fault + (bool \<times> ('m, 'l) client)" where
  "start_loop sleep nretry c =
     (case reconnect0 sleep (Suc nretry) c of
        Inl e \<Rightarrow> Inl e
      | Inr c' \<Rightarrow>
          if in_state RECOVERING c'
          then Inr (True, c'\<lparr>stats := stats_start (stats c'), hb := hb_start (hb c')\<rparr>)
          else if 10 \<le> Suc nretry \<or> in_state STOP c' then Inr (False, c')
          else start_loop sleep (Suc nretry) c')"
  by pat_completeness auto
termination
  by (relation "measure (\<lambda>(sleep, nretry, c). 10 - nretry)") auto

definition client_start ::
  "(nat \<Rightarrow> ('m, 'l) client \<Rightarrow> ('m, 'l) client) \<Rightarrow> ('m, 'l) client \<Rightarrow> fault + (bool \<times> ('m, 'l) client)" where
  "client_start sleep c =
     (let (ok, s) = compareAndSet (state_code NONE) (state_code PREPARE) (status c) in
      if \<not> ok then Inr (False, c) else start_loop sleep 0 (c\<lparr>status := s\<rparr>))"

function reconnect_loop ::
  "vector_impl \<Rightarrow> 'm msg_rt \<Rightarrow> header_ctors \<Rightarrow> 'm client_msgs \<Rightarrow> (int \<Rightarrow> ('m, 'l) others) \<Rightarrow>
     (nat \<Rightarrow> ('m, 'l) client \<Rightarrow> ('m, 'l) client) \<Rightarrow> nat \<Rightarrow> ('m, 'l) client \<Rightarrow> fault + (bool \<times> ('m, 'l) client)" where
  "reconnect_loop V R H M E sleep nretry c =
     (case reconnect0 sleep (Suc nretry) c of
        Inl e \<Rightarrow> Inl e
      | Inr c' \<Rightarrow>
          if in_state RECOVERING c'
          then (case handshake V R H M E (client_reset c') of
                  Inl e \<Rightarrow> Inl e
                | Inr (ok, c'') \<Rightarrow> Inr (ok, if ok then set_status RUNNING c'' else c''))
          else if 10 \<le> Suc nretry \<or> in_state STOP c' then Inr (False, c')
          else reconnect_loop V R H M E sleep (Suc nretry) c')"
  by pat_completeness auto
termination
  by (relation "measure (\<lambda>(V, R, H, M, E, sleep, nretry, c). 10 - nretry)") auto

declare start_loop.simps [simp del] reconnect_loop.simps [simp del]

definition reconnect ::
  "vector_impl \<Rightarrow> 'm msg_rt \<Rightarrow> header_ctors \<Rightarrow> 'm client_msgs \<Rightarrow> (int \<Rightarrow> ('m, 'l) others) \<Rightarrow>
     (nat \<Rightarrow> ('m, 'l) client \<Rightarrow> ('m, 'l) client) \<Rightarrow> ('m, 'l) client \<Rightarrow> fault + (bool \<times> ('m, 'l) client)" where
  "reconnect V R H M E sleep c =
     (let (ok, s) = compareAndSet (state_code RUNNING) (state_code RECONNECTING) (status c) in
      if \<not> ok then Inr (False, c) else reconnect_loop V R H M E sleep 0 (c\<lparr>status := s\<rparr>))"

definition client_close :: "('m, 'l) client \<Rightarrow> ('m, 'l) client" where
  "client_close c = c\<lparr>sess := (sess c)\<lparr>rop := Idle\<rparr>, hb := hb_stop (hb c)\<rparr>"

section \<open>The heartbeat thread\<close>

text \<open>
  One iteration of \<open>hbThread\<close>, without the final \<open>sleep(1)\<close>; the number is the microseconds of its
  \<open>usleep\<close>, whose argument is an unsigned 32-bit integer.
\<close>

definition hb_iteration ::
  "vector_impl \<Rightarrow> 'm msg_rt \<Rightarrow> header_ctors \<Rightarrow> 'm client_msgs \<Rightarrow> (int \<Rightarrow> ('m, 'l) others) \<Rightarrow> int64 \<Rightarrow>
     ('m, 'l) client \<Rightarrow> fault + (int32 \<times> ('m, 'l) client)" where
  "hb_iteration V R H M E now c =
     (if in_state RUNNING c
      then (let next = getCount (nextHeartbeatTime (hb c)) in
            if next <s now
            then (case sendHeartBeatAndGet V R H E (uint CMD_HEARTBEAT) (Some (heart_beat M now)) c of
                    Inl e \<Rightarrow> Inl e
                  | Inr (resp, c) \<Rightarrow>
                      Inr (0, c\<lparr>hb := (hb c)\<lparr>stopCount :=
                        (if (case resp of None \<Rightarrow> False | Some r \<Rightarrow> hb_version M r = now)
                         then setCount 0 (stopCount (hb c))
                         else snd (inc (stopCount (hb c))))\<rparr>\<rparr>))
            else Inr (ucast ((next - now) * 1000), c))
      else Inr (0, c))"

section \<open>What the operations leave alone\<close>

lemma status_simps [state_simps]:
  "status (set_status st c) = setCount (state_code st) (status c)"
  "status (client_reset c) = status c" "status (register_future i c) = status c"
  "status (notify addr ev c) = status c" "status (handle_resolve e c) = status c"
  "status (handle_write_request e n c) = status c" "status (client_close c) = status c"
  by (simp_all add: set_status_def client_reset_def register_future_def notify_def handle_resolve_def
      handle_write_request_def client_close_def Let_def)

lemma start_write_eq:
  "start_write V R p c = Inr c' \<Longrightarrow> \<exists>w. c' = c\<lparr>written := w\<rparr>"
  by (auto simp: start_write_def split: option.splits prod.splits intro: exI [of _ "written c"])

lemma start_write_status: "start_write V R p c = Inr c' \<Longrightarrow> status c' = status c"
  by (drule start_write_eq) auto

lemma dispatch_status: "dispatch p c = Inr c' \<Longrightarrow> status c' = status c"
  by (auto simp: dispatch_def Let_def state_simps split: if_splits sum.splits option.splits)

lemma read_pkg_status: "handle_read_pkg e n c = Inr c' \<Longrightarrow> status c' = status c"
  by (auto simp: handle_read_pkg_def dest: dispatch_status split: if_splits sum.splits)

lemma register_status: "client_registerListener l c = Inr c' \<Longrightarrow> status c' = status c"
  by (auto simp: client_registerListener_def split: option.splits)

section \<open>Values the status never takes\<close>

text \<open>
  A set of status values that contains those the operations store.  Whatever operation runs,
  with whatever other threads do while it waits, the status stays in the set if the other
  threads keep it there.
\<close>

locale status_set =
  fixes ok :: "int64 \<Rightarrow> bool"
  assumes stored: "ok (state_code PREPARE)" "ok (state_code RUNNING)"
    "ok (state_code RECONNECTING)" "ok (state_code RECOVERING)"
begin

abbreviation good :: "('m, 'l) client \<Rightarrow> bool" where
  "good c \<equiv> ok (getCount (status c))"

abbreviation keeps :: "(('m, 'l) client \<Rightarrow> ('m, 'l) client) \<Rightarrow> bool" where
  "keeps f \<equiv> \<forall>c. good c \<longrightarrow> good (f c)"

lemma good_set_status: "st \<in> {PREPARE, RUNNING, RECONNECTING, RECOVERING} \<Longrightarrow> good (set_status st c)"
  using stored by (auto simp: state_simps counter_cell.get_put)

lemma good_await:
  assumes "await_response E n c = Inr (r, c')" and "keeps (wait E)" and "good c"
  shows "good c'"
proof -
  have "good (wait E (c\<lparr>resp_futures := f\<rparr>))" for f
    using assms(2,3) by simp
  with assms(1,3) show ?thesis
    by (auto simp: await_response_def Let_def split: sum.splits option.splits prod.splits)
qed

lemma good_send_and_get:
  assumes "send_and_get V R H E cmd m c = Inr (r, c')" and "keeps (wait E)" and "good c"
  shows "good c'"
  using assms
  by (auto simp: send_and_get_def Let_def state_simps split: sum.splits
      dest!: start_write_status intro: good_await)

lemma good_handshake:
  assumes "handshake V R H M E c = Inr (b, c')" and "keeps (wait (E 3000))" and "good c"
  shows "good c'"
  using assms good_send_and_get
  by (fastforce simp: handshake_def sendConnAndGet_def Let_def good_set_status
      split: sum.splits option.splits prod.splits if_splits)

lemma good_reconnect0:
  assumes "reconnect0 sleep n c = Inr c'" and "\<forall>n. keeps (sleep n)" and "good c"
  shows "good c'"
  using assms by (auto simp: reconnect0_def split: option.splits)

lemma good_start_loop:
  "start_loop sleep n c = Inr (b, c') \<Longrightarrow> \<forall>n. keeps (sleep n) \<Longrightarrow> good c \<Longrightarrow> good c'"
proof (induction sleep n c rule: start_loop.induct)
  case (1 sleep n c)
  obtain c1 where c1: "reconnect0 sleep (Suc n) c = Inr c1"
    using "1.prems"(1) by (subst (asm) start_loop.simps) (auto split: sum.splits)
  have g: "good c1" by (rule good_reconnect0 [OF c1 "1.prems"(2,3)])
  consider "in_state RECOVERING c1" | "\<not> in_state RECOVERING c1" "10 \<le> Suc n \<or> in_state STOP c1"
    | "\<not> in_state RECOVERING c1" "\<not> (10 \<le> Suc n \<or> in_state STOP c1)" by blast
  then show ?case
  proof cases
    case 3
    then have "start_loop sleep (Suc n) c1 = Inr (b, c')"
      using "1.prems"(1) c1 by (subst (asm) start_loop.simps) simp
    then show ?thesis by (rule "1.IH" [OF c1 3 _ "1.prems"(2) g])
  qed (use "1.prems"(1) c1 g in \<open>auto simp: start_loop.simps [of sleep n c]\<close>)
qed

lemma good_reconnect_loop:
  "reconnect_loop V R H M E sleep n c = Inr (b, c') \<Longrightarrow> \<forall>n. keeps (sleep n) \<Longrightarrow>
   keeps (wait (E 3000)) \<Longrightarrow> good c \<Longrightarrow> good c'"
proof (induction V R H M E sleep n c rule: reconnect_loop.induct)
  case (1 V R H M E sleep n c)
  obtain c1 where c1: "reconnect0 sleep (Suc n) c = Inr c1"
    using "1.prems"(1) by (subst (asm) reconnect_loop.simps) (auto split: sum.splits)
  have g: "good c1" by (rule good_reconnect0 [OF c1 "1.prems"(2,4)])
  consider "in_state RECOVERING c1" | "\<not> in_state RECOVERING c1" "10 \<le> Suc n \<or> in_state STOP c1"
    | "\<not> in_state RECOVERING c1" "\<not> (10 \<le> Suc n \<or> in_state STOP c1)" by blast
  then show ?case
  proof cases
    case 1
    with "1.prems"(1) c1 obtain success c2 where c2: "handshake V R H M E (client_reset c1) = Inr (success, c2)"
      "c' = (if success then set_status RUNNING c2 else c2)"
      by (subst (asm) reconnect_loop.simps) (auto split: sum.splits)
    from c2(1) have "good c2"
      by (rule good_handshake) (use "1.prems"(3) g in \<open>simp_all add: state_simps\<close>)
    with c2(2) show ?thesis by (simp add: good_set_status)
  next
    case 3
    then have "reconnect_loop V R H M E sleep (Suc n) c1 = Inr (b, c')"
      using "1.prems"(1) c1 by (subst (asm) reconnect_loop.simps) simp
    then show ?thesis by (rule "1.IH" [OF c1 3 _ "1.prems"(2,3) g])
  qed (use "1.prems"(1) c1 g in \<open>auto simp: reconnect_loop.simps [of V R H M E sleep n c]\<close>)
qed

lemma good_start:
  assumes "client_start sleep c = Inr (b, c')" and "\<forall>n. keeps (sleep n)" and "good c"
  shows "good c'"
  using assms stored
  by (auto simp: client_start_def counter_cell.cas_eq counter_cell.get_put
      split: if_splits prod.splits elim!: good_start_loop)

lemma good_reconnect:
  assumes "reconnect V R H M E sleep c = Inr (b, c')" and "\<forall>n. keeps (sleep n)"
    and "keeps (wait (E 3000))" and "good c"
  shows "good c'"
  using assms stored
  by (auto simp: reconnect_def counter_cell.cas_eq counter_cell.get_put
      split: if_splits prod.splits elim!: good_reconnect_loop)

lemma good_hb_iteration:
  assumes "hb_iteration V R H M E now c = Inr (u, c')" and "keeps (wait (E 1000))" and "good c"
  shows "good c'"
  using assms
  by (auto simp: hb_iteration_def sendHeartBeatAndGet_def Let_def split: if_splits sum.splits prod.splits
      dest: good_send_and_get)

end

interpretation not_stop: status_set "\<lambda>v. v \<noteq> state_code STOP"
  by unfold_locales simp_all

interpretation left_none: status_set "\<lambda>v. v \<noteq> state_code NONE"
  by unfold_locales simp_all

section \<open>Behaviours of the client\<close>

text \<open>
  What the program can do to a client: its operations, called from any thread, and its
  handlers, in any order; while an operation sleeps or waits, any such behaviour can happen.
  The header constructors are those of the moment, so every packet gets an id of its own.
\<close>

inductive client_run ::
  "vector_impl \<Rightarrow> 'm msg_rt \<Rightarrow> 'm client_msgs \<Rightarrow> ('m, 'l) client \<Rightarrow> ('m, 'l) client \<Rightarrow> bool" for V R M where
  cl_refl: "client_run V R M c c"
| cl_trans: "client_run V R M c c' \<Longrightarrow> client_run V R M c' c'' \<Longrightarrow> client_run V R M c c''"
| cl_session: "client_run V R M c (c\<lparr>sess := s\<rparr>)"
| cl_resolve: "client_run V R M c (handle_resolve e c)"
| cl_connect: "client_run V R M c (handle_connect e c)"
| cl_write: "client_run V R M c (handle_write_request e n c)"
| cl_read: "handle_read_pkg e k c = Inr c' \<Longrightarrow> client_run V R M c c'"
| cl_start: "client_start sleep c = Inr (b, c') \<Longrightarrow> \<forall>k x. client_run V R M x (sleep k x) \<Longrightarrow>
    client_run V R M c c'"
| cl_reconnect: "reconnect V R H M E sleep c = Inr (b, c') \<Longrightarrow> \<forall>k x. client_run V R M x (sleep k x) \<Longrightarrow>
    \<forall>t x. client_run V R M x (wait (E t) x) \<Longrightarrow> client_run V R M c c'"
| cl_handshake: "handshake V R H M E c = Inr (b, c') \<Longrightarrow> \<forall>t x. client_run V R M x (wait (E t) x) \<Longrightarrow>
    client_run V R M c c'"
| cl_send: "send V R H cmd m c = Inr c' \<Longrightarrow> client_run V R M c c'"
| cl_ack: "sendAck V R H o' cmd m c = Inr c' \<Longrightarrow> client_run V R M c c'"
| cl_send_and_get: "send_and_get V R H E0 cmd m c = Inr (r, c') \<Longrightarrow> \<forall>x. client_run V R M x (wait E0 x) \<Longrightarrow>
    client_run V R M c c'"
| cl_heartbeat: "hb_iteration V R H M E now c = Inr (u, c') \<Longrightarrow> \<forall>t x. client_run V R M x (wait (E t) x) \<Longrightarrow>
    client_run V R M c c'"
| cl_register: "client_registerListener l c = Inr c' \<Longrightarrow> client_run V R M c c'"
| cl_close: "client_run V R M c (client_close c)"

lemma handle_connect_status:
  "status (handle_connect e c) = (if e = None then setCount (state_code RECOVERING) (status c) else status c)"
  by (simp add: handle_connect_def set_status_def Let_def)

lemma send_status: "send V R H cmd m c = Inr c' \<Longrightarrow> status c' = status c"
  by (auto simp: send_def dest: start_write_status)

lemma sendAck_status: "sendAck V R H o' cmd m c = Inr c' \<Longrightarrow> status c' = status c"
  by (auto simp: sendAck_def dest: start_write_status)

context status_set begin

lemma good_run: "client_run V R M c c' \<Longrightarrow> good c \<Longrightarrow> good c'"
proof (induction rule: client_run.induct)
  case (cl_connect c e)
  then show ?case using stored by (simp add: handle_connect_status counter_cell.get_put)
next
  case (cl_start sleep c b c')
  show ?case by (rule good_start [OF cl_start(1) _ cl_start(3)]) (use cl_start(2) in blast)
next
  case (cl_reconnect H E sleep c b c')
  show ?case by (rule good_reconnect [OF cl_reconnect(1) _ _ cl_reconnect(4)]) (use cl_reconnect(2,3) in blast)+
next
  case (cl_handshake H E c b c')
  show ?case by (rule good_handshake [OF cl_handshake(1) _ cl_handshake(3)]) (use cl_handshake(2) in blast)
next
  case (cl_send_and_get H E0 cmd m c r c')
  show ?case by (rule good_send_and_get [OF cl_send_and_get(1) _ cl_send_and_get(3)]) (use cl_send_and_get(2) in blast)
next
  case (cl_heartbeat H E now c u c')
  show ?case by (rule good_hb_iteration [OF cl_heartbeat(1) _ cl_heartbeat(3)]) (use cl_heartbeat(2) in blast)
qed (simp_all add: state_simps send_status sendAck_status read_pkg_status register_status)

end

section \<open>Connecting when nobody answers\<close>

definition quiet :: "(nat \<Rightarrow> ('m, 'l) client \<Rightarrow> ('m, 'l) client) \<Rightarrow> bool" where
  "quiet sleep \<longleftrightarrow> (\<forall>k x. status (sleep k x) = status x \<and> host_port (sleep k x) = host_port x \<and>
     resolving (sleep k x) = resolving x)"

lemma reconnect0_quiet:
  assumes "quiet sleep" and "host_port c = Some a"
  shows "\<exists>c'. reconnect0 sleep n c = Inr c' \<and> status c' = status c \<and> host_port c' = Some a \<and>
    resolving c' = Suc (resolving c)"
  using assms by (simp add: reconnect0_def quiet_def)

lemma in_state_cong: "status c = status c' \<Longrightarrow> in_state st c = in_state st c'"
  by (simp add: in_state_def)

lemma start_loop_quiet:
  assumes q: "quiet sleep"
  shows "n < 10 \<Longrightarrow> host_port c = Some a \<Longrightarrow> \<not> in_state RECOVERING c \<Longrightarrow> \<not> in_state STOP c \<Longrightarrow>
    \<exists>c'. start_loop sleep n c = Inr (False, c') \<and> status c' = status c \<and>
      resolving c' = resolving c + (10 - n)"
proof (induction "10 - n" arbitrary: n c)
  case (Suc d)
  obtain c1 where c1: "reconnect0 sleep (Suc n) c = Inr c1" "status c1 = status c"
    "host_port c1 = Some a" "resolving c1 = Suc (resolving c)"
    using reconnect0_quiet [OF q Suc.prems(2)] by blast
  note st = in_state_cong [OF c1(2)]
  show ?case
  proof (cases "10 \<le> Suc n")
    case True
    with c1 st Suc.prems show ?thesis by (auto simp: start_loop.simps [of sleep n c])
  next
    case False
    then have "start_loop sleep n c = start_loop sleep (Suc n) c1"
      using c1 st Suc.prems by (simp add: start_loop.simps [of sleep n c])
    moreover have "\<exists>c'. start_loop sleep (Suc n) c1 = Inr (False, c') \<and> status c' = status c1 \<and>
        resolving c' = resolving c1 + (10 - Suc n)"
      using Suc.hyps(2) Suc.prems c1 st False by (intro Suc.hyps(1)) auto
    ultimately show ?thesis using c1 False by auto
  qed
qed simp

lemma reconnect_loop_quiet:
  assumes q: "quiet sleep"
  shows "n < 10 \<Longrightarrow> host_port c = Some a \<Longrightarrow> \<not> in_state RECOVERING c \<Longrightarrow> \<not> in_state STOP c \<Longrightarrow>
    \<exists>c'. reconnect_loop V R H M E sleep n c = Inr (False, c') \<and> status c' = status c \<and>
      resolving c' = resolving c + (10 - n)"
proof (induction "10 - n" arbitrary: n c)
  case (Suc d)
  obtain c1 where c1: "reconnect0 sleep (Suc n) c = Inr c1" "status c1 = status c"
    "host_port c1 = Some a" "resolving c1 = Suc (resolving c)"
    using reconnect0_quiet [OF q Suc.prems(2)] by blast
  note st = in_state_cong [OF c1(2)]
  show ?case
  proof (cases "10 \<le> Suc n")
    case True
    with c1 st Suc.prems show ?thesis by (auto simp: reconnect_loop.simps [of V R H M E sleep n c])
  next
    case False
    then have "reconnect_loop V R H M E sleep n c = reconnect_loop V R H M E sleep (Suc n) c1"
      using c1 st Suc.prems by (simp add: reconnect_loop.simps [of V R H M E sleep n c])
    moreover have "\<exists>c'. reconnect_loop V R H M E sleep (Suc n) c1 = Inr (False, c') \<and> status c' = status c1 \<and>
        resolving c' = resolving c1 + (10 - Suc n)"
      using Suc.hyps(2) Suc.prems c1 st False by (intro Suc.hyps(1)) auto
    ultimately show ?thesis using c1 False by auto
  qed
qed simp

section \<open>The heartbeat time\<close>

lemma setNext_spec:
  assumes "\<And>k c. getCount c <=s getCount (env k c)"
  shows "\<exists>c'. setNextHeartbeatTime env k time c = Some c' \<and> time <=s getCount c' \<and> getCount c <=s getCount c'"
proof (induction "nat (sint time - sint (getCount c))" arbitrary: k c rule: less_induct)
  case less
  let ?d = "env k c"
  show ?case
  proof (cases "getCount c <s time")
    case False
    then show ?thesis
      by (subst setNextHeartbeatTime.simps) (auto simp: word_sless_alt word_sle_eq)
  next
    case lt: True
    show ?thesis
    proof (cases "getCount ?d = getCount c")
      case True
      with lt show ?thesis
        by (subst setNextHeartbeatTime.simps)
          (auto simp: Let_def counter_cell.cas_eq counter_cell.get_put word_sless_alt word_sle_eq)
    next
      case False
      have le: "getCount c <=s getCount ?d" by (rule assms)
      have "sint (getCount c) \<noteq> sint (getCount ?d)" using False signed_word_eqI by metis
      with le lt have "nat (sint time - sint (getCount ?d)) < nat (sint time - sint (getCount c))"
        by (auto simp: word_sless_alt word_sle_eq)
      from less [OF this, of "Suc k"] obtain c' where c':
        "setNextHeartbeatTime env (Suc k) time ?d = Some c'" "time <=s getCount c'" "getCount ?d <=s getCount c'"
        by blast
      moreover have "setNextHeartbeatTime env k time c = setNextHeartbeatTime env (Suc k) time ?d"
        using lt False by (subst setNextHeartbeatTime.simps) (simp add: Let_def counter_cell.cas_fail)
      ultimately show ?thesis using le by (auto simp: word_sle_eq)
    qed
  qed
qed

section \<open>The I/O thread with the client's handler\<close>

lemma dispatch_sess: "dispatch p c = Inr c' \<Longrightarrow> sess c' = sess c"
  by (auto simp: dispatch_def Let_def client_reset_def notify_def split: if_splits sum.splits option.splits)

lemma handle_read_sess:
  "handle_read_pkg (hc_error h) k c = Inr c' \<Longrightarrow> sess c' = reread (Some h) (sess c)"
  by (auto simp: handle_read_pkg_def reread_def dest!: dispatch_sess split: if_splits sum.splits)

function client_loop ::
  "(nat \<Rightarrow> bool) \<Rightarrow> shl_oob \<Rightarrow> 'm msg_rt \<Rightarrow> error_code \<Rightarrow> ('m, 'l) client \<Rightarrow> byte list \<Rightarrow>
     fault + (('m, 'l) client \<times> byte list)" where
  "client_loop prep oob R closed c inp =
     (case io_step prep oob R closed (sess c) inp of
        Blocked \<Rightarrow> Inr (c, inp)
      | Undefined \<Rightarrow> Inl Out_of_bounds
      | Completed None s' inp' \<Rightarrow> client_loop prep oob R closed (c\<lparr>sess := s'\<rparr>) inp'
      | Completed (Some h) s' inp' \<Rightarrow>
          (case handle_read_pkg (hc_error h) (hc_size h) (c\<lparr>sess := s'\<rparr>) of
             Inl e \<Rightarrow> Inl e
           | Inr c' \<Rightarrow> client_loop prep oob R closed c' inp'))"
  by pat_completeness auto
termination
  by (relation "measure (\<lambda>(prep, oob, R, closed, c, inp). 2 * length inp + op_rank (rop (sess c)))")
    (auto dest!: io_step_rank simp: handle_read_sess)

declare client_loop.simps [simp del]

text \<open>
  What the calls of one run of the session do to the rest of the client.
\<close>

definition on_call :: "'m handler_call \<Rightarrow> ('m, 'l) client \<Rightarrow> fault + ('m, 'l) client" where
  "on_call h c =
     (if hc_error h = None then dispatch (hc_pkg h) (c\<lparr>stats := recordRead (stats c)\<rparr>) else Inr c)"

fun on_calls :: "'m handler_call list \<Rightarrow> ('m, 'l) client \<Rightarrow> fault + ('m, 'l) client" where
  "on_calls [] c = Inr c"
| "on_calls (h # hs) c = (case on_call h c of Inl e \<Rightarrow> Inl e | Inr c' \<Rightarrow> on_calls hs c')"

lemma dispatch_frame:
  "dispatch p (c\<lparr>sess := s\<rparr>) = (case dispatch p c of Inl e \<Rightarrow> Inl e | Inr c' \<Rightarrow> Inr (c'\<lparr>sess := s\<rparr>))"
  by (auto simp: dispatch_def Let_def client_reset_def notify_def split: option.splits sum.splits)

lemma sess_stats: "(c :: ('m, 'l) client)\<lparr>sess := s, stats := k\<rparr> = c\<lparr>stats := k, sess := s\<rparr>"
  by simp

lemma on_call_frame:
  "on_call h (c\<lparr>sess := s\<rparr>) = (case on_call h c of Inl e \<Rightarrow> Inl e | Inr c' \<Rightarrow> Inr (c'\<lparr>sess := s\<rparr>))"
  using dispatch_frame [where p = "hc_pkg h" and c = "c\<lparr>stats := recordRead (stats c)\<rparr>" and s = s] by (simp add: on_call_def sess_stats)

lemma on_calls_frame:
  "on_calls hs (c\<lparr>sess := s\<rparr>) = (case on_calls hs c of Inl e \<Rightarrow> Inl e | Inr c' \<Rightarrow> Inr (c'\<lparr>sess := s\<rparr>))"
proof (induction hs arbitrary: c)
  case (Cons h hs)
  then show ?case using on_call_frame [where h = h and c = c and s = s] by (auto split: sum.splits)
qed simp

lemma io_step_pkg: "io_step prep oob R closed s inp = Completed (Some h) s' inp' \<Longrightarrow> hc_pkg h = rpkg s'"
  by (auto simp: io_step_def async_read_pkglen_def async_read_pkgdata_def Let_def
      split: read_op.splits if_splits option.splits prod.splits bool.splits)

lemma handle_read_on_call:
  assumes "hc_pkg h = rpkg s"
  shows "handle_read_pkg (hc_error h) k (c\<lparr>sess := s\<rparr>) =
    (case on_call h c of Inl e \<Rightarrow> Inl e | Inr c' \<Rightarrow> Inr (c'\<lparr>sess := reread (Some h) s\<rparr>))"
proof (cases "hc_error h = None")
  case True
  have "dispatch (rpkg s) (c\<lparr>sess := s, stats := recordRead (stats c)\<rparr>) =
      (case dispatch (rpkg s) (c\<lparr>stats := recordRead (stats c)\<rparr>) of Inl e \<Rightarrow> Inl e | Inr c' \<Rightarrow> Inr (c'\<lparr>sess := s\<rparr>))"
    unfolding sess_stats using dispatch_frame [where p = "rpkg s" and c = "c\<lparr>stats := recordRead (stats c)\<rparr>" and s = s] by simp
  with True assms show ?thesis
    by (simp add: handle_read_pkg_def on_call_def async_read_def async_setup_read_varint_def split: sum.split)
next
  case False
  then obtain e where "hc_error h = Some e" by auto
  with assms show ?thesis by (simp add: handle_read_pkg_def on_call_def reread_def)
qed

text \<open>
  The client is the session's read loop with the client's handler folded over its calls.
\<close>

lemma client_loop_read_loop:
  "client_loop prep oob R closed c inp =
    (let (hs, e) = read_loop prep oob R closed (sess c) inp in
     case on_calls hs c of
       Inl f \<Rightarrow> Inl f
     | Inr c' \<Rightarrow> (case e of Overrun \<Rightarrow> Inl Out_of_bounds | Stopped s r \<Rightarrow> Inr (c'\<lparr>sess := s\<rparr>, r)))"
proof (induction prep oob R closed c inp rule: client_loop.induct)
  case (1 prep oob R closed c inp)
  show ?case
  proof (cases "io_step prep oob R closed (sess c) inp")
    case Blocked
    then show ?thesis
      by (simp add: client_loop.simps [of prep oob R closed c inp] read_loop_blocked)
  next
    case Undefined
    then show ?thesis
      by (simp add: client_loop.simps [of prep oob R closed c inp] read_loop.simps [of prep oob R closed "sess c" inp])
  next
    case (Completed k s' inp')
    show ?thesis
    proof (cases k)
      case None
      with Completed have "client_loop prep oob R closed c inp = client_loop prep oob R closed (c\<lparr>sess := s'\<rparr>) inp'"
        by (simp add: client_loop.simps [of prep oob R closed c inp])
      with None "1.IH"(1) [OF Completed None] read_loop_step [OF Completed] show ?thesis
        by (auto simp: on_calls_frame split: sum.split prod.split loop_end.split)
    next
      case (Some h)
      note hp = handle_read_on_call [OF io_step_pkg [OF Completed [unfolded Some]], of "hc_size h" c]
      show ?thesis
      proof (cases "on_call h c")
        case (Inl f)
        with Completed Some hp read_loop_step [OF Completed] show ?thesis
          by (simp add: client_loop.simps [of prep oob R closed c inp] split: prod.split)
      next
        case (Inr c1)
        let ?c = "c1\<lparr>sess := reread (Some h) s'\<rparr>"
        have hr: "handle_read_pkg (hc_error h) (hc_size h) (c\<lparr>sess := s'\<rparr>) = Inr ?c"
          using hp Inr by simp
        have "client_loop prep oob R closed c inp = client_loop prep oob R closed ?c inp'"
          using Completed Some hr by (simp add: client_loop.simps [of prep oob R closed c inp])
        with Inr Some "1.IH"(2) [OF Completed Some hr] read_loop_step [OF Completed] show ?thesis
          by (auto simp: on_calls_frame split: sum.split prod.split loop_end.split)
      qed
    qed
  qed
qed

section \<open>Waiting for a response\<close>

lemma start_write_ok:
  assumes "toByteBuf V R p = Some (Some (num, p'))" and "num > 0"
  shows "start_write V R p c = Inr (c\<lparr>written := written c @ [sent_bytes (num, p')]\<rparr>)"
  using assms by (simp add: start_write_def async_write_def)

text \<open>After registration the object is fresh, so \<open>get_future\<close> succeeds and the future waits.\<close>

lemma get_future_fresh:
  "get_future n (ResponseFutureUsed n (new_future n i f)) =
     Inr (f\<lparr>objs := (objs f)(n := (ResponseFuture i)\<lparr>retrieved := True\<rparr>),
            futureMap := (if futureMap f i = None then (futureMap f)(i \<mapsto> n) else futureMap f)\<rparr>)"
  by (simp add: get_future_def used_eq new_future_def ResponseFuture_def)

text \<open>The state \<open>send_and_get\<close> waits in.\<close>

definition waiting_state ::
  "int32 \<Rightarrow> byte list \<Rightarrow> ('m, 'l) client \<Rightarrow> ('m, 'l) client" where
  "waiting_state i bs c = c\<lparr>next_obj := Suc (next_obj c), written := written c @ [bs],
     resp_futures := (resp_futures c)
       \<lparr>objs := (objs (resp_futures c))(next_obj c := (ResponseFuture i)\<lparr>retrieved := True\<rparr>),
        futureMap := (if futureMap (resp_futures c) i = None
          then (futureMap (resp_futures c))(i \<mapsto> next_obj c) else futureMap (resp_futures c))\<rparr>\<rparr>"

lemma send_and_get_waits:
  assumes "toByteBuf V R (KitePacket_cmd H (word_of_int cmd) m) = Some (Some (num, p'))" and "num > 0"
  shows "send_and_get V R H E cmd m c =
    (let c1 = wait E (waiting_state (opaque (hdr_cmd H (word_of_int cmd))) (sent_bytes (num, p')) c) in
     case getResponse_timeout (next_obj c) (late E) (resp_futures c1) of
       (None, f) \<Rightarrow> Inr (None, c1\<lparr>resp_futures := f\<rparr>)
     | (Some r, f) \<Rightarrow>
         (case setNextHeartbeatTime (hbenv E) 0 (now_after E + 3000) (nextHeartbeatTime (hb c1)) of
            None \<Rightarrow> Inl Not_returning
          | Some t \<Rightarrow> Inr (resp_message r, c1\<lparr>resp_futures := f, hb := (hb c1)\<lparr>nextHeartbeatTime := t\<rparr>\<rparr>)))"
proof -
  let ?i = "opaque (hdr_cmd H (word_of_int cmd))"
  have i: "opaque (hd_of (KitePacket_cmd H (word_of_int cmd) m)) = ?i" by (simp add: KitePacket_cmd_def)
  show ?thesis
    by (simp add: send_and_get_def i start_write_ok [OF assms] register_future_def Let_def
        await_response_def get_future_fresh waiting_state_def)
qed

section \<open>Properties\<close>

text \<open>
  C18: a request whose response arrives while it waits returns that response's message: the
  packet is written once, the response with the packet's id is matched to it, the table of
  futures is left as it was, and the next heartbeat is due at least 3000 ms after the response
  (signed 64-bit time), provided other threads only move the heartbeat time forward.
\<close>

theorem send_and_get_answered:
  assumes "toByteBuf V R (KitePacket_cmd H (word_of_int cmd) m) = Some (Some (num, p'))" and "num > 0"
    and "futureMap (resp_futures c) (opaque (hdr_cmd H (word_of_int cmd))) = None"
    and "resp_requestId r = opaque (hdr_cmd H (word_of_int cmd))"
    and "\<And>x f. receiveResponse r (resp_futures x) = Inr f \<Longrightarrow> wait E x = x\<lparr>resp_futures := f\<rparr>"
    and "\<And>k x. getCount x <=s getCount (hbenv E k x)"
  shows "\<exists>c'. send_and_get V R H E cmd m c = Inr (resp_message r, c') \<and>
    futureMap (resp_futures c') = futureMap (resp_futures c) \<and>
    written c' = written c @ [sent_bytes (num, p')] \<and>
    now_after E + 3000 <=s getCount (nextHeartbeatTime (hb c'))"
proof -
  let ?i = "opaque (hdr_cmd H (word_of_int cmd))" and ?n = "next_obj c"
  let ?w = "waiting_state ?i (sent_bytes (num, p')) c"
  let ?f = "(resp_futures ?w)\<lparr>futureMap := (futureMap (resp_futures ?w))(?i := None),
      objs := (objs (resp_futures ?w))(?n := (objs (resp_futures ?w) ?n)\<lparr>fvalue := Some r\<rparr>)\<rparr>"
  have "receiveResponse r (resp_futures ?w) = Inr ?f"
    using assms(3,4) by (simp add: receiveResponse_def setResponse_def fm_erase_def waiting_state_def
        ResponseFuture_def Let_def)
  then have w: "wait E ?w = ?w\<lparr>resp_futures := ?f\<rparr>" by (rule assms(5))
  have g: "getResponse_timeout ?n (late E) ?f = (Some r, ?f)"
    by (simp add: getResponse_timeout_def)
  obtain t where t: "setNextHeartbeatTime (hbenv E) 0 (now_after E + 3000) (nextHeartbeatTime (hb c)) = Some t"
    "now_after E + 3000 <=s getCount t"
    using setNext_spec [of "hbenv E", OF assms(6)] by blast
  have hb: "hb (wait E ?w) = hb c" unfolding w by (simp add: waiting_state_def)
  have fm: "futureMap ?f = futureMap (resp_futures c)"
    using assms(3) by (auto simp: waiting_state_def)
  have "send_and_get V R H E cmd m c =
      Inr (resp_message r, ?w\<lparr>resp_futures := ?f, hb := (hb c)\<lparr>nextHeartbeatTime := t\<rparr>\<rparr>)"
    unfolding send_and_get_waits [OF assms(1,2)] Let_def hb
    using w g t(1) by simp
  moreover have "written ?w = written c @ [sent_bytes (num, p')]" by (simp add: waiting_state_def)
  ultimately show ?thesis
    using t(2) fm by (intro exI [of _ "?w\<lparr>resp_futures := ?f, hb := (hb c)\<lparr>nextHeartbeatTime := t\<rparr>\<rparr>"]) simp
qed

text \<open>
  C19: a request that gets no response gives up cleanly: it returns a null pointer, and the table
  of futures no longer holds its id, so that a response that arrives later is dropped.
\<close>

theorem send_and_get_timeout:
  assumes "toByteBuf V R (KitePacket_cmd H (word_of_int cmd) m) = Some (Some (num, p'))" and "num > 0"
    and "\<And>x. wait E x = x" and "\<And>f. late E f = f"
  shows "\<exists>c'. send_and_get V R H E cmd m c = Inr (None, c') \<and>
    futureMap (resp_futures c') = (futureMap (resp_futures c))(opaque (hdr_cmd H (word_of_int cmd)) := None) \<and>
    hb c' = hb c \<and> status c' = status c \<and>
    (\<forall>r. resp_requestId r = opaque (hdr_cmd H (word_of_int cmd)) \<longrightarrow>
       receiveResponse r (resp_futures c') = Inr (resp_futures c'))"
proof -
  let ?i = "opaque (hdr_cmd H (word_of_int cmd))" and ?n = "next_obj c"
  let ?w = "waiting_state ?i (sent_bytes (num, p')) c"
  have "getResponse_timeout ?n (late E) (resp_futures ?w) = (None, fm_erase ?i (resp_futures ?w))"
    using assms(4) by (simp add: getResponse_timeout_def erase_request_def waiting_state_def ResponseFuture_def)
  then have "send_and_get V R H E cmd m c = Inr (None, ?w\<lparr>resp_futures := fm_erase ?i (resp_futures ?w)\<rparr>)"
    unfolding send_and_get_waits [OF assms(1,2)] Let_def assms(3) by simp
  then show ?thesis
    by (intro exI conjI, assumption) (auto simp: waiting_state_def fm_erase_def receiveResponse_def Let_def)
qed

text \<open>
  The heartbeat time only moves forward: \<open>setNextHeartbeatTime\<close> always returns when other
  threads do not move the time back, and then the time is at least the requested one and
  at least what it was.
\<close>

lemma setNextHeartbeatTime_forward:
  assumes "\<And>k c. getCount c <=s getCount (env k c)"
  shows "\<exists>c'. setNextHeartbeatTime env 0 time c = Some c' \<and> time <=s getCount c' \<and> getCount c <=s getCount c'"
  by (rule setNext_spec) (rule assms)

text \<open>
  C9: whatever the program does, in any interleaving of its operations, handlers and waits, the
  status never becomes \<open>STOP\<close> (so the tests for it never succeed) and, once a start has been
  attempted, never becomes \<open>NONE\<close> again.
\<close>

theorem status_discipline:
  assumes "client_run V R M c c'"
  shows "(\<not> in_state STOP c \<longrightarrow> \<not> in_state STOP c') \<and> (\<not> in_state NONE c \<longrightarrow> \<not> in_state NONE c')"
  using not_stop.good_run [OF assms] left_none.good_run [OF assms] by (auto simp: in_state_def)

text \<open>
  A client can be started once.  After a call of \<open>start\<close> that returned, with either result,
  and any further behaviour of the program, every call of \<open>start\<close> returns false without
  touching anything.
\<close>

lemma start_only_once:
  assumes "client_start sleep c = Inr (b, c1)" and "\<forall>k x. client_run V R M x (sleep k x)"
    and "client_run V R M c1 c2"
  shows "client_start sleep' c2 = Inr (False, c2)"
proof -
  have "\<not> in_state NONE c1"
  proof (cases "in_state NONE c")
    case False
    have "client_run V R M c c1" by (rule cl_start [OF assms(1,2)])
    from left_none.good_run [OF this] False show ?thesis by (simp add: in_state_def)
  next
    case True
    then have a: "start_loop sleep 0 (c\<lparr>status := setCount (state_code PREPARE) (status c)\<rparr>) = Inr (b, c1)"
      using assms(1) by (simp add: client_start_def counter_cell.cas_eq in_state_def)
    have k: "\<forall>k x. getCount (status x) \<noteq> state_code NONE \<longrightarrow> getCount (status (sleep k x)) \<noteq> state_code NONE"
      using left_none.good_run assms(2) by blast
    have "getCount (status c1) \<noteq> state_code NONE"
      by (rule left_none.good_start_loop [OF a k]) (simp add: counter_cell.get_put)
    then show ?thesis by (simp add: in_state_def)
  qed
  with left_none.good_run [OF assms(3)] have "\<not> in_state NONE c2" by (simp add: in_state_def)
  then show ?thesis by (simp add: client_start_def in_state_def counter_cell.cas_fail)
qed


text \<open>The loop of \<open>hbThread\<close> for a given sequence of clock values; \<open>nap\<close> is its \<open>sleep(1)\<close>.\<close>

fun hb_rounds ::
  "vector_impl \<Rightarrow> 'm msg_rt \<Rightarrow> 'm client_msgs \<Rightarrow> (int \<Rightarrow> ('m, 'l) others) \<Rightarrow> (('m, 'l) client \<Rightarrow> ('m, 'l) client) \<Rightarrow>
     (header_ctors \<times> int64) list \<Rightarrow> ('m, 'l) client \<Rightarrow> fault + ('m, 'l) client" where
  "hb_rounds V R M E nap [] c = Inr c"
| "hb_rounds V R M E nap ((H, now) # ts) c =
     (case hb_iteration V R H M E now c of
        Inl e \<Rightarrow> Inl e
      | Inr (us, c') \<Rightarrow> hb_rounds V R M E nap ts (nap c'))"

lemma hb_iteration_missed:
  assumes "toByteBuf V R (KitePacket_cmd H CMD_HEARTBEAT (Some (heart_beat M now))) = Some (Some (num, p'))"
    and "num > 0" and "\<And>x. wait (E 1000) x = x" and "\<And>f. late (E 1000) f = f"
    and "in_state RUNNING c" and "getCount (nextHeartbeatTime (hb c)) <s now"
  shows "\<exists>c'. hb_iteration V R H M E now c = Inr (0, c') \<and> status c' = status c \<and>
    nextHeartbeatTime (hb c') = nextHeartbeatTime (hb c) \<and>
    getCount (stopCount (hb c')) = getCount (stopCount (hb c)) + 1"
proof -
  have cmd: "word_of_int (uint CMD_HEARTBEAT) = CMD_HEARTBEAT" by simp
  obtain c' where c': "send_and_get V R H (E 1000) (uint CMD_HEARTBEAT) (Some (heart_beat M now)) c = Inr (None, c')"
    "hb c' = hb c" "status c' = status c"
    using send_and_get_waits [where E = "E 1000" and cmd = "uint CMD_HEARTBEAT", unfolded cmd, OF assms(1,2)] assms(3,4)
    by (auto simp: getResponse_timeout_def erase_request_def waiting_state_def ResponseFuture_def)
  then show ?thesis
    using assms(5,6)
    by (simp add: hb_iteration_def sendHeartBeatAndGet_def Let_def state_simps)
qed

lemma hb_rounds_count:
  assumes "\<forall>(H, now) \<in> set ts. \<exists>num p'. num > 0 \<and>
      toByteBuf V R (KitePacket_cmd H CMD_HEARTBEAT (Some (heart_beat M now))) = Some (Some (num, p'))"
    and "\<forall>(H, now) \<in> set ts. getCount (nextHeartbeatTime (hb c)) <s now"
    and "\<And>x. wait (E 1000) x = x" and "\<And>f. late (E 1000) f = f"
    and nap: "\<And>x. status (nap x) = status x \<and> hb (nap x) = hb x"
    and "in_state RUNNING c"
  shows "\<exists>c'. hb_rounds V R M E nap ts c = Inr c' \<and>
      getCount (stopCount (hb c')) = getCount (stopCount (hb c)) + of_nat (length ts)"
  using assms(1,2,6)
proof (induction ts arbitrary: c)
  case (Cons t ts)
  obtain H now where t: "t = (H, now)" by (cases t)
  with Cons.prems(1) obtain num p' where p': "num > 0"
    "toByteBuf V R (KitePacket_cmd H CMD_HEARTBEAT (Some (heart_beat M now))) = Some (Some (num, p'))"
    by auto
  have now: "getCount (nextHeartbeatTime (hb c)) <s now" using Cons.prems(2) t by simp
  obtain c1 where c1: "hb_iteration V R H M E now c = Inr (0, c1)" "status c1 = status c"
    "nextHeartbeatTime (hb c1) = nextHeartbeatTime (hb c)"
    "getCount (stopCount (hb c1)) = getCount (stopCount (hb c)) + 1"
    using hb_iteration_missed [where E = E, OF p'(2,1) assms(3,4) Cons.prems(3) now] by blast
  have "in_state RUNNING (nap c1)" using Cons.prems(3) c1(2) nap by (simp add: in_state_def)
  then obtain c' where "hb_rounds V R M E nap ts (nap c1) = Inr c'"
    "getCount (stopCount (hb c')) = getCount (stopCount (hb (nap c1))) + of_nat (length ts)"
    using Cons.IH [of "nap c1"] Cons.prems(1,2) c1(3) nap by auto
  then show ?case using c1 nap t by (simp add: algebra_simps)
qed simp

section \<open>More properties\<close>

text \<open>
  C20: a running client whose heartbeats are not answered is reported dead after exactly five
  rounds: with a miss count of 0 at the start and nothing arriving, after \<open>n\<close> rounds the count
  is \<open>n\<close>, and \<open>isDead\<close> holds just when \<open>n\<close> is at least 5.
\<close>

theorem heartbeat_dead_after_five:
  assumes "\<forall>(H, now) \<in> set ts. \<exists>num p'. num > 0 \<and>
      toByteBuf V R (KitePacket_cmd H CMD_HEARTBEAT (Some (heart_beat M now))) = Some (Some (num, p'))"
    and "\<forall>(H, now) \<in> set ts. getCount (nextHeartbeatTime (hb c)) <s now"
    and "\<And>x. wait (E 1000) x = x" and "\<And>f. late (E 1000) f = f"
    and "\<And>x. status (nap x) = status x \<and> hb (nap x) = hb x"
    and "in_state RUNNING c" and "getCount (stopCount (hb c)) = 0" and "length ts < 2 ^ 31"
  shows "\<exists>c'. hb_rounds V R M E nap ts c = Inr c' \<and> getCount (stopCount (hb c')) = of_nat (length ts) \<and>
    (isDead c' \<longleftrightarrow> 5 \<le> length ts)"
proof -
  obtain c' where c': "hb_rounds V R M E nap ts c = Inr c'" "getCount (stopCount (hb c')) = of_nat (length ts)"
    using hb_rounds_count [where E = E and nap = nap, OF assms(1-6)] assms(7) by auto
  have "sint (word_of_int (int (length ts)) :: int64) = int (length ts)"
    using assms(8) by (simp only: sint_sbintrunc') (simp add: signed_take_bit_int_eq_self)
  then have "sint (of_nat (length ts) :: int64) = int (length ts)" by simp
  then have "isDead c' \<longleftrightarrow> 5 \<le> length ts"
    using c'(2) by (simp add: isDead_def hb_isDead_def word_sle_eq)
  with c' show ?thesis by blast
qed

lemma start_loop_not_null:
  assumes "\<And>k x. host_port (sleep k x) = host_port x"
  shows "host_port c \<noteq> None \<Longrightarrow> start_loop sleep n c \<noteq> Inl Null_dereference"
proof (induction "10 - n" arbitrary: n c)
  case 0
  then show ?case by (auto simp: start_loop.simps [of sleep n c] reconnect0_def split: if_splits)
next
  case (Suc d)
  then obtain c1 where c1: "reconnect0 sleep (Suc n) c = Inr c1" "host_port c1 \<noteq> None"
    using assms by (auto simp: reconnect0_def)
  have "start_loop sleep (Suc n) c1 \<noteq> Inl Null_dereference"
    using Suc.hyps(2) c1(2) by (intro Suc.hyps(1)) auto
  with c1(1) show ?case by (simp add: start_loop.simps [of sleep n c])
qed

text \<open>The client after reading a stream of well-formed packets.\<close>

lemma client_loop_stream:
  assumes "msg_runtime R sendable"
    and "\<forall>x\<in>set xs. frame_ok R sendable x \<and> frame_size R x mod 256 < 128"
    and "prep_ok prep" and "\<And>k. oob k 0 = 0"
    and "rop (sess c) = AwaitLen" and "read_buffer (sess c) = []"
    and "on_calls (map (delivery R (rpkg (sess c))) xs) c = Inr c'"
  shows "\<exists>s'. client_loop prep oob R None c (concat (map (wire R) xs)) = Inr (c'\<lparr>sess := s'\<rparr>, []) \<and>
    rop s' = AwaitLen \<and> read_buffer s' = []"
proof -
  obtain s' where s': "rop s' = AwaitLen" "read_buffer s' = []"
    "read_loop prep oob R None (sess c) (concat (map (wire R) xs) @ []) =
      (map (delivery R (rpkg (sess c))) xs @ fst (read_loop prep oob R None s' []),
       snd (read_loop prep oob R None s' []))"
    using msg_runtime.read_many [where oob = oob, OF assms(1-6), of None "[]"] by blast
  moreover have "io_step prep oob R None s' [] = Blocked"
    using s'(1) by (simp add: io_step_def)
  ultimately show ?thesis
    using assms(7) by (intro exI [of _ s']) (simp add: client_loop_read_loop read_loop_blocked)
qed

text \<open>The client after the response of a registered future, and after a message, has arrived.\<close>

definition answered :: "nat \<Rightarrow> header \<Rightarrow> 'm \<Rightarrow> ('m, 'l) client \<Rightarrow> ('m, 'l) client" where
  "answered n h m c = (client_reset (c\<lparr>stats := recordRead (stats c)\<rparr>))\<lparr>resp_futures := (resp_futures c)
     \<lparr>futureMap := (futureMap (resp_futures c))(opaque h := None),
      objs := (objs (resp_futures c))(n := (objs (resp_futures c) n)\<lparr>fvalue := Some (KiteResponse (opaque h) (Some m))\<rparr>)\<rparr>\<rparr>"

lemma answered_simps:
  "fvalue (objs (resp_futures (answered n h m c)) n) = Some (KiteResponse (opaque h) (Some m))"
  "futureMap (resp_futures (answered n h m c)) = (futureMap (resp_futures c))(opaque h := None)"
  "getCount (readCounter (stats (answered n h m c))) = getCount (readCounter (stats c)) + 1"
  "\<not> isDead (answered n h m c)" "written (answered n h m c) = written c"
  "nextHeartbeatTime (hb (answered n h m c)) = nextHeartbeatTime (hb c)"
  by (simp_all add: answered_def recordRead_def state_simps client_reset_def hb_reset_def isDead_def hb_isDead_def
      counter_cell.get_put word_sle_eq)

lemma isDead_sess: "isDead (c\<lparr>sess := s'\<rparr>) = isDead c"
  by (simp add: isDead_def)

lemma response_arrives:
  assumes "msg_runtime R sendable" and "frame_ok R sendable (h, m)" and "frame_size R (h, m) mod 256 < 128"
    and "prep_ok prep" and "\<And>k. oob k 0 = 0"
    and "rop (sess c) = AwaitLen" and "read_buffer (sess c) = []"
    and "cmdType h \<in> {CMD_CONN_AUTH, CMD_MESSAGE_STORE_ACK, CMD_HEARTBEAT}"
    and "futureMap (resp_futures c) (opaque h) = Some n" and "fvalue (objs (resp_futures c) n) = None"
  shows "\<exists>s'. client_loop prep oob R None c (wire R (h, m)) = Inr ((answered n h m c)\<lparr>sess := s'\<rparr>, []) \<and>
    rop s' = AwaitLen \<and> read_buffer s' = []"
proof -
  have "receiveResponse (KiteResponse (opaque h) (Some m)) (resp_futures c) = Inr (resp_futures (answered n h m c))"
    using assms(9,10) by (simp add: answered_def receiveResponse_def setResponse_def fm_erase_def KiteResponse_def Let_def)
  then have "on_calls (map (delivery R (rpkg (sess c))) [(h, m)]) c = Inr (answered n h m c)"
    using assms(8)
    by (auto simp: on_call_def delivery_def delivered_def dispatch_def getMessage_def client_reset_def Let_def answered_def)
  from client_loop_stream [where oob = oob, OF assms(1) _ assms(4-7) this] assms(2,3) show ?thesis by auto
qed

definition notified ::
  "hostPort \<Rightarrow> (int32 \<Rightarrow> 'm option \<Rightarrow> 'm listener_event) \<Rightarrow> header \<Rightarrow> 'm \<Rightarrow> ('m, 'l) client \<Rightarrow> ('m, 'l) client" where
  "notified a ev h m c = notify (toString a) (ev (opaque h) (Some m)) (c\<lparr>stats := recordRead (stats c)\<rparr>)"

lemma message_arrives:
  assumes "msg_runtime R sendable" and "frame_ok R sendable (h, m)" and "frame_size R (h, m) mod 256 < 128"
    and "prep_ok prep" and "\<And>k. oob k 0 = 0"
    and "rop (sess c) = AwaitLen" and "read_buffer (sess c) = []"
    and "(cmdType h, ev) \<in> {(CMD_TX_ACK, TxAckReceived), (CMD_BYTES_MESSAGE, BytesMessageReceived),
           (CMD_STRING_MESSAGE, StringMessageReceived)}"
    and "host_port c = Some a"
  shows "\<exists>s'. client_loop prep oob R None c (wire R (h, m)) = Inr ((notified a ev h m c)\<lparr>sess := s'\<rparr>, [])"
proof -
  have "on_calls (map (delivery R (rpkg (sess c))) [(h, m)]) c = Inr (notified a ev h m c)"
    using assms(8,9)
    by (auto simp: on_call_def delivery_def delivered_def dispatch_def getMessage_def cmd_defs notified_def)
  from client_loop_stream [where oob = oob, OF assms(1) _ assms(4-7) this] assms(2,3) show ?thesis by auto
qed


text \<open>
  From the wire to the listener: a bytes message, string message or transaction ack whose
  bytes have arrived is handed, once, with its opaque id, to the listener registered for the
  server's address (or the default listener), and to nothing else.
\<close>

lemma message_end_to_end:
  assumes "msg_runtime R sendable" and "frame_ok R sendable (h, m)" and "frame_size R (h, m) mod 256 < 128"
    and "prep_ok prep" and "\<And>k. oob k 0 = 0"
    and "rop (sess c) = AwaitLen" and "read_buffer (sess c) = []"
    and "(cmdType h, ev) \<in> {(CMD_TX_ACK, TxAckReceived), (CMD_BYTES_MESSAGE, BytesMessageReceived),
           (CMD_STRING_MESSAGE, StringMessageReceived)}"
    and "host_port c = Some a"
  shows "\<exists>c'. client_loop prep oob R None c (wire R (h, m)) = Inr (c', []) \<and>
    events c' = events c @ [(getListener (toString a) (listener_mgr c), ev (opaque h) (Some m))] \<and>
    resp_futures c' = resp_futures c \<and> hb c' = hb c \<and> status c' = status c"
proof -
  obtain s' where "client_loop prep oob R None c (wire R (h, m)) = Inr ((notified a ev h m c)\<lparr>sess := s'\<rparr>, [])"
    using message_arrives [where oob = oob, OF assms] by blast
  then show ?thesis
    by (intro exI [of _ "(notified a ev h m c)\<lparr>sess := s'\<rparr>"]) (simp add: notified_def notify_def)
qed

text \<open>
  C29: a server URL is usable only if the part before its first backslash or question mark has
  exactly one colon.  For any other URL the constructor stores a null address, and the first
  \<open>start\<close> dereferences it; with a usable one \<open>start\<close> does not fail that way if nothing else
  replaces the address.
\<close>

theorem bad_url_dereferences_null:
  assumes "splits sp" and "\<And>k x. host_port (sleep k x) = host_port x"
  shows "client_start sleep (asioKiteIOClient sp H g fut lm ks gid skey surl) = Inl Null_dereference \<longleftrightarrow>
    length (filter (\<lambda>x. x = CHR '':'') (hd (sp (\<lambda>x. x = CHR 0x5C \<or> x = CHR ''?'') surl))) \<noteq> 1"
proof -
  let ?u = "hd (sp (\<lambda>x. x = CHR 0x5C \<or> x = CHR ''?'') surl)"
  let ?c = "asioKiteIOClient sp H g fut lm ks gid skey surl"
  let ?d = "?c\<lparr>status := setCount (state_code PREPARE) (status ?c)\<rparr>"
  have sp: "splitting sp" using assms(1) by (rule splitting.intro)
  have s: "client_start sleep ?c = start_loop sleep 0 ?d"
    by (simp add: client_start_def asioKiteIOClient_def Let_def counter_cell.cas_eq Counter_def getCount_def)
  have hp: "host_port ?d = parse sp ?u" by (simp add: asioKiteIOClient_def Let_def)
  show ?thesis
  proof (cases "parse sp ?u")
    case None
    then have "start_loop sleep 0 ?d = Inl Null_dereference"
      using hp by (subst start_loop.simps) (simp add: reconnect0_def)
    with None s splitting.parse_None_iff [OF sp] show ?thesis by simp
  next
    case (Some a)
    with hp start_loop_not_null [where sleep = sleep and c = ?d and n = 0, OF assms(2)] s
      splitting.parse_None_iff [OF sp, of ?u]
    show ?thesis by simp
  qed
qed

section \<open>Concrete instances\<close>

definition sample_ctors :: header_ctors where
  "sample_ctors = \<lparr>hdr = hdr_sample 0, hdr_cmd = hdr_sample,
     hdr_opaque_cmd = (\<lambda>i c. (hdr_sample c)\<lparr>opaque := i\<rparr>),
     hdr_full = (\<lambda>i c v e. \<lparr>opaque = i, cmdType = c, version = v, extension = e\<rparr>)\<rparr>"

definition sample_msgs :: "byte list client_msgs" where
  "sample_msgs = \<lparr>conn_meta = (\<lambda>g k. [1]), ack_status = (\<lambda>m. m \<noteq> []), heart_beat = (\<lambda>v. [2]),
     hb_version = (\<lambda>m. 0)\<rparr>"

definition no_calls :: "'m futures" where
  "no_calls = \<lparr>objs = (\<lambda>_. ResponseFuture 0), futureMap = Map.empty\<rparr>"

definition sample_client :: "(byte list, nat) client" where
  "sample_client = asioKiteIOClient split_at sample_ctors [0, 0, 0, 0] no_calls
     \<lparr>listeners = Map.empty, defaultListener = 0\<rparr> KiteStats ''g'' ''k'' ''h:1?x''"

definition connected_client :: "(byte list, nat) client" where
  "connected_client = handle_connect None sample_client"

definition nothing_happens :: "(byte list, nat) others" where
  "nothing_happens = \<lparr>wait = (\<lambda>x. x), late = (\<lambda>f. f), hbenv = (\<lambda>_ x. x), now_after = 0\<rparr>"

definition response_arrives :: "(byte list, nat) others" where
  "response_arrives = nothing_happens\<lparr>wait := (\<lambda>x.
     case receiveResponse (KiteResponse 7 (Some [9])) (resp_futures x) of
       Inl e \<Rightarrow> x | Inr f \<Rightarrow> x\<lparr>resp_futures := f\<rparr>)\<rparr>"

lemma sample_toByteBuf:
  "\<exists>num p'. num > 0 \<and> toByteBuf libstdcxx raw_rt (KitePacket_cmd sample_ctors c (Some [b])) = Some (Some (num, p'))"
proof -
  obtain p' where "toByteBuf libstdcxx raw_rt (KitePacket_cmd sample_ctors c (Some [b])) = Some (Some (int 1 + 23, p'))"
    by (rule libstd.toByteBuf_fresh [of "KitePacket_cmd sample_ctors c (Some [b])" "[b]" raw_rt 1])
      (simp_all add: KitePacket_cmd_def raw_rt_def libstdcxx_def)
  then show ?thesis by (intro exI [of _ "int 1 + 23"] exI [of _ p']) simp
qed

lemma sample_client_fields:
  "host_port sample_client = Some (HostPort ''h'' ''1'')" "in_state NONE sample_client"
  "futureMap (resp_futures sample_client) = Map.empty" "getCount (stopCount (hb sample_client)) = 0"
  "getCount (nextHeartbeatTime (hb sample_client)) = 0"
  "rop (sess connected_client) = AwaitLen" "read_buffer (sess connected_client) = []"
  "listeners (listener_mgr sample_client) = Map.empty"
  by (simp_all add: sample_client_def asioKiteIOClient_def Let_def parse_def in_state_def no_calls_def
      Heartbeat_def Counter0_def Counter_def getCount_def connected_client_def handle_connect_def
      set_status_def async_read_def async_setup_read_varint_def asioSession_def)

theorem send_and_get_answered_witness:
  "\<exists>c'. send_and_get libstdcxx raw_rt sample_ctors response_arrives 4 (Some [3]) sample_client = Inr (Some [9], c') \<and>
     futureMap (resp_futures c') = Map.empty"
proof -
  obtain num p' where p: "num > 0"
    "toByteBuf libstdcxx raw_rt (KitePacket_cmd sample_ctors (word_of_int 4) (Some [3])) = Some (Some (num, p'))"
    using sample_toByteBuf by blast
  have "\<exists>c'. send_and_get libstdcxx raw_rt sample_ctors response_arrives 4 (Some [3]) sample_client =
      Inr (resp_message (KiteResponse 7 (Some [9])), c') \<and>
    futureMap (resp_futures c') = futureMap (resp_futures sample_client) \<and>
    written c' = written sample_client @ [sent_bytes (num, p')] \<and>
    now_after response_arrives + 3000 <=s getCount (nextHeartbeatTime (hb c'))"
    by (rule send_and_get_answered [OF p(2,1)])
      (simp_all add: sample_client_fields sample_ctors_def hdr_sample_def KiteResponse_def
        response_arrives_def nothing_happens_def word_sle_eq)
  then show ?thesis by (auto simp: KiteResponse_def sample_client_fields)
qed

theorem send_and_get_timeout_witness:
  "\<exists>c'. send_and_get libstdcxx raw_rt sample_ctors nothing_happens 4 (Some [3]) sample_client = Inr (None, c')"
proof -
  obtain num p' where p: "num > 0"
    "toByteBuf libstdcxx raw_rt (KitePacket_cmd sample_ctors (word_of_int 4) (Some [3])) = Some (Some (num, p'))"
    using sample_toByteBuf by blast
  show ?thesis
    using send_and_get_timeout [where E = nothing_happens and c = sample_client, OF p(2,1)]
    by (simp add: nothing_happens_def) blast
qed

theorem status_discipline_witness:
  "\<not> in_state STOP (handle_connect None (set_status PREPARE sample_client)) \<and>
   \<not> in_state NONE (handle_connect None (set_status PREPARE sample_client))"
proof -
  have "\<not> in_state STOP (set_status PREPARE sample_client)" "\<not> in_state NONE (set_status PREPARE sample_client)"
    by (simp_all add: set_status_def in_state_def counter_cell.get_put)
  with status_discipline [where V = libstdcxx and R = raw_rt and M = sample_msgs
      and c = "set_status PREPARE sample_client" and c' = "handle_connect None (set_status PREPARE sample_client)", OF cl_connect]
  show ?thesis by blast
qed

lemma start_connected: "client_start (\<lambda>k. handle_connect None) sample_client =
  Inr (True, snd (projr (client_start (\<lambda>k. handle_connect None) sample_client)))"
proof -
  let ?d = "sample_client\<lparr>status := setCount (state_code PREPARE) (status sample_client)\<rparr>"
  have "client_start (\<lambda>k. handle_connect None) sample_client = start_loop (\<lambda>k. handle_connect None) 0 ?d"
    using sample_client_fields(2) by (simp add: client_start_def in_state_def counter_cell.cas_eq)
  moreover have "in_state RECOVERING (handle_connect None x)" for x :: "(byte list, nat) client"
    by (simp add: in_state_def handle_connect_status counter_cell.get_put)
  ultimately show ?thesis
    using sample_client_fields(1) by (simp add: start_loop.simps [of _ 0] reconnect0_def)
qed


theorem heartbeat_dead_after_five_witness:
  "\<exists>c'. hb_rounds libstdcxx raw_rt sample_msgs (\<lambda>_. nothing_happens) (\<lambda>x. x)
      (replicate 6 (sample_ctors, 1)) (set_status RUNNING sample_client) = Inr c' \<and> isDead c'"
proof -
  have "\<exists>c'. hb_rounds libstdcxx raw_rt sample_msgs (\<lambda>_. nothing_happens) (\<lambda>x. x)
      (replicate 6 (sample_ctors, 1)) (set_status RUNNING sample_client) = Inr c' \<and>
    getCount (stopCount (hb c')) = of_nat (length (replicate 6 (sample_ctors, 1::int64))) \<and>
    (isDead c' \<longleftrightarrow> 5 \<le> length (replicate 6 (sample_ctors, 1::int64)))"
    by (rule heartbeat_dead_after_five)
      (use sample_toByteBuf sample_client_fields in
        \<open>simp_all add: sample_msgs_def nothing_happens_def set_status_def in_state_def counter_cell.get_put word_sless_alt\<close>)
  then show ?thesis by auto
qed

lemma sample_frames:
  "frame_ok raw_rt (\<lambda>_ _. True) (hdr_sample CMD_HEARTBEAT, [9])" "frame_size raw_rt (hdr_sample CMD_HEARTBEAT, [9]) = 20"
  "frame_ok raw_rt (\<lambda>_ _. True) (hdr_sample CMD_BYTES_MESSAGE, [9])" "frame_size raw_rt (hdr_sample CMD_BYTES_MESSAGE, [9]) = 20"
  by (simp_all add: frame_ok_def frame_size_def hdr_sample_def raw_rt_def class_of_cmd_def cmd_defs
      getMaxFrameLength_def MAX_PACKET_BYTES_def)


definition listening_client :: "(byte list, nat) client" where
  "listening_client = projr (client_registerListener 3 connected_client)"

theorem bad_url_dereferences_null_witness:
  "client_start (\<lambda>k x. x) (asioKiteIOClient split_at sample_ctors [] (no_calls :: nat futures)
     \<lparr>listeners = Map.empty, defaultListener = (0::nat)\<rparr> KiteStats [] [] ''kite://h:1'') = Inl Null_dereference"
proof -
  have "client_start (\<lambda>k x. x) (asioKiteIOClient split_at sample_ctors [] (no_calls :: nat futures)
     \<lparr>listeners = Map.empty, defaultListener = (0::nat)\<rparr> KiteStats [] [] ''kite://h:1'') = Inl Null_dereference \<longleftrightarrow>
    length (filter (\<lambda>x. x = CHR '':'') (hd (split_at (\<lambda>x. x = CHR 0x5C \<or> x = CHR ''?'') ''kite://h:1''))) \<noteq> 1"
    by (rule bad_url_dereferences_null [OF split_at_splits]) simp
  then show ?thesis by simp
qed

end
