(* ===== verification/WireFormat.thy ===== *)
theory WireFormat
  imports Prelude
begin

text \<open>
  What the generated classes of \<^verbatim>\<open>protocol/protobuf/generated/kite_remoting.pb.cc\<close> share: the
  functions of the protocol buffer library they call (not in the repository, so a record of
  arguments, with the documented behaviour in the locale \<open>wire_laws\<close>), the parts their parsers
  are assembled from, and the loop that runs a parser.

  A coded input stream is the bytes up to the current limit and the recursion depth left.
  Strings of messages are byte lists.  UTF-8 verification only logs, so it has no counterpart.
\<close>

section \<open>The library\<close>

record 'u wire =
  ReadTagWithCutoff :: "nat \<Rightarrow> byte list \<Rightarrow> (nat \<times> bool) \<times> byte list"
  ExpectTag :: "nat \<Rightarrow> byte list \<Rightarrow> byte list option"
  ExpectAtEnd :: "byte list \<Rightarrow> bool"
  ReadInt64 :: "byte list \<Rightarrow> (int64 \<times> byte list) option"
  ReadInt32 :: "byte list \<Rightarrow> (int32 \<times> byte list) option"
  ReadBool :: "byte list \<Rightarrow> (bool \<times> byte list) option"
  ReadString :: "byte list \<Rightarrow> byte list \<Rightarrow> bool \<times> byte list \<times> byte list"
  ReadBytes :: "byte list \<Rightarrow> byte list \<Rightarrow> bool \<times> byte list \<times> byte list"
  SkipField :: "byte list \<Rightarrow> nat \<Rightarrow> 'u \<Rightarrow> bool \<times> 'u \<times> byte list"
  WriteInt64 :: "nat \<Rightarrow> int64 \<Rightarrow> byte list"
  WriteInt32 :: "nat \<Rightarrow> int32 \<Rightarrow> byte list"
  WriteBool :: "nat \<Rightarrow> bool \<Rightarrow> byte list"
  WriteString :: "nat \<Rightarrow> byte list \<Rightarrow> byte list"
  WriteBytes :: "nat \<Rightarrow> byte list \<Rightarrow> byte list"
  WriteMessage :: "nat \<Rightarrow> int \<Rightarrow> byte list \<Rightarrow> byte list"
  Int64Size :: "int64 \<Rightarrow> int"
  Int32Size :: "int32 \<Rightarrow> int"
  StringSize :: "byte list \<Rightarrow> int"
  BytesSize :: "byte list \<Rightarrow> int"
  LengthDelimitedSize :: "int \<Rightarrow> int"
  NewUnknown :: 'u
  ClearUnknown :: "'u \<Rightarrow> 'u"
  MergeUnknown :: "'u \<Rightarrow> 'u \<Rightarrow> 'u"
  SerializeUnknownFields :: "'u \<Rightarrow> byte list"
  ComputeUnknownFieldsSize :: "'u \<Rightarrow> int"

record cis =
  avail :: "byte list"
  depth :: nat

text \<open>
  \<open>_internal_metadata_\<close> of a message holds an unknown-field set once one has been asked for.
\<close>

definition mutable_unknown :: "'u wire \<Rightarrow> 'u option \<Rightarrow> 'u" where
  "mutable_unknown W u = (case u of None \<Rightarrow> NewUnknown W | Some s \<Rightarrow> s)"

definition clear_unknown :: "'u wire \<Rightarrow> 'u option \<Rightarrow> 'u option" where
  "clear_unknown W u = (case u of None \<Rightarrow> None | Some s \<Rightarrow> Some (ClearUnknown W s))"

definition merge_unknown :: "'u wire \<Rightarrow> 'u option \<Rightarrow> 'u option \<Rightarrow> 'u option" where
  "merge_unknown W from u =
     (case from of None \<Rightarrow> u | Some f \<Rightarrow> Some (MergeUnknown W (mutable_unknown W u) f))"

definition unknown_bytes :: "'u wire \<Rightarrow> 'u option \<Rightarrow> byte list" where
  "unknown_bytes W u = (case u of None \<Rightarrow> [] | Some s \<Rightarrow> SerializeUnknownFields W s)"

definition unknown_size :: "'u wire \<Rightarrow> 'u option \<Rightarrow> int" where
  "unknown_size W u = (case u of None \<Rightarrow> 0 | Some s \<Rightarrow> ComputeUnknownFieldsSize W s)"

lemma unknown_None [simp]:
  "unknown_bytes W None = []" "unknown_size W None = 0" "clear_unknown W None = None"
  "merge_unknown W None u = u"
  by (simp_all add: unknown_bytes_def unknown_size_def clear_unknown_def merge_unknown_def)

section \<open>Parsers\<close>

text \<open>
  A parser of a generated class is a loop with labels: \<open>Top\<close> is the head of the \<open>for\<close>, \<open>Parse n\<close>
  the statement that reads field \<open>n\<close> once its tag has been consumed (the labels \<open>parse_x\<close> of the
  code, and the beginning of the first case), \<open>ParseLoop n\<close> the label inside a repeated field.  A step goes to a label, or ends the function.
  \<open>Diverges\<close> is the outcome of a step that calls a parser that does not return.
\<close>

datatype pc = Top | Parse nat | ParseLoop nat

datatype 'm parse_next = Goto pc cis 'm | Ends bool cis 'm | Diverges

type_synonym 'm parse_step = "pc \<Rightarrow> cis \<Rightarrow> 'm \<Rightarrow> 'm parse_next"
type_synonym 'm merger = "cis \<Rightarrow> 'm \<Rightarrow> (bool \<times> cis \<times> 'm) option"

partial_function (option) merge_run :: "'m parse_step \<Rightarrow> pc \<Rightarrow> cis \<Rightarrow> 'm \<Rightarrow> (bool \<times> cis \<times> 'm) option" where
  "merge_run step p inp m =
     (case step p inp m of
        Goto p' inp' m' \<Rightarrow> merge_run step p' inp' m'
      | Ends ok inp' m' \<Rightarrow> Some (ok, inp', m')
      | Diverges \<Rightarrow> None)"

text \<open>What follows a field: a test for the tag of the next one, or for the end of the input.\<close>

datatype follow = NextTag nat pc | AtEnd

definition after :: "'u wire \<Rightarrow> follow \<Rightarrow> cis \<Rightarrow> 'm \<Rightarrow> 'm parse_next" where
  "after W f inp m =
     (case f of
        NextTag t p \<Rightarrow>
          (case ExpectTag W t (avail inp) of
             Some r \<Rightarrow> Goto p (inp\<lparr>avail := r\<rparr>) m
           | None \<Rightarrow> Goto Top inp m)
      | AtEnd \<Rightarrow> if ExpectAtEnd W (avail inp) then Ends True inp m else Goto Top inp m)"

text \<open>\<open>ReadPrimitive\<close> into a field, then its has-bit.\<close>

definition read_prim ::
  "'u wire \<Rightarrow> (byte list \<Rightarrow> ('v \<times> byte list) option) \<Rightarrow> ('v \<Rightarrow> 'm \<Rightarrow> 'm) \<Rightarrow> ('m \<Rightarrow> 'm) \<Rightarrow> follow \<Rightarrow>
     cis \<Rightarrow> 'm \<Rightarrow> 'm parse_next" where
  "read_prim W rdr put set_has f inp m =
     (case rdr (avail inp) of
        None \<Rightarrow> Ends False inp m
      | Some (v, r) \<Rightarrow> after W f (inp\<lparr>avail := r\<rparr>) (set_has (put v m)))"

text \<open>\<open>mutable_x\<close>, which sets the has-bit, and \<open>ReadString\<close> or \<open>ReadBytes\<close> into what it points to.\<close>

definition read_str ::
  "'u wire \<Rightarrow> (byte list \<Rightarrow> byte list \<Rightarrow> bool \<times> byte list \<times> byte list) \<Rightarrow> ('m \<Rightarrow> byte list) \<Rightarrow>
     (byte list \<Rightarrow> 'm \<Rightarrow> 'm) \<Rightarrow> ('m \<Rightarrow> 'm) \<Rightarrow> follow \<Rightarrow> cis \<Rightarrow> 'm \<Rightarrow> 'm parse_next" where
  "read_str W rdr get put set_has f inp m =
     (let m = set_has m;
          (ok, v, r) = rdr (avail inp) (get m);
          m = put v m
      in if ok then after W f (inp\<lparr>avail := r\<rparr>) m else Ends False inp m)"

text \<open>
  \<open>ReadMessageNoVirtual\<close> into a submessage: \<open>rm\<close> is the library's function, \<open>merge\<close> the parser of
  the submessage's class, which it calls.
\<close>

definition read_sub ::
  "'u wire \<Rightarrow> ('s merger \<Rightarrow> 's merger) \<Rightarrow> 's merger \<Rightarrow> ('m \<Rightarrow> 's) \<Rightarrow> ('s \<Rightarrow> 'm \<Rightarrow> 'm) \<Rightarrow> follow \<Rightarrow>
     cis \<Rightarrow> 'm \<Rightarrow> 'm parse_next" where
  "read_sub W rm merge mutable put f inp m =
     (case rm merge inp (mutable m) of
        None \<Rightarrow> Diverges
      | Some (ok, inp, sub) \<Rightarrow>
          (let m = put sub m in if ok then after W f inp m else Ends False inp m))"

text \<open>
  The label \<open>handle_unusual\<close>: tag 0 or an end-group tag ends the message, anything else is skipped
  into the unknown fields.
\<close>

definition WIRETYPE_END_GROUP :: nat where "WIRETYPE_END_GROUP = 4"

definition GetTagFieldNumber :: "nat \<Rightarrow> nat" where "GetTagFieldNumber tag = tag div 8"

definition GetTagWireType :: "nat \<Rightarrow> nat" where "GetTagWireType tag = tag mod 8"

definition handle_unusual ::
  "'u wire \<Rightarrow> ('m \<Rightarrow> 'u option) \<Rightarrow> ('u \<Rightarrow> 'm \<Rightarrow> 'm) \<Rightarrow> nat \<Rightarrow> cis \<Rightarrow> 'm \<Rightarrow> 'm parse_next" where
  "handle_unusual W unk put_unk tag inp m =
     (if tag = 0 \<or> GetTagWireType tag = WIRETYPE_END_GROUP then Ends True inp m
      else (let (ok, u, r) = SkipField W (avail inp) tag (mutable_unknown W (unk m));
                m = put_unk u m
            in if ok then Goto Top (inp\<lparr>avail := r\<rparr>) m else Ends False inp m))"

text \<open>
  The head of the loop with its \<open>switch\<close>: the cases are the pairs of field number and tag; a
  case whose tag does not match goes to \<open>handle_unusual\<close> too.
\<close>

definition switch_tag ::
  "'u wire \<Rightarrow> (nat \<times> nat) list \<Rightarrow> ('m \<Rightarrow> 'u option) \<Rightarrow> ('u \<Rightarrow> 'm \<Rightarrow> 'm) \<Rightarrow> cis \<Rightarrow> 'm \<Rightarrow> 'm parse_next" where
  "switch_tag W cases unk put_unk inp m =
     (let ((tag, below), r) = ReadTagWithCutoff W 127 (avail inp);
          inp = inp\<lparr>avail := r\<rparr>
      in if \<not> below then handle_unusual W unk put_unk tag inp m
         else if (GetTagFieldNumber tag, tag) \<in> set cases then Goto (Parse (GetTagFieldNumber tag)) inp m
         else handle_unusual W unk put_unk tag inp m)"

section \<open>What the library documents\<close>

text \<open>
  For field numbers up to 15 a tag takes one byte, so with the cutoff of 127 each tag of these
  messages is reported as below it.  What a writer writes, \<open>ReadTag\<close> and the reader of its type
  read back; a size function gives the length written, without the tag's byte.  \<open>ExpectTag\<close> and
  \<open>ExpectAtEnd\<close> may say no at any time, and say yes only if \<open>ReadTag\<close> would find that tag, or the
  end.
\<close>

definition reads_message :: "'u wire \<Rightarrow> ('s merger \<Rightarrow> 's merger) \<Rightarrow> bool" where
  "reads_message W rm \<longleftrightarrow>
     (\<forall>n bs rest merge dp m m'. 1 \<le> n \<longrightarrow> n \<le> 15 \<longrightarrow> length bs < 2 ^ 31 \<longrightarrow> 0 < dp \<longrightarrow>
        (\<forall>d\<ge>dp - 1. merge \<lparr>avail = bs, depth = d\<rparr> m = Some (True, \<lparr>avail = [], depth = d\<rparr>, m')) \<longrightarrow>
        (\<exists>r. ReadTagWithCutoff W 127 (WriteMessage W n (int (length bs)) bs @ rest) = ((8 * n + 2, True), r) \<and>
           rm merge \<lparr>avail = r, depth = dp\<rparr> m = Some (True, \<lparr>avail = rest, depth = dp\<rparr>, m')))"

text \<open>
  A function that reads a submessage returns if the parser it calls does, and then has consumed
  something if it succeeded.
\<close>

definition returns_message :: "('s merger \<Rightarrow> 's merger) \<Rightarrow> bool" where
  "returns_message rm \<longleftrightarrow>
     (\<forall>merge inp m. (\<forall>inp' m'. merge inp' m' \<noteq> None) \<longrightarrow>
        (\<exists>ok inp' m'. rm merge inp m = Some (ok, inp', m') \<and> (ok \<longrightarrow> length (avail inp') < length (avail inp))))"

locale wire_laws =
  fixes W :: "'u wire"
  assumes expect_tag: "ExpectTag W t inp = Some r \<Longrightarrow> ReadTagWithCutoff W 127 inp = ((t, True), r)"
    and expect_end: "ExpectAtEnd W inp \<Longrightarrow> inp = []"
    and tag_end: "ReadTagWithCutoff W 127 [] = ((0, False), [])"
    and int64: "1 \<le> n \<Longrightarrow> n \<le> 15 \<Longrightarrow>
      \<exists>r. ReadTagWithCutoff W 127 (WriteInt64 W n v @ rest) = ((8 * n, True), r) \<and> ReadInt64 W r = Some (v, rest)"
    and int32: "1 \<le> n \<Longrightarrow> n \<le> 15 \<Longrightarrow>
      \<exists>r. ReadTagWithCutoff W 127 (WriteInt32 W n i @ rest) = ((8 * n, True), r) \<and> ReadInt32 W r = Some (i, rest)"
    and bool: "1 \<le> n \<Longrightarrow> n \<le> 15 \<Longrightarrow>
      \<exists>r. ReadTagWithCutoff W 127 (WriteBool W n b @ rest) = ((8 * n, True), r) \<and> ReadBool W r = Some (b, rest)"
    and str: "1 \<le> n \<Longrightarrow> n \<le> 15 \<Longrightarrow> length s < 2 ^ 31 \<Longrightarrow>
      \<exists>r. ReadTagWithCutoff W 127 (WriteString W n s @ rest) = ((8 * n + 2, True), r) \<and>
        ReadString W r old = (True, s, rest)"
    and bytes: "1 \<le> n \<Longrightarrow> n \<le> 15 \<Longrightarrow> length s < 2 ^ 31 \<Longrightarrow>
      \<exists>r. ReadTagWithCutoff W 127 (WriteBytes W n s @ rest) = ((8 * n + 2, True), r) \<and>
        ReadBytes W r old = (True, s, rest)"
    and tag_shrinks: "ReadTagWithCutoff W 127 inp = ((t, below), r) \<Longrightarrow> t \<noteq> 0 \<Longrightarrow> length r < length inp"
    and int64_shrinks: "ReadInt64 W inp = Some (v, r) \<Longrightarrow> length r < length inp"
    and int32_shrinks: "ReadInt32 W inp = Some (i, r) \<Longrightarrow> length r < length inp"
    and bool_shrinks: "ReadBool W inp = Some (b, r) \<Longrightarrow> length r < length inp"
    and str_shrinks: "ReadString W inp old = (True, s, r) \<Longrightarrow> length r < length inp"
    and bytes_shrinks: "ReadBytes W inp old = (True, s, r) \<Longrightarrow> length r < length inp"
    and skip_shrinks: "SkipField W inp t u = (True, u', r) \<Longrightarrow> length r \<le> length inp"
    and len_int64: "1 \<le> n \<Longrightarrow> n \<le> 15 \<Longrightarrow> int (length (WriteInt64 W n v)) = 1 + Int64Size W v"
    and len_int32: "1 \<le> n \<Longrightarrow> n \<le> 15 \<Longrightarrow> int (length (WriteInt32 W n i)) = 1 + Int32Size W i"
    and len_bool: "1 \<le> n \<Longrightarrow> n \<le> 15 \<Longrightarrow> length (WriteBool W n b) = 2"
    and len_str: "1 \<le> n \<Longrightarrow> n \<le> 15 \<Longrightarrow> length s < 2 ^ 31 \<Longrightarrow>
      int (length (WriteString W n s)) = 1 + StringSize W s"
    and len_bytes: "1 \<le> n \<Longrightarrow> n \<le> 15 \<Longrightarrow> length s < 2 ^ 31 \<Longrightarrow>
      int (length (WriteBytes W n s)) = 1 + BytesSize W s"
    and len_message: "1 \<le> n \<Longrightarrow> n \<le> 15 \<Longrightarrow> length s < 2 ^ 31 \<Longrightarrow>
      int (length (WriteMessage W n (int (length s)) s)) = 1 + LengthDelimitedSize W (int (length s))"
    and len_unknown: "int (length (SerializeUnknownFields W u)) = ComputeUnknownFieldsSize W u"
begin

lemma len_unknown_bytes: "int (length (unknown_bytes W u)) = unknown_size W u"
  by (cases u) (simp_all add: unknown_bytes_def unknown_size_def len_unknown)

end

section \<open>Running a parser over what was written\<close>

text \<open>How the run goes on after a step.\<close>

definition go_on :: "'m parse_step \<Rightarrow> 'm parse_next \<Rightarrow> (bool \<times> cis \<times> 'm) option" where
  "go_on step x =
     (case x of Goto p inp m \<Rightarrow> merge_run step p inp m | Ends ok inp m \<Rightarrow> Some (ok, inp, m) | Diverges \<Rightarrow> None)"

lemma run_go_on: "merge_run step p inp m = go_on step (step p inp m)"
  by (subst merge_run.simps) (simp add: go_on_def)

lemma go_on_simps [simp]:
  "go_on step (Goto p inp m) = merge_run step p inp m" "go_on step (Ends ok inp m) = Some (ok, inp, m)"
  "go_on step Diverges = None"
  by (simp_all add: go_on_def)

context wire_laws begin

lemma run_end:
  assumes "step Top \<lparr>avail = [], depth = d\<rparr> m = switch_tag W cases unk put_unk \<lparr>avail = [], depth = d\<rparr> m"
  shows "merge_run step Top \<lparr>avail = [], depth = d\<rparr> m = Some (True, \<lparr>avail = [], depth = d\<rparr>, m)"
  unfolding run_go_on assms by (simp add: switch_tag_def tag_end handle_unusual_def)

text \<open>
  Whether \<open>ExpectTag\<close> or \<open>ExpectAtEnd\<close> shortcut the loop or not, the run goes on as from \<open>Top\<close>.
\<close>

definition top_is :: "'m parse_step \<Rightarrow> (nat \<times> nat) list \<Rightarrow> bool" where
  "top_is step cases \<longleftrightarrow> (\<exists>unk put_unk. \<forall>inp m. step Top inp m = switch_tag W cases unk put_unk inp m)"

definition follow_ok :: "(nat \<times> nat) list \<Rightarrow> follow \<Rightarrow> bool" where
  "follow_ok cases f \<longleftrightarrow>
     (case f of NextTag t p \<Rightarrow> (GetTagFieldNumber t, t) \<in> set cases \<and> p = Parse (GetTagFieldNumber t) | AtEnd \<Rightarrow> True)"

lemma run_tag:
  assumes "top_is step cases" and "ReadTagWithCutoff W 127 inp = ((t, True), r)"
    and "(GetTagFieldNumber t, t) \<in> set cases"
  shows "merge_run step Top \<lparr>avail = inp, depth = d\<rparr> m =
    merge_run step (Parse (GetTagFieldNumber t)) \<lparr>avail = r, depth = d\<rparr> m"
  using assms by (subst run_go_on) (auto simp: top_is_def switch_tag_def)

lemma run_after:
  assumes "top_is step cases" and "follow_ok cases f"
  shows "go_on step (after W f \<lparr>avail = a, depth = d\<rparr> m) = merge_run step Top \<lparr>avail = a, depth = d\<rparr> m"
proof (cases f)
  case (NextTag t p)
  show ?thesis
  proof (cases "ExpectTag W t a")
    case None
    with NextTag show ?thesis by (simp add: after_def)
  next
    case (Some r)
    with run_tag [OF assms(1) expect_tag [OF Some]] assms(2) NextTag show ?thesis
      by (simp add: after_def follow_ok_def)
  qed
next
  case AtEnd
  show ?thesis
  proof (cases "ExpectAtEnd W a")
    case True
    then have "a = []" by (rule expect_end)
    with AtEnd True assms(1) show ?thesis
      by (auto simp: after_def top_is_def intro: run_end [symmetric])
  qed (simp add: AtEnd after_def)
qed

text \<open>One written field, read at \<open>Top\<close>.\<close>

lemma run_prim:
  assumes "top_is step cases" and "follow_ok cases f" and "(n, 8 * n) \<in> set cases"
    and "\<And>inp m. step (Parse n) inp m = read_prim W rdr put set_has f inp m"
    and "\<exists>r. ReadTagWithCutoff W 127 (bs @ rest) = ((8 * n, True), r) \<and> rdr r = Some (v, rest)"
  shows "merge_run step Top \<lparr>avail = bs @ rest, depth = d\<rparr> m =
    merge_run step Top \<lparr>avail = rest, depth = d\<rparr> (set_has (put v m))"
proof -
  obtain r where r: "ReadTagWithCutoff W 127 (bs @ rest) = ((8 * n, True), r)" "rdr r = Some (v, rest)"
    using assms(5) by blast
  have n: "GetTagFieldNumber (8 * n) = n" by (simp add: GetTagFieldNumber_def)
  have "merge_run step Top \<lparr>avail = bs @ rest, depth = d\<rparr> m = merge_run step (Parse n) \<lparr>avail = r, depth = d\<rparr> m"
    by (rule run_tag [OF assms(1) r(1), unfolded n, OF assms(3)])
  also have "\<dots> = go_on step (after W f \<lparr>avail = rest, depth = d\<rparr> (set_has (put v m)))"
    by (subst run_go_on) (simp add: assms(4) read_prim_def r(2))
  finally show ?thesis by (simp add: run_after [OF assms(1,2)])
qed

lemma run_str:
  assumes "top_is step cases" and "follow_ok cases f" and "(n, 8 * n + 2) \<in> set cases"
    and "\<And>inp m. step (Parse n) inp m = read_str W rdr get put set_has f inp m"
    and "\<And>old. \<exists>r. ReadTagWithCutoff W 127 (bs @ rest) = ((8 * n + 2, True), r) \<and> rdr r old = (True, v, rest)"
  shows "merge_run step Top \<lparr>avail = bs @ rest, depth = d\<rparr> m =
    merge_run step Top \<lparr>avail = rest, depth = d\<rparr> (put v (set_has m))"
proof -
  obtain r where r: "ReadTagWithCutoff W 127 (bs @ rest) = ((8 * n + 2, True), r)"
    "rdr r (get (set_has m)) = (True, v, rest)"
    using assms(5) [of "get (set_has m)"] by blast
  have n: "GetTagFieldNumber (8 * n + 2) = n" by (simp add: GetTagFieldNumber_def)
  have "merge_run step Top \<lparr>avail = bs @ rest, depth = d\<rparr> m = merge_run step (Parse n) \<lparr>avail = r, depth = d\<rparr> m"
    by (rule run_tag [OF assms(1) r(1), unfolded n, OF assms(3)])
  also have "\<dots> = go_on step (after W f \<lparr>avail = rest, depth = d\<rparr> (put v (set_has m)))"
    by (subst run_go_on) (simp add: assms(4) read_str_def r(2) Let_def)
  finally show ?thesis by (simp add: run_after [OF assms(1,2)])
qed

lemma run_sub:
  assumes "top_is step cases" and "follow_ok cases f" and "(n, 8 * n + 2) \<in> set cases"
    and "\<And>inp m. step (Parse n) inp m = read_sub W rm merge mutable put f inp m"
    and "reads_message W rm" and "1 \<le> n" and "n \<le> 15" and "length bs < 2 ^ 31" and "0 < d"
    and "\<And>d'. d' \<ge> d - 1 \<Longrightarrow> merge \<lparr>avail = bs, depth = d'\<rparr> (mutable m) = Some (True, \<lparr>avail = [], depth = d'\<rparr>, s)"
  shows "merge_run step Top \<lparr>avail = WriteMessage W n (int (length bs)) bs @ rest, depth = d\<rparr> m =
    merge_run step Top \<lparr>avail = rest, depth = d\<rparr> (put s m)"
proof -
  obtain r where r: "ReadTagWithCutoff W 127 (WriteMessage W n (int (length bs)) bs @ rest) = ((8 * n + 2, True), r)"
    "rm merge \<lparr>avail = r, depth = d\<rparr> (mutable m) = Some (True, \<lparr>avail = rest, depth = d\<rparr>, s)"
    using assms(5) [unfolded reads_message_def, rule_format, OF assms(6-9), of merge "mutable m" s rest]
      assms(10) by blast
  have n: "GetTagFieldNumber (8 * n + 2) = n" by (simp add: GetTagFieldNumber_def)
  have "merge_run step Top \<lparr>avail = WriteMessage W n (int (length bs)) bs @ rest, depth = d\<rparr> m =
      merge_run step (Parse n) \<lparr>avail = r, depth = d\<rparr> m"
    by (rule run_tag [OF assms(1) r(1), unfolded n, OF assms(3)])
  also have "\<dots> = go_on step (after W f \<lparr>avail = rest, depth = d\<rparr> (put s m))"
    by (subst run_go_on) (simp add: assms(4) read_sub_def r(2))
  finally show ?thesis by (simp add: run_after [OF assms(1,2)])
qed

end

section \<open>Parsers return\<close>

fun parse_rank :: "pc \<Rightarrow> cis \<Rightarrow> nat" where
  "parse_rank (Parse n) inp = 2 * length (avail inp) + 1"
| "parse_rank p inp = 2 * length (avail inp)"

lemma run_returns:
  assumes "\<And>p inp m p' inp' m'. step p inp m = Goto p' inp' m' \<Longrightarrow> parse_rank p' inp' < parse_rank p inp"
    and "\<And>p inp m. step p inp m \<noteq> Diverges"
  shows "merge_run step p inp m \<noteq> None"
proof (induction "parse_rank p inp" arbitrary: p inp m rule: less_induct)
  case less
  show ?case
  proof (cases "step p inp m")
    case (Goto p' inp' m')
    with less assms(1) [OF Goto] show ?thesis by (simp add: run_go_on [of step p])
  next
    case (Ends ok inp' m')
    then show ?thesis by (simp add: run_go_on [of step p])
  next
    case Diverges
    with assms(2) show ?thesis by blast
  qed
qed

definition follow_pos :: "follow \<Rightarrow> bool" where
  "follow_pos f \<longleftrightarrow> (case f of NextTag t p \<Rightarrow> t \<noteq> 0 | AtEnd \<Rightarrow> True)"

lemma no_Diverges:
  "after W f inp m \<noteq> Diverges" "read_prim W rdr put set_has f inp m \<noteq> Diverges"
  "read_str W rds get put_str set_has f inp m \<noteq> Diverges" "handle_unusual W unk put_unk tag inp m \<noteq> Diverges"
  "switch_tag W cases unk put_unk inp m \<noteq> Diverges"
  by (auto simp: after_def read_prim_def read_str_def handle_unusual_def switch_tag_def Let_def
      split: follow.splits option.splits prod.splits)

lemma read_sub_no_Diverges:
  assumes "returns_message rm" and "\<And>inp m. merge inp m \<noteq> None"
  shows "read_sub W rm merge mutable put f inp m \<noteq> Diverges"
proof -
  obtain ok inp' m' where "rm merge inp (mutable m) = Some (ok, inp', m')"
    using assms unfolding returns_message_def by meson
  then show ?thesis by (simp add: read_sub_def no_Diverges Let_def)
qed

lemma parse_rank_le: "parse_rank p inp \<le> 2 * length (avail inp) + 1"
  by (cases p) simp_all

context wire_laws begin

lemma after_rank:
  assumes "after W f inp m = Goto p' inp' m'" and "follow_pos f"
  shows "parse_rank p' inp' \<le> 2 * length (avail inp)"
proof (cases f)
  case (NextTag t p)
  show ?thesis
  proof (cases "ExpectTag W t (avail inp)")
    case None
    with assms(1) NextTag show ?thesis by (auto simp: after_def)
  next
    case (Some r)
    with NextTag assms have "length r < length (avail inp)"
      by (auto simp: follow_pos_def intro: tag_shrinks [OF expect_tag])
    moreover have "inp' = inp\<lparr>avail := r\<rparr>" using assms(1) NextTag Some by (simp add: after_def)
    ultimately show ?thesis using parse_rank_le [of p' inp'] by simp
  qed
next
  case AtEnd
  with assms(1) show ?thesis by (auto simp: after_def split: if_splits)
qed

lemma after_rank_less:
  assumes "after W f inp2 m = Goto p' inp' m'" and "follow_pos f" and "length (avail inp2) < length (avail inp)"
  shows "parse_rank p' inp' < 2 * length (avail inp)"
  using after_rank [OF assms(1,2)] assms(3) by linarith

lemma read_prim_rank:
  assumes "read_prim W rdr put set_has f inp m = Goto p' inp' m'" and "follow_pos f"
    and "\<And>a v r. rdr a = Some (v, r) \<Longrightarrow> length r < length a"
  shows "parse_rank p' inp' < 2 * length (avail inp)"
  using assms(1) by (auto simp: read_prim_def split: option.splits
      intro!: after_rank_less [OF _ assms(2)] assms(3))

lemma read_str_rank:
  assumes "read_str W rdr get put set_has f inp m = Goto p' inp' m'" and "follow_pos f"
    and "\<And>a old s r. rdr a old = (True, s, r) \<Longrightarrow> length r < length a"
  shows "parse_rank p' inp' < 2 * length (avail inp)"
  using assms(1) by (auto simp: read_str_def Let_def split: prod.splits if_splits
      intro!: after_rank_less [OF _ assms(2)] assms(3))

lemmas prim_ranks =
  read_prim_rank [where rdr = "ReadInt64 W", OF _ _ int64_shrinks]
  read_prim_rank [where rdr = "ReadInt32 W", OF _ _ int32_shrinks]
  read_prim_rank [where rdr = "ReadBool W", OF _ _ bool_shrinks]

lemmas str_ranks =
  read_str_rank [where rdr = "ReadString W", OF _ _ str_shrinks]
  read_str_rank [where rdr = "ReadBytes W", OF _ _ bytes_shrinks]

lemma read_sub_rank:
  assumes "read_sub W rm merge mutable put f inp m = Goto p' inp' m'" and "follow_pos f"
    and "returns_message rm" and "\<And>inp m. merge inp m \<noteq> None"
  shows "parse_rank p' inp' < 2 * length (avail inp)"
proof -
  obtain ok i s where r: "rm merge inp (mutable m) = Some (ok, i, s)" "ok \<longrightarrow> length (avail i) < length (avail inp)"
    using assms(3,4) unfolding returns_message_def by meson
  with assms(1,2) show ?thesis
    by (auto simp: read_sub_def Let_def split: if_splits intro: after_rank_less)
qed

lemma switch_rank:
  assumes "switch_tag W cases unk put_unk inp m = Goto p' inp' m'" and "\<forall>(n, t)\<in>set cases. t \<noteq> 0"
  shows "parse_rank p' inp' < 2 * length (avail inp)"
proof -
  obtain t below r where r: "ReadTagWithCutoff W 127 (avail inp) = ((t, below), r)"
    by (metis surj_pair)
  have "t \<noteq> 0 \<and> length (avail inp') \<le> length r"
    using assms r
    by (auto simp: switch_tag_def handle_unusual_def Let_def split: if_splits prod.splits dest: skip_shrinks)
  with tag_shrinks [OF r] parse_rank_le [of p' inp'] show ?thesis by linarith
qed

end

section \<open>Has-bits\<close>

lemma flag_bit [byte_simps]:
  "w AND 1 = 0 \<longleftrightarrow> \<not> bit (w :: int32) 0" "w AND 2 = 0 \<longleftrightarrow> \<not> bit w 1"
  "w AND 4 = 0 \<longleftrightarrow> \<not> bit w 2" "w AND 8 = 0 \<longleftrightarrow> \<not> bit w 3"
  "w AND 16 = 0 \<longleftrightarrow> \<not> bit w 4" "w AND 32 = 0 \<longleftrightarrow> \<not> bit w 5"
  "w AND 64 = 0 \<longleftrightarrow> \<not> bit w 6" "w AND 128 = 0 \<longleftrightarrow> \<not> bit w 7"
  "w AND 512 = 0 \<longleftrightarrow> \<not> bit w 9"
  using and_exp_eq_0_iff_not_bit [of w 0] and_exp_eq_0_iff_not_bit [of w 1] and_exp_eq_0_iff_not_bit [of w 2]
    and_exp_eq_0_iff_not_bit [of w 3] and_exp_eq_0_iff_not_bit [of w 4] and_exp_eq_0_iff_not_bit [of w 5]
    and_exp_eq_0_iff_not_bit [of w 6] and_exp_eq_0_iff_not_bit [of w 7] and_exp_eq_0_iff_not_bit [of w 9]
  by simp_all

lemma xor_zero_iff [byte_simps]: "(a :: int32) XOR b = 0 \<longleftrightarrow> a = b"
proof
  assume "a XOR b = 0"
  then have "(a XOR b) XOR b = 0 XOR b" by simp
  then show "a = b" by (simp add: ac_simps)
qed simp

lemma and_mask_mask: "w AND mask k = mask k \<longleftrightarrow> (\<forall>n<min k 32. bit (w :: int32) n)"
  by (auto simp: bit_eq_iff bit_and_iff bit_mask_iff)

lemma all_less_numerals:
  "(\<forall>n<(1::nat). P n) \<longleftrightarrow> P 0" "(\<forall>n<(2::nat). P n) \<longleftrightarrow> P 0 \<and> P 1"
  "(\<forall>n<(3::nat). P n) \<longleftrightarrow> P 0 \<and> P 1 \<and> P 2"
  "(\<forall>n<(5::nat). P n) \<longleftrightarrow> P 0 \<and> P 1 \<and> P 2 \<and> P 3 \<and> P 4"
  "(\<forall>n<(6::nat). P n) \<longleftrightarrow> P 0 \<and> P 1 \<and> P 2 \<and> P 3 \<and> P 4 \<and> P 5"
  "(\<forall>n<(8::nat). P n) \<longleftrightarrow> P 0 \<and> P 1 \<and> P 2 \<and> P 3 \<and> P 4 \<and> P 5 \<and> P 6 \<and> P 7"
  by (auto simp: numeral_eq_Suc All_less_Suc)

lemma all_flags_1 [byte_simps]: "w AND 1 = 1 \<longleftrightarrow> bit (w :: int32) 0"
  using and_mask_mask [of w 1] by (simp add: all_less_numerals mask_eq_exp_minus_1)

lemma all_flags_2 [byte_simps]: "w AND 3 = 3 \<longleftrightarrow> bit (w :: int32) 0 \<and> bit w 1"
  using and_mask_mask [of w 2] by (simp add: all_less_numerals mask_eq_exp_minus_1)

lemma all_flags_3 [byte_simps]: "w AND 7 = 7 \<longleftrightarrow> bit (w :: int32) 0 \<and> bit w 1 \<and> bit w 2"
  using and_mask_mask [of w 3] by (simp add: all_less_numerals mask_eq_exp_minus_1)

lemma all_flags_5 [byte_simps]:
  "w AND 31 = 31 \<longleftrightarrow> bit (w :: int32) 0 \<and> bit w 1 \<and> bit w 2 \<and> bit w 3 \<and> bit w 4"
  using and_mask_mask [of w 5] by (simp add: all_less_numerals mask_eq_exp_minus_1)

lemma all_flags_8 [byte_simps]:
  "w AND 255 = 255 \<longleftrightarrow> bit (w :: int32) 0 \<and> bit w 1 \<and> bit w 2 \<and> bit w 3 \<and> bit w 4 \<and> bit w 5 \<and>
     bit w 6 \<and> bit w 7"
  using and_mask_mask [of w 8] by (simp add: all_less_numerals mask_eq_exp_minus_1)

lemma and_mask_zero: "w AND mask k = 0 \<longleftrightarrow> (\<forall>n<min k 32. \<not> bit (w :: int32) n)"
  by (auto simp: bit_eq_iff bit_and_iff bit_mask_iff)

lemma no_flags_2 [byte_simps]: "w AND 3 = 0 \<longleftrightarrow> \<not> bit (w :: int32) 0 \<and> \<not> bit w 1"
  using and_mask_zero [of w 2] by (simp add: all_less_numerals mask_eq_exp_minus_1)

lemma no_flags_3 [byte_simps]: "w AND 7 = 0 \<longleftrightarrow> \<not> bit (w :: int32) 0 \<and> \<not> bit w 1 \<and> \<not> bit w 2"
  using and_mask_zero [of w 3] by (simp add: all_less_numerals mask_eq_exp_minus_1)

lemma no_flags_6 [byte_simps]:
  "w AND 63 = 0 \<longleftrightarrow> \<not> bit (w :: int32) 0 \<and> \<not> bit w 1 \<and> \<not> bit w 2 \<and> \<not> bit w 3 \<and> \<not> bit w 4 \<and> \<not> bit w 5"
  using and_mask_zero [of w 6] by (simp add: all_less_numerals mask_eq_exp_minus_1)

lemma no_flags_8 [byte_simps]:
  "w AND 255 = 0 \<longleftrightarrow> \<not> bit (w :: int32) 0 \<and> \<not> bit w 1 \<and> \<not> bit w 2 \<and> \<not> bit w 3 \<and> \<not> bit w 4 \<and>
     \<not> bit w 5 \<and> \<not> bit w 6 \<and> \<not> bit w 7"
  using and_mask_zero [of w 8] by (simp add: all_less_numerals mask_eq_exp_minus_1)

text \<open>A word with known bits only is the sum of its flags.\<close>

definition flags :: "(nat \<Rightarrow> bool) \<Rightarrow> int32" where
  "flags P = of_bool (P 0) OR push_bit 1 (of_bool (P 1)) OR push_bit 2 (of_bool (P 2)) OR
     push_bit 3 (of_bool (P 3)) OR push_bit 4 (of_bool (P 4)) OR push_bit 5 (of_bool (P 5)) OR
     push_bit 6 (of_bool (P 6)) OR push_bit 7 (of_bool (P 7)) OR push_bit 8 (of_bool (P 8)) OR
     push_bit 9 (of_bool (P 9))"

lemma bit_flags: "bit (flags P) n \<longleftrightarrow> n < 10 \<and> P n"
proof (cases "n < 10")
  case True
  then have "n = 0 \<or> n = 1 \<or> n = 2 \<or> n = 3 \<or> n = 4 \<or> n = 5 \<or> n = 6 \<or> n = 7 \<or> n = 8 \<or> n = 9"
    by arith
  then show ?thesis
    by (elim disjE) (simp_all add: flags_def bit_or_iff bit_push_bit_iff bit_of_bool_iff)
next
  case False
  then show ?thesis
    unfolding flags_def bit_or_iff bit_push_bit_iff bit_of_bool_iff by auto
qed

lemma known_bits:
  assumes "\<forall>n. bit (w :: int32) n \<longrightarrow> n < k" and "k \<le> 10"
  shows "w = flags (bit w)"
  using assms by (intro bit_word_eqI) (auto simp: bit_flags intro: less_le_trans)

lemma no_flag_above: "\<forall>n. bit (w :: int32) n \<longrightarrow> n < k \<Longrightarrow> k \<le> j \<Longrightarrow> \<not> bit w j"
  by (meson not_less)

end
