(* ===== verification/WireStd.thy ===== *)
theory WireStd
  imports WireFormat
begin

text \<open>
  An executable implementation of the wire format with the documented behaviour, from the
  encoding documentation: base-128 varints, tags \<open>8 * field + type\<close>, length-delimited strings and
  messages, 32-bit values sign-extended to 64 bits.  It shows that the laws of \<open>wire_laws\<close> can
  hold, and lets the generated classes' model be evaluated.
\<close>

section \<open>Varints\<close>

function enc_varint :: "nat \<Rightarrow> byte list" where
  "enc_varint v = (if v < 128 then [word_of_nat v] else word_of_nat (v mod 128 + 128) # enc_varint (v div 128))"
  by pat_completeness auto
termination
  by (relation "measure id") auto

declare enc_varint.simps [simp del]

fun dec_varint :: "nat \<Rightarrow> byte list \<Rightarrow> (nat \<times> byte list) option" where
  "dec_varint 0 bs = None"
| "dec_varint (Suc k) [] = None"
| "dec_varint (Suc k) (b # bs) =
     (if unat b < 128 then Some (unat b, bs)
      else (case dec_varint k bs of None \<Rightarrow> None | Some (v, r) \<Rightarrow> Some (unat b - 128 + 128 * v, r)))"

lemma unat_byte: "n < 256 \<Longrightarrow> unat (word_of_nat n :: byte) = n"
  by (simp add: unat_of_nat)

lemma dec_enc_varint: "v < 128 ^ k \<Longrightarrow> 0 < k \<Longrightarrow> dec_varint k (enc_varint v @ rest) = Some (v, rest)"
proof (induction k arbitrary: v)
  case (Suc k)
  show ?case
  proof (cases "v < 128")
    case True
    then show ?thesis by (simp add: enc_varint.simps [of v] unat_byte)
  next
    case False
    have "v div 128 < 128 ^ k" using Suc.prems by (simp add: less_mult_imp_div_less mult.commute)
    moreover have "0 < k" using False Suc.prems by (cases k) auto
    ultimately have "dec_varint k (enc_varint (v div 128) @ rest) = Some (v div 128, rest)"
      by (rule Suc.IH)
    moreover have "unat (word_of_nat (v mod 128 + 128) :: byte) = v mod 128 + 128"
      by (rule unat_byte) simp
    ultimately show ?thesis using False by (simp add: enc_varint.simps [of v] del: of_nat_add)
  qed
qed simp

lemma dec_varint_shrinks: "dec_varint k bs = Some (v, r) \<Longrightarrow> length r < length bs"
  by (induction k bs arbitrary: v r rule: dec_varint.induct) (auto split: if_splits option.splits)

lemma dec_varint_small: "t < 128 \<Longrightarrow> dec_varint 10 (word_of_nat t # bs) = Some (t, bs)"
  by (simp add: numeral_eq_Suc unat_byte)

section \<open>The library\<close>

definition std_tag :: "nat \<Rightarrow> nat \<Rightarrow> byte list" where
  "std_tag n ty = enc_varint (8 * n + ty)"

definition std_ReadTag :: "nat \<Rightarrow> byte list \<Rightarrow> (nat \<times> bool) \<times> byte list" where
  "std_ReadTag cutoff bs =
     (case dec_varint 10 bs of
        None \<Rightarrow> ((0, False), bs)
      | Some (t, r) \<Rightarrow> ((t, t \<noteq> 0 \<and> t \<le> cutoff), r))"

definition std_ExpectTag :: "nat \<Rightarrow> byte list \<Rightarrow> byte list option" where
  "std_ExpectTag t bs = (case std_ReadTag 127 bs of ((t', ok), r) \<Rightarrow> if ok \<and> t' = t then Some r else None)"

definition std_ReadInt64 :: "byte list \<Rightarrow> (int64 \<times> byte list) option" where
  "std_ReadInt64 bs = map_option (\<lambda>(v, r). (word_of_nat v, r)) (dec_varint 10 bs)"

definition std_ReadInt32 :: "byte list \<Rightarrow> (int32 \<times> byte list) option" where
  "std_ReadInt32 bs = map_option (\<lambda>(v, r). (ucast (word_of_nat v :: int64), r)) (dec_varint 10 bs)"

definition std_ReadBool :: "byte list \<Rightarrow> (bool \<times> byte list) option" where
  "std_ReadBool bs = map_option (\<lambda>(v, r). (v \<noteq> 0, r)) (dec_varint 10 bs)"

definition std_ReadString :: "byte list \<Rightarrow> byte list \<Rightarrow> bool \<times> byte list \<times> byte list" where
  "std_ReadString bs old =
     (case dec_varint 10 bs of
        None \<Rightarrow> (False, old, bs)
      | Some (n, r) \<Rightarrow> if n \<le> length r then (True, take n r, drop n r) else (False, old, r))"

definition std_Int64Size :: "int64 \<Rightarrow> int" where
  "std_Int64Size v = int (length (enc_varint (unat v)))"

definition std_Int32Size :: "int32 \<Rightarrow> int" where
  "std_Int32Size i = std_Int64Size (scast i)"

definition std_LengthDelimitedSize :: "int \<Rightarrow> int" where
  "std_LengthDelimitedSize n = int (length (enc_varint (nat n))) + n"

definition std_WriteString :: "nat \<Rightarrow> byte list \<Rightarrow> byte list" where
  "std_WriteString n s = std_tag n 2 @ enc_varint (length s) @ s"

definition std_SkipField :: "byte list \<Rightarrow> nat \<Rightarrow> byte list \<Rightarrow> bool \<times> byte list \<times> byte list" where
  "std_SkipField bs tag u =
     (if tag mod 8 = 0
      then (case dec_varint 10 bs of
              None \<Rightarrow> (False, u, bs)
            | Some (v, r) \<Rightarrow> (True, u @ enc_varint tag @ enc_varint v, r))
      else if tag mod 8 = 2
      then (case std_ReadString bs [] of
              (ok, s, r) \<Rightarrow> (ok, if ok then u @ enc_varint tag @ enc_varint (length s) @ s else u, r))
      else if tag mod 8 = 1 \<and> 8 \<le> length bs then (True, u @ enc_varint tag @ take 8 bs, drop 8 bs)
      else if tag mod 8 = 5 \<and> 4 \<le> length bs then (True, u @ enc_varint tag @ take 4 bs, drop 4 bs)
      else (False, u, bs))"

definition std_wire :: "byte list wire" where
  "std_wire =
     \<lparr>ReadTagWithCutoff = std_ReadTag, ExpectTag = std_ExpectTag, ExpectAtEnd = (\<lambda>bs. bs = []),
      ReadInt64 = std_ReadInt64, ReadInt32 = std_ReadInt32, ReadBool = std_ReadBool,
      ReadString = std_ReadString, ReadBytes = std_ReadString, SkipField = std_SkipField,
      WriteInt64 = (\<lambda>n v. std_tag n 0 @ enc_varint (unat v)),
      WriteInt32 = (\<lambda>n i. std_tag n 0 @ enc_varint (unat (scast i :: int64))),
      WriteBool = (\<lambda>n b. std_tag n 0 @ [of_bool b]),
      WriteString = std_WriteString, WriteBytes = std_WriteString,
      WriteMessage = (\<lambda>n sz bs. std_tag n 2 @ enc_varint (nat sz) @ bs),
      Int64Size = std_Int64Size, Int32Size = std_Int32Size,
      StringSize = (\<lambda>s. std_LengthDelimitedSize (int (length s))),
      BytesSize = (\<lambda>s. std_LengthDelimitedSize (int (length s))),
      LengthDelimitedSize = std_LengthDelimitedSize,
      NewUnknown = [], ClearUnknown = (\<lambda>_. []), MergeUnknown = (@), SerializeUnknownFields = id,
      ComputeUnknownFieldsSize = (\<lambda>u. int (length u))\<rparr>"

definition std_ReadMessage :: "'s merger \<Rightarrow> 's merger" where
  "std_ReadMessage merge inp m =
     (case dec_varint 10 (avail inp) of
        None \<Rightarrow> Some (False, inp, m)
      | Some (n, r) \<Rightarrow>
          if length r < n \<or> depth inp = 0 then Some (False, inp\<lparr>avail := r\<rparr>, m)
          else (case merge \<lparr>avail = take n r, depth = depth inp - 1\<rparr> m of
                  None \<Rightarrow> None
                | Some (ok, inp', m') \<Rightarrow>
                    Some (ok \<and> avail inp' = [], \<lparr>avail = drop n r, depth = depth inp\<rparr>, m')))"

text \<open>Without the recursion depth: the caller has accounted for it.\<close>

definition std_ReadMessageNoRecursionDepth :: "'s merger \<Rightarrow> 's merger" where
  "std_ReadMessageNoRecursionDepth merge inp m =
     (case dec_varint 10 (avail inp) of
        None \<Rightarrow> Some (False, inp, m)
      | Some (n, r) \<Rightarrow>
          if length r < n then Some (False, inp\<lparr>avail := r\<rparr>, m)
          else (case merge \<lparr>avail = take n r, depth = depth inp\<rparr> m of
                  None \<Rightarrow> None
                | Some (ok, inp', m') \<Rightarrow>
                    Some (ok \<and> avail inp' = [], \<lparr>avail = drop n r, depth = depth inp\<rparr>, m')))"

section \<open>It has the documented behaviour\<close>

lemma std_tag_eq: "n \<le> 15 \<Longrightarrow> ty < 8 \<Longrightarrow> std_tag n ty = [word_of_nat (8 * n + ty)]"
  by (simp add: std_tag_def enc_varint.simps)

lemma read_std_tag:
  "1 \<le> n \<Longrightarrow> n \<le> 15 \<Longrightarrow> ty < 8 \<Longrightarrow> std_ReadTag 127 (std_tag n ty @ rest) = ((8 * n + ty, True), rest)"
  by (simp add: std_tag_eq std_ReadTag_def dec_varint_small del: of_nat_add of_nat_mult)

lemma dec_enc_64: "v < 2 ^ 64 \<Longrightarrow> dec_varint 10 (enc_varint v @ rest) = Some (v, rest)"
  by (rule dec_enc_varint) simp_all

lemma dec_varint_Nil: "dec_varint 10 [] = None"
  by (simp add: numeral_eq_Suc)

lemmas std_sizes = std_tag_eq std_Int64Size_def std_Int32Size_def std_WriteString_def
  std_LengthDelimitedSize_def

lemma std_ReadString_shrinks: "std_ReadString inp old = (True, s, r) \<Longrightarrow> length r < length inp"
  by (auto simp: std_ReadString_def split: option.splits if_splits dest!: dec_varint_shrinks)

lemma unat_64: "unat (v :: int64) < 2 ^ 64"
proof -
  have "unat v < 2 ^ LENGTH(64)" by (rule unsigned_less)
  then show ?thesis by simp
qed

lemma read_std_string:
  "length s < 2 ^ 31 \<Longrightarrow> std_ReadString (enc_varint (length s) @ s @ rest) old = (True, s, rest)"
  by (simp add: std_ReadString_def dec_enc_64)

lemma ucast_scast: "(ucast (scast (i :: int32) :: int64) :: int32) = i"
proof (rule bit_word_eqI)
  fix k assume "k < LENGTH(32)"
  then show "bit (ucast (scast i :: int64) :: int32) k \<longleftrightarrow> bit i k"
    by (cases "k = 31"; cases "k < 31") (auto simp: bit_simps min_def)
qed

interpretation std: wire_laws std_wire
proof
  fix t inp r assume "ExpectTag std_wire t inp = Some r"
  then show "ReadTagWithCutoff std_wire 127 inp = ((t, True), r)"
    by (auto simp: std_wire_def std_ExpectTag_def split: prod.splits if_splits)
next
  fix n v rest assume "1 \<le> n" "n \<le> (15::nat)"
  then show "\<exists>r. ReadTagWithCutoff std_wire 127 (WriteInt64 std_wire n v @ rest) = ((8 * n, True), r) \<and>
      ReadInt64 std_wire r = Some (v, rest)"
    using read_std_tag [of n 0] dec_enc_64 [OF unat_64, of v rest]
    by (auto simp: std_wire_def std_ReadInt64_def)
next
  fix n i rest assume "1 \<le> n" "n \<le> (15::nat)"
  then show "\<exists>r. ReadTagWithCutoff std_wire 127 (WriteInt32 std_wire n i @ rest) = ((8 * n, True), r) \<and>
      ReadInt32 std_wire r = Some (i, rest)"
    using read_std_tag [of n 0] dec_enc_64 [OF unat_64, of "scast i" rest]
    by (auto simp: std_wire_def std_ReadInt32_def ucast_scast)
next
  fix n b rest assume "1 \<le> n" "n \<le> (15::nat)"
  then show "\<exists>r. ReadTagWithCutoff std_wire 127 (WriteBool std_wire n b @ rest) = ((8 * n, True), r) \<and>
      ReadBool std_wire r = Some (b, rest)"
    using read_std_tag [of n 0] dec_varint_small [of "of_bool b" rest]
    by (cases b) (simp_all add: std_wire_def std_ReadBool_def)
next
  fix n s rest old assume "1 \<le> n" "n \<le> (15::nat)" "length (s :: byte list) < 2 ^ 31"
  then show "\<exists>r. ReadTagWithCutoff std_wire 127 (WriteString std_wire n s @ rest) = ((8 * n + 2, True), r) \<and>
      ReadString std_wire r old = (True, s, rest)"
    using read_std_tag [of n 2] by (simp add: std_wire_def std_WriteString_def read_std_string)
next
  fix n s rest old assume "1 \<le> n" "n \<le> (15::nat)" "length (s :: byte list) < 2 ^ 31"
  then show "\<exists>r. ReadTagWithCutoff std_wire 127 (WriteBytes std_wire n s @ rest) = ((8 * n + 2, True), r) \<and>
      ReadBytes std_wire r old = (True, s, rest)"
    using read_std_tag [of n 2] by (simp add: std_wire_def std_WriteString_def read_std_string)
next
  fix inp t below r assume "ReadTagWithCutoff std_wire 127 inp = ((t, below), r)" "t \<noteq> 0"
  then show "length r < length inp"
    by (auto simp: std_wire_def std_ReadTag_def split: option.splits dest: dec_varint_shrinks)
next
  fix inp v r assume "ReadInt64 std_wire inp = Some (v, r)"
  then show "length r < length inp"
    by (auto simp: std_wire_def std_ReadInt64_def dest: dec_varint_shrinks)
next
  fix inp i r assume "ReadInt32 std_wire inp = Some (i, r)"
  then show "length r < length inp"
    by (auto simp: std_wire_def std_ReadInt32_def dest: dec_varint_shrinks)
next
  fix inp b r assume "ReadBool std_wire inp = Some (b, r)"
  then show "length r < length inp"
    by (auto simp: std_wire_def std_ReadBool_def dest: dec_varint_shrinks)
next
  fix inp old s r assume "ReadString std_wire inp old = (True, s, r)"
  then show "length r < length inp"
    by (auto simp: std_wire_def intro: std_ReadString_shrinks)
next
  fix inp old s r assume "ReadBytes std_wire inp old = (True, s, r)"
  then show "length r < length inp"
    by (auto simp: std_wire_def intro: std_ReadString_shrinks)
next
  fix inp t u u' r assume "SkipField std_wire inp t u = (True, u', r)"
  then show "length r \<le> length inp"
    by (auto simp: std_wire_def std_SkipField_def split: if_splits option.splits prod.splits
        dest: dec_varint_shrinks std_ReadString_shrinks)
next
  show "ReadTagWithCutoff std_wire 127 [] = ((0, False), [])"
    by (simp add: std_wire_def std_ReadTag_def dec_varint_Nil)
qed (simp_all add: std_wire_def std_sizes)

lemma std_reads_message: "reads_message std_wire std_ReadMessage"
  unfolding reads_message_def
proof (intro allI impI)
  fix n bs rest merge dp m m'
  assume n: "1 \<le> n" "n \<le> (15::nat)" and len: "length (bs :: byte list) < 2 ^ 31" and dp: "0 < (dp::nat)"
    and mg: "\<forall>d\<ge>dp - 1. (merge :: 's merger) \<lparr>avail = bs, depth = d\<rparr> m = Some (True, \<lparr>avail = [], depth = d\<rparr>, m')"
  have "std_ReadMessage merge \<lparr>avail = enc_varint (length bs) @ bs @ rest, depth = dp\<rparr> m =
      Some (True, \<lparr>avail = rest, depth = dp\<rparr>, m')"
    using len dp mg by (simp add: std_ReadMessage_def dec_enc_64)
  then show "\<exists>r. ReadTagWithCutoff std_wire 127 (WriteMessage std_wire n (int (length bs)) bs @ rest) =
        ((8 * n + 2, True), r) \<and>
      std_ReadMessage merge \<lparr>avail = r, depth = dp\<rparr> m = Some (True, \<lparr>avail = rest, depth = dp\<rparr>, m')"
    using read_std_tag [of n 2] n by (simp add: std_wire_def)
qed

lemma std_reads_message_no_depth: "reads_message std_wire std_ReadMessageNoRecursionDepth"
  unfolding reads_message_def
proof (intro allI impI)
  fix n bs rest merge dp m m'
  assume n: "1 \<le> n" "n \<le> (15::nat)" and len: "length (bs :: byte list) < 2 ^ 31" and dp: "0 < (dp::nat)"
    and mg: "\<forall>d\<ge>dp - 1. (merge :: 's merger) \<lparr>avail = bs, depth = d\<rparr> m = Some (True, \<lparr>avail = [], depth = d\<rparr>, m')"
  have "std_ReadMessageNoRecursionDepth merge \<lparr>avail = enc_varint (length bs) @ bs @ rest, depth = dp\<rparr> m =
      Some (True, \<lparr>avail = rest, depth = dp\<rparr>, m')"
    using len mg by (simp add: std_ReadMessageNoRecursionDepth_def dec_enc_64)
  then show "\<exists>r. ReadTagWithCutoff std_wire 127 (WriteMessage std_wire n (int (length bs)) bs @ rest) =
        ((8 * n + 2, True), r) \<and>
      std_ReadMessageNoRecursionDepth merge \<lparr>avail = r, depth = dp\<rparr> m = Some (True, \<lparr>avail = rest, depth = dp\<rparr>, m')"
    using read_std_tag [of n 2] n by (simp add: std_wire_def)
qed

lemma std_returns_message: "returns_message std_ReadMessage" "returns_message std_ReadMessageNoRecursionDepth"
  unfolding returns_message_def std_ReadMessage_def std_ReadMessageNoRecursionDepth_def
  by (auto split: option.split dest!: dec_varint_shrinks; metis option.distinct(1))+

end
