(* ===== verification/PbHeartBeat.thy ===== *)
theory PbHeartBeat
  imports WireFormat
begin

text \<open>
  The class \<^verbatim>\<open>HeartBeat\<close> of \<^verbatim>\<open>kite_remoting.pb.h\<close> and
  \<^verbatim>\<open>kite_remoting.pb.cc\<close>: the heartbeat, one required 64-bit version. The record holds the
  has-bits, the fields, the unknown fields and the cached size; each method is one definition. The lemmas in
  \<open>wire_laws\<close> show that a message built by its setters is sized exactly, parsed back from its own bytes,
  and copied, and that parsing always returns.
\<close>

section \<open>HeartBeat\<close>

record 'u heartBeat =
  hbt_bits :: int32
  hbt_version :: int64
  hbt_unknown :: "'u option"
  hbt_cached :: int

definition HeartBeat_new :: "'u heartBeat" where
  "HeartBeat_new = \<lparr>hbt_bits = 0, hbt_version = 0,
     hbt_unknown = None, hbt_cached = 0\<rparr>"

definition HeartBeat_has_version :: "'u heartBeat \<Rightarrow> bool" where
  "HeartBeat_has_version m \<longleftrightarrow> hbt_bits m AND 1 \<noteq> 0"

definition HeartBeat_set_has_version :: "'u heartBeat \<Rightarrow> 'u heartBeat" where
  "HeartBeat_set_has_version m = m\<lparr>hbt_bits := hbt_bits m OR 1\<rparr>"

definition HeartBeat_set_version :: "int64 \<Rightarrow> 'u heartBeat \<Rightarrow> 'u heartBeat" where
  "HeartBeat_set_version v m = (HeartBeat_set_has_version m)\<lparr>hbt_version := v\<rparr>"

definition HeartBeat_Clear :: "'u wire \<Rightarrow> 'u heartBeat \<Rightarrow> 'u heartBeat" where
  "HeartBeat_Clear W m =
     (let m = m\<lparr>hbt_version := 0\<rparr>;
          m = m\<lparr>hbt_bits := 0\<rparr>
      in m\<lparr>hbt_unknown := clear_unknown W (hbt_unknown m)\<rparr>)"

definition HeartBeat_step :: "'u wire \<Rightarrow> 'u heartBeat parse_step" where
  "HeartBeat_step W p inp m =
     (case p of
        Top \<Rightarrow> switch_tag W [(1, 8)] hbt_unknown
          (\<lambda>u m. m\<lparr>hbt_unknown := Some u\<rparr>) inp m
      | Parse n \<Rightarrow>
          read_prim W (ReadInt64 W) (\<lambda>v m. m\<lparr>hbt_version := v\<rparr>) HeartBeat_set_has_version
            AtEnd inp m
      | ParseLoop n \<Rightarrow> Ends False inp m)"

definition HeartBeat_MergePartialFromCodedStream :: "'u wire \<Rightarrow> 'u heartBeat merger" where
  "HeartBeat_MergePartialFromCodedStream W inp m = merge_run (HeartBeat_step W) Top inp m"

definition HeartBeat_SerializeWithCachedSizes :: "'u wire \<Rightarrow> 'u heartBeat \<Rightarrow> byte list
    \<Rightarrow> byte list" where
  "HeartBeat_SerializeWithCachedSizes W m out =
     (let out = (if HeartBeat_has_version m then out @ WriteInt64 W 1 (hbt_version m) else out)
      in out @ unknown_bytes W (hbt_unknown m))"

definition HeartBeat_SerializeWithCachedSizesToArray :: "'u wire \<Rightarrow> 'u heartBeat \<Rightarrow> byte
    list" where
  "HeartBeat_SerializeWithCachedSizesToArray W m =
     (if HeartBeat_has_version m then WriteInt64 W 1 (hbt_version m) else []) @
     unknown_bytes W (hbt_unknown m)"

definition HeartBeat_ByteSize :: "'u wire \<Rightarrow> 'u heartBeat \<Rightarrow> int \<times> 'u heartBeat" where
  "HeartBeat_ByteSize W m =
     (let total_size = (if HeartBeat_has_version m then (1 + Int64Size W (hbt_version m)) else 0);
          total_size = total_size + unknown_size W (hbt_unknown m)
      in (total_size, m\<lparr>hbt_cached := total_size\<rparr>))"

definition HeartBeat_MergeFrom :: "'u wire \<Rightarrow> 'u heartBeat \<Rightarrow> 'u heartBeat \<Rightarrow> 'u
    heartBeat" where
  "HeartBeat_MergeFrom W frm m =
     (let m = (if hbt_bits frm AND 255 \<noteq> 0
            then (let m = (if HeartBeat_has_version frm then HeartBeat_set_version (hbt_version frm) m else m)
                  in m)
            else m)
      in m\<lparr>hbt_unknown := merge_unknown W (hbt_unknown frm) (hbt_unknown m)\<rparr>)"

definition HeartBeat_CopyFrom :: "'u wire \<Rightarrow> 'u heartBeat \<Rightarrow> 'u heartBeat \<Rightarrow> 'u
    heartBeat" where
  "HeartBeat_CopyFrom W frm m = HeartBeat_MergeFrom W frm (HeartBeat_Clear W m)"

definition HeartBeat_IsInitialized :: "'u heartBeat \<Rightarrow> bool" where
  "HeartBeat_IsInitialized m =
     (if hbt_bits m AND 1 \<noteq> 1 then False
      else True)"

definition HeartBeat_InternalSwap :: "'u heartBeat \<Rightarrow> 'u heartBeat \<Rightarrow> 'u heartBeat \<times>
    'u heartBeat" where
  "HeartBeat_InternalSwap m other =
     (m\<lparr>hbt_version := hbt_version other, hbt_bits := hbt_bits other, hbt_unknown := hbt_unknown other,
         hbt_cached := hbt_cached other\<rparr>,
      other\<lparr>hbt_version := hbt_version m, hbt_bits := hbt_bits m, hbt_unknown := hbt_unknown m, hbt_cached
          := hbt_cached m\<rparr>)"

lemmas HeartBeat_has_defs = HeartBeat_has_version_def
lemmas HeartBeat_set_defs = HeartBeat_set_has_version_def HeartBeat_set_version_def

text \<open>A message as the setters build it: known has-bits only, defaults where a bit is off, strings of a
  length the format can carry, no unknown fields, no cached sizes yet.\<close>

definition HeartBeat_built :: "'u heartBeat \<Rightarrow> bool" where
  "HeartBeat_built m \<longleftrightarrow>
     (\<forall>n. bit (hbt_bits m) n \<longrightarrow> n < 1) \<and>
     (\<not> HeartBeat_has_version m \<longrightarrow> hbt_version m = 0) \<and>
     hbt_unknown m = None \<and>
     hbt_cached m = 0"

lemma HeartBeat_has_iffs:
  "HeartBeat_has_version m \<longleftrightarrow> bit (hbt_bits m) 0"
  by (simp_all add: HeartBeat_has_defs byte_simps)

lemma HeartBeat_initialized_iff:
  "HeartBeat_IsInitialized m \<longleftrightarrow> bit (hbt_bits m) 0"
  by (auto simp: HeartBeat_IsInitialized_def byte_simps)

lemma HeartBeat_swap: "HeartBeat_InternalSwap m other = (other, m)"
  by (cases m; cases other) (simp add: HeartBeat_InternalSwap_def)

lemma HeartBeat_clear_built: "HeartBeat_built m \<Longrightarrow> HeartBeat_Clear W m = HeartBeat_new"
  by (cases m) (auto simp: HeartBeat_Clear_def HeartBeat_new_def HeartBeat_built_def HeartBeat_has_iffs byte_simps
      Let_def)

lemma HeartBeat_serialize_agree:
  "HeartBeat_SerializeWithCachedSizes W m out = out @ HeartBeat_SerializeWithCachedSizesToArray W m"
  by (simp only: HeartBeat_SerializeWithCachedSizes_def HeartBeat_SerializeWithCachedSizesToArray_def append_if
      foldl_write
      append_assoc Let_def)

context wire_laws begin

lemma HeartBeat_top: "top_is (HeartBeat_step W) [(1, 8)]"
  unfolding top_is_def
  by (intro exI [of _ hbt_unknown] exI [of _ "\<lambda>u m. m\<lparr>hbt_unknown := Some u\<rparr>"] allI) (simp
      add: HeartBeat_step_def)

lemma HeartBeat_run_version:
  "merge_run (HeartBeat_step W) Top \<lparr>avail = WriteInt64 W 1 v @ rest, depth = d\<rparr> m =
   merge_run (HeartBeat_step W) Top \<lparr>avail = rest, depth = d\<rparr> (HeartBeat_set_has_version
       (m\<lparr>hbt_version := v\<rparr>))"
  by (rule run_prim [OF HeartBeat_top, where n = 1 and f = "AtEnd" and rdr = "ReadInt64 W"
        and put = "\<lambda>v m. m\<lparr>hbt_version := v\<rparr>" and set_has = HeartBeat_set_has_version, OF _ _
            _ int64])
    (simp_all add: follow_ok_def GetTagFieldNumber_def HeartBeat_step_def)

lemmas HeartBeat_runs = HeartBeat_run_version
  HeartBeat_run_version [where rest = "[]", unfolded append_Nil2]

lemma HeartBeat_run_end: "merge_run (HeartBeat_step W) Top \<lparr>avail = [], depth = d\<rparr> m = Some (True,
    \<lparr>avail = [], depth = d\<rparr>, m)"
  by (rule run_end) (simp add: HeartBeat_step_def)

lemma HeartBeat_returns: "HeartBeat_MergePartialFromCodedStream W inp m \<noteq> None"
  unfolding HeartBeat_MergePartialFromCodedStream_def
proof (rule run_returns)
  show "parse_rank p' inp' < parse_rank p inp" if "HeartBeat_step W p inp m = Goto p' inp' m'" for p inp m p' inp' m'
  proof (cases p)
    case Top
    with that show ?thesis
      by (auto simp: HeartBeat_step_def dest!: switch_rank)
  next
    case (Parse n)
    with that show ?thesis
      by (auto simp: HeartBeat_step_def follow_pos_def split: if_splits
          dest!: prim_ranks str_ranks)
  next
    case (ParseLoop n)
    with that show ?thesis by (simp add: HeartBeat_step_def)
  qed
  show "HeartBeat_step W p inp m \<noteq> Diverges" for p inp m
    by (simp add: HeartBeat_step_def no_Diverges split: pc.split)
qed

lemma HeartBeat_size:
  shows "fst (HeartBeat_ByteSize W m) = int (length (HeartBeat_SerializeWithCachedSizesToArray W (snd
      (HeartBeat_ByteSize W m))))"
  by (simp add: HeartBeat_ByteSize_def HeartBeat_SerializeWithCachedSizesToArray_def
      HeartBeat_has_iffs byte_simps len_int64 len_int32 len_bool len_str len_bytes len_unknown_bytes Let_def)

lemma HeartBeat_roundtrip:
  assumes "HeartBeat_built m" and "HeartBeat_IsInitialized m"
  shows "HeartBeat_MergePartialFromCodedStream W
      \<lparr>avail = HeartBeat_SerializeWithCachedSizesToArray W (snd (HeartBeat_ByteSize W m)), depth = d\<rparr>
          HeartBeat_new =
    Some (True, \<lparr>avail = [], depth = d\<rparr>, m)"
proof -
  have b: "bit (hbt_bits m) 0"
    using assms(2) by (simp_all add: HeartBeat_initialized_iff)
  have k: "\<forall>n. bit (hbt_bits m) n \<longrightarrow> n < 1" using assms(1) by (simp add: HeartBeat_built_def)
  have w: "hbt_bits m = flags (bit (hbt_bits m))" by (rule known_bits [OF k]) simp
  show ?thesis
  proof -
    have "hbt_bits m = 1"
      by (subst w) (use no_flag_above [OF k] b in \<open>simp add: flags_def\<close>)
    with assms(1) b show ?thesis
      by (cases m) (simp add: HeartBeat_MergePartialFromCodedStream_def HeartBeat_SerializeWithCachedSizesToArray_def
          HeartBeat_ByteSize_def HeartBeat_has_iffs HeartBeat_runs HeartBeat_run_end HeartBeat_built_def
              HeartBeat_new_def HeartBeat_set_defs Let_def del: One_nat_def)
  qed
qed

lemma HeartBeat_copy:
  assumes "HeartBeat_built frm" and "HeartBeat_IsInitialized frm" and "HeartBeat_built m"
  shows "HeartBeat_CopyFrom W frm m = frm"
proof -
  have b: "bit (hbt_bits frm) 0"
    using assms(2) by (simp_all add: HeartBeat_initialized_iff)
  have k: "\<forall>n. bit (hbt_bits frm) n \<longrightarrow> n < 1" using assms(1) by (simp add: HeartBeat_built_def)
  have w: "hbt_bits frm = flags (bit (hbt_bits frm))" by (rule known_bits [OF k]) simp
  show ?thesis
  proof -
    have "hbt_bits frm = 1"
      by (subst w) (use no_flag_above [OF k] b in \<open>simp add: flags_def\<close>)
    with assms(1) b show ?thesis
      unfolding HeartBeat_CopyFrom_def HeartBeat_clear_built [OF assms(3)]
      by (cases frm) (simp add: HeartBeat_MergeFrom_def HeartBeat_has_iffs HeartBeat_built_def HeartBeat_new_def
          HeartBeat_set_defs
          byte_simps Let_def)
  qed
qed

end

end
