(* ===== verification/PbConnMeta.thy ===== *)
theory PbConnMeta
  imports WireFormat
begin

text \<open>
  The class \<^verbatim>\<open>ConnMeta\<close> of \<^verbatim>\<open>kite_remoting.pb.h\<close> and
  \<^verbatim>\<open>kite_remoting.pb.cc\<close>: the client's side of the handshake: group, secret key and an optional
  warming-up time. The record holds the has-bits, the fields, the unknown fields and the cached size; each method is one
  definition. The lemmas in \<open>wire_laws\<close> show that a message built by its setters is sized exactly, parsed
  back from its own bytes, and copied, and that parsing always returns.
\<close>

section \<open>ConnMeta\<close>

record 'u connMeta =
  cmt_bits :: int32
  cmt_groupid :: "byte list"
  cmt_secretkey :: "byte list"
  cmt_warmingupsec :: int32
  cmt_unknown :: "'u option"
  cmt_cached :: int

definition ConnMeta_new :: "'u connMeta" where
  "ConnMeta_new = \<lparr>cmt_bits = 0, cmt_groupid = [], cmt_secretkey = [], cmt_warmingupsec = 0,
     cmt_unknown = None, cmt_cached = 0\<rparr>"

definition ConnMeta_has_groupid :: "'u connMeta \<Rightarrow> bool" where
  "ConnMeta_has_groupid m \<longleftrightarrow> cmt_bits m AND 1 \<noteq> 0"

definition ConnMeta_set_has_groupid :: "'u connMeta \<Rightarrow> 'u connMeta" where
  "ConnMeta_set_has_groupid m = m\<lparr>cmt_bits := cmt_bits m OR 1\<rparr>"

definition ConnMeta_set_groupid :: "byte list \<Rightarrow> 'u connMeta \<Rightarrow> 'u connMeta" where
  "ConnMeta_set_groupid v m = (ConnMeta_set_has_groupid m)\<lparr>cmt_groupid := v\<rparr>"

definition ConnMeta_has_secretkey :: "'u connMeta \<Rightarrow> bool" where
  "ConnMeta_has_secretkey m \<longleftrightarrow> cmt_bits m AND 2 \<noteq> 0"

definition ConnMeta_set_has_secretkey :: "'u connMeta \<Rightarrow> 'u connMeta" where
  "ConnMeta_set_has_secretkey m = m\<lparr>cmt_bits := cmt_bits m OR 2\<rparr>"

definition ConnMeta_set_secretkey :: "byte list \<Rightarrow> 'u connMeta \<Rightarrow> 'u connMeta" where
  "ConnMeta_set_secretkey v m = (ConnMeta_set_has_secretkey m)\<lparr>cmt_secretkey := v\<rparr>"

definition ConnMeta_has_warmingupsec :: "'u connMeta \<Rightarrow> bool" where
  "ConnMeta_has_warmingupsec m \<longleftrightarrow> cmt_bits m AND 4 \<noteq> 0"

definition ConnMeta_set_has_warmingupsec :: "'u connMeta \<Rightarrow> 'u connMeta" where
  "ConnMeta_set_has_warmingupsec m = m\<lparr>cmt_bits := cmt_bits m OR 4\<rparr>"

definition ConnMeta_set_warmingupsec :: "int32 \<Rightarrow> 'u connMeta \<Rightarrow> 'u connMeta" where
  "ConnMeta_set_warmingupsec v m = (ConnMeta_set_has_warmingupsec m)\<lparr>cmt_warmingupsec := v\<rparr>"

definition ConnMeta_Clear :: "'u wire \<Rightarrow> 'u connMeta \<Rightarrow> 'u connMeta" where
  "ConnMeta_Clear W m =
     (let m = (if cmt_bits m AND 7 \<noteq> 0
            then (let m = (if ConnMeta_has_groupid m then m\<lparr>cmt_groupid := []\<rparr> else m);
                      m = (if ConnMeta_has_secretkey m then m\<lparr>cmt_secretkey := []\<rparr> else m);
                      m = m\<lparr>cmt_warmingupsec := 0\<rparr>
                  in m)
            else m);
          m = m\<lparr>cmt_bits := 0\<rparr>
      in m\<lparr>cmt_unknown := clear_unknown W (cmt_unknown m)\<rparr>)"

definition ConnMeta_step :: "'u wire \<Rightarrow> 'u connMeta parse_step" where
  "ConnMeta_step W p inp m =
     (case p of
        Top \<Rightarrow> switch_tag W [(1, 10), (2, 18), (3, 24)] cmt_unknown
          (\<lambda>u m. m\<lparr>cmt_unknown := Some u\<rparr>) inp m
      | Parse n \<Rightarrow>
          if n = 1 then read_str W (ReadString W) cmt_groupid (\<lambda>v m. m\<lparr>cmt_groupid := v\<rparr>)
              ConnMeta_set_has_groupid
            (NextTag 18 (Parse 2)) inp m
          else if n = 2 then read_str W (ReadString W) cmt_secretkey (\<lambda>v m. m\<lparr>cmt_secretkey :=
              v\<rparr>) ConnMeta_set_has_secretkey
            (NextTag 24 (Parse 3)) inp m
          else read_prim W (ReadInt32 W) (\<lambda>v m. m\<lparr>cmt_warmingupsec := v\<rparr>)
              ConnMeta_set_has_warmingupsec
            AtEnd inp m
      | ParseLoop n \<Rightarrow> Ends False inp m)"

definition ConnMeta_MergePartialFromCodedStream :: "'u wire \<Rightarrow> 'u connMeta merger" where
  "ConnMeta_MergePartialFromCodedStream W inp m = merge_run (ConnMeta_step W) Top inp m"

definition ConnMeta_SerializeWithCachedSizes :: "'u wire \<Rightarrow> 'u connMeta \<Rightarrow> byte list
    \<Rightarrow> byte list" where
  "ConnMeta_SerializeWithCachedSizes W m out =
     (let out = (if ConnMeta_has_groupid m then out @ WriteString W 1 (cmt_groupid m) else out);
          out = (if ConnMeta_has_secretkey m then out @ WriteString W 2 (cmt_secretkey m) else out);
          out = (if ConnMeta_has_warmingupsec m then out @ WriteInt32 W 3 (cmt_warmingupsec m) else out)
      in out @ unknown_bytes W (cmt_unknown m))"

definition ConnMeta_SerializeWithCachedSizesToArray :: "'u wire \<Rightarrow> 'u connMeta \<Rightarrow> byte list"
    where
  "ConnMeta_SerializeWithCachedSizesToArray W m =
     (if ConnMeta_has_groupid m then WriteString W 1 (cmt_groupid m) else []) @
     (if ConnMeta_has_secretkey m then WriteString W 2 (cmt_secretkey m) else []) @
     (if ConnMeta_has_warmingupsec m then WriteInt32 W 3 (cmt_warmingupsec m) else []) @
     unknown_bytes W (cmt_unknown m)"

definition ConnMeta_RequiredFieldsByteSizeFallback :: "'u wire \<Rightarrow> 'u connMeta \<Rightarrow> int" where
  "ConnMeta_RequiredFieldsByteSizeFallback W m =
     (if ConnMeta_has_groupid m then (1 + StringSize W (cmt_groupid m)) else 0) +
     (if ConnMeta_has_secretkey m then (1 + StringSize W (cmt_secretkey m)) else 0)"

definition ConnMeta_ByteSize :: "'u wire \<Rightarrow> 'u connMeta \<Rightarrow> int \<times> 'u connMeta" where
  "ConnMeta_ByteSize W m =
     (let total_size = (if (cmt_bits m AND 3) XOR 3 = 0
            then (1 + StringSize W (cmt_groupid m)) +
              (1 + StringSize W (cmt_secretkey m))
            else ConnMeta_RequiredFieldsByteSizeFallback W m);
          total_size = total_size + (if ConnMeta_has_warmingupsec m then (1 + Int32Size W (cmt_warmingupsec m))
              else 0);
          total_size = total_size + unknown_size W (cmt_unknown m)
      in (total_size, m\<lparr>cmt_cached := total_size\<rparr>))"

definition ConnMeta_MergeFrom :: "'u wire \<Rightarrow> 'u connMeta \<Rightarrow> 'u connMeta \<Rightarrow> 'u
    connMeta" where
  "ConnMeta_MergeFrom W frm m =
     (let m = (if cmt_bits frm AND 255 \<noteq> 0
            then (let m = (if ConnMeta_has_groupid frm then (ConnMeta_set_has_groupid m)\<lparr>cmt_groupid :=
                cmt_groupid frm\<rparr> else m);
                      m = (if ConnMeta_has_secretkey frm then (ConnMeta_set_has_secretkey m)\<lparr>cmt_secretkey
                          := cmt_secretkey frm\<rparr> else m);
                      m = (if ConnMeta_has_warmingupsec frm then ConnMeta_set_warmingupsec (cmt_warmingupsec frm) m
                          else m)
                  in m)
            else m)
      in m\<lparr>cmt_unknown := merge_unknown W (cmt_unknown frm) (cmt_unknown m)\<rparr>)"

definition ConnMeta_CopyFrom :: "'u wire \<Rightarrow> 'u connMeta \<Rightarrow> 'u connMeta \<Rightarrow> 'u
    connMeta" where
  "ConnMeta_CopyFrom W frm m = ConnMeta_MergeFrom W frm (ConnMeta_Clear W m)"

definition ConnMeta_IsInitialized :: "'u connMeta \<Rightarrow> bool" where
  "ConnMeta_IsInitialized m =
     (if cmt_bits m AND 3 \<noteq> 3 then False
      else True)"

definition ConnMeta_InternalSwap :: "'u connMeta \<Rightarrow> 'u connMeta \<Rightarrow> 'u connMeta \<times> 'u
    connMeta" where
  "ConnMeta_InternalSwap m other =
     (m\<lparr>cmt_groupid := cmt_groupid other, cmt_secretkey := cmt_secretkey other, cmt_warmingupsec :=
         cmt_warmingupsec other, cmt_bits := cmt_bits other, cmt_unknown := cmt_unknown other, cmt_cached :=
         cmt_cached other\<rparr>,
      other\<lparr>cmt_groupid := cmt_groupid m, cmt_secretkey := cmt_secretkey m, cmt_warmingupsec :=
          cmt_warmingupsec m, cmt_bits := cmt_bits m, cmt_unknown := cmt_unknown m, cmt_cached := cmt_cached
          m\<rparr>)"

lemmas ConnMeta_has_defs = ConnMeta_has_groupid_def ConnMeta_has_secretkey_def ConnMeta_has_warmingupsec_def
lemmas ConnMeta_set_defs = ConnMeta_set_has_groupid_def ConnMeta_set_has_secretkey_def
    ConnMeta_set_has_warmingupsec_def ConnMeta_set_groupid_def ConnMeta_set_secretkey_def
    ConnMeta_set_warmingupsec_def

text \<open>A message as the setters build it: known has-bits only, defaults where a bit is off, strings of a
  length the format can carry, no unknown fields, no cached sizes yet.\<close>

definition ConnMeta_built :: "'u connMeta \<Rightarrow> bool" where
  "ConnMeta_built m \<longleftrightarrow>
     (\<forall>n. bit (cmt_bits m) n \<longrightarrow> n < 3) \<and>
     length (cmt_groupid m) < 2 ^ 31 \<and>
     (\<not> ConnMeta_has_groupid m \<longrightarrow> cmt_groupid m = []) \<and>
     length (cmt_secretkey m) < 2 ^ 31 \<and>
     (\<not> ConnMeta_has_secretkey m \<longrightarrow> cmt_secretkey m = []) \<and>
     (\<not> ConnMeta_has_warmingupsec m \<longrightarrow> cmt_warmingupsec m = 0) \<and>
     cmt_unknown m = None \<and>
     cmt_cached m = 0"

lemma ConnMeta_has_iffs:
  "ConnMeta_has_groupid m \<longleftrightarrow> bit (cmt_bits m) 0" "ConnMeta_has_secretkey m \<longleftrightarrow>
      bit (cmt_bits m) 1" "ConnMeta_has_warmingupsec m \<longleftrightarrow> bit (cmt_bits m) 2"
  by (simp_all add: ConnMeta_has_defs byte_simps)

lemma ConnMeta_initialized_iff:
  "ConnMeta_IsInitialized m \<longleftrightarrow> bit (cmt_bits m) 0 \<and> bit (cmt_bits m) 1"
  by (auto simp: ConnMeta_IsInitialized_def byte_simps)

lemma ConnMeta_swap: "ConnMeta_InternalSwap m other = (other, m)"
  by (cases m; cases other) (simp add: ConnMeta_InternalSwap_def)

lemma ConnMeta_clear_built: "ConnMeta_built m \<Longrightarrow> ConnMeta_Clear W m = ConnMeta_new"
  by (cases m) (auto simp: ConnMeta_Clear_def ConnMeta_new_def ConnMeta_built_def ConnMeta_has_iffs byte_simps
      Let_def)

lemma ConnMeta_serialize_agree:
  "ConnMeta_SerializeWithCachedSizes W m out = out @ ConnMeta_SerializeWithCachedSizesToArray W m"
  by (simp only: ConnMeta_SerializeWithCachedSizes_def ConnMeta_SerializeWithCachedSizesToArray_def append_if
      foldl_write
      append_assoc Let_def)

context wire_laws begin

lemma ConnMeta_top: "top_is (ConnMeta_step W) [(1, 10), (2, 18), (3, 24)]"
  unfolding top_is_def
  by (intro exI [of _ cmt_unknown] exI [of _ "\<lambda>u m. m\<lparr>cmt_unknown := Some u\<rparr>"] allI) (simp
      add: ConnMeta_step_def)

lemma ConnMeta_run_groupid: "length v < 2 ^ 31 \<Longrightarrow>
   merge_run (ConnMeta_step W) Top \<lparr>avail = WriteString W 1 v @ rest, depth = d\<rparr> m =
   merge_run (ConnMeta_step W) Top \<lparr>avail = rest, depth = d\<rparr> ((ConnMeta_set_has_groupid
       m)\<lparr>cmt_groupid := v\<rparr>)"
  by (rule run_str [OF ConnMeta_top, where n = 1 and f = "NextTag 18 (Parse 2)" and rdr = "ReadString W" and get =
      cmt_groupid
        and put = "\<lambda>v m. m\<lparr>cmt_groupid := v\<rparr>" and set_has = ConnMeta_set_has_groupid, OF _ _
            _ str])
    (simp_all add: follow_ok_def GetTagFieldNumber_def ConnMeta_step_def)

lemma ConnMeta_run_secretkey: "length v < 2 ^ 31 \<Longrightarrow>
   merge_run (ConnMeta_step W) Top \<lparr>avail = WriteString W 2 v @ rest, depth = d\<rparr> m =
   merge_run (ConnMeta_step W) Top \<lparr>avail = rest, depth = d\<rparr> ((ConnMeta_set_has_secretkey
       m)\<lparr>cmt_secretkey := v\<rparr>)"
  by (rule run_str [OF ConnMeta_top, where n = 2 and f = "NextTag 24 (Parse 3)" and rdr = "ReadString W" and get =
      cmt_secretkey
        and put = "\<lambda>v m. m\<lparr>cmt_secretkey := v\<rparr>" and set_has = ConnMeta_set_has_secretkey, OF
            _ _ _ str])
    (simp_all add: follow_ok_def GetTagFieldNumber_def ConnMeta_step_def)

lemma ConnMeta_run_warmingupsec:
  "merge_run (ConnMeta_step W) Top \<lparr>avail = WriteInt32 W 3 v @ rest, depth = d\<rparr> m =
   merge_run (ConnMeta_step W) Top \<lparr>avail = rest, depth = d\<rparr> (ConnMeta_set_has_warmingupsec
       (m\<lparr>cmt_warmingupsec := v\<rparr>))"
  by (rule run_prim [OF ConnMeta_top, where n = 3 and f = "AtEnd" and rdr = "ReadInt32 W"
        and put = "\<lambda>v m. m\<lparr>cmt_warmingupsec := v\<rparr>" and set_has =
            ConnMeta_set_has_warmingupsec, OF _ _ _ int32])
    (simp_all add: follow_ok_def GetTagFieldNumber_def ConnMeta_step_def)

lemmas ConnMeta_runs = ConnMeta_run_groupid ConnMeta_run_secretkey ConnMeta_run_warmingupsec
  ConnMeta_run_warmingupsec [where rest = "[]", unfolded append_Nil2]
  ConnMeta_run_secretkey [where rest = "[]", unfolded append_Nil2]

lemma ConnMeta_run_end: "merge_run (ConnMeta_step W) Top \<lparr>avail = [], depth = d\<rparr> m = Some (True,
    \<lparr>avail = [], depth = d\<rparr>, m)"
  by (rule run_end) (simp add: ConnMeta_step_def)

lemma ConnMeta_returns: "ConnMeta_MergePartialFromCodedStream W inp m \<noteq> None"
  unfolding ConnMeta_MergePartialFromCodedStream_def
proof (rule run_returns)
  show "parse_rank p' inp' < parse_rank p inp" if "ConnMeta_step W p inp m = Goto p' inp' m'" for p inp m p' inp' m'
  proof (cases p)
    case Top
    with that show ?thesis
      by (auto simp: ConnMeta_step_def dest!: switch_rank)
  next
    case (Parse n)
    with that show ?thesis
      by (auto simp: ConnMeta_step_def follow_pos_def split: if_splits
          dest!: prim_ranks str_ranks)
  next
    case (ParseLoop n)
    with that show ?thesis by (simp add: ConnMeta_step_def)
  qed
  show "ConnMeta_step W p inp m \<noteq> Diverges" for p inp m
    by (simp add: ConnMeta_step_def no_Diverges split: pc.split)
qed

lemma ConnMeta_size:
  assumes "length (cmt_groupid m) < 2 ^ 31" and "length (cmt_secretkey m) < 2 ^ 31"
  shows "fst (ConnMeta_ByteSize W m) = int (length (ConnMeta_SerializeWithCachedSizesToArray W (snd
      (ConnMeta_ByteSize W m))))"
  using assms
  by (simp add: ConnMeta_ByteSize_def ConnMeta_RequiredFieldsByteSizeFallback_def
      ConnMeta_SerializeWithCachedSizesToArray_def
      ConnMeta_has_iffs byte_simps len_int64 len_int32 len_bool len_str len_bytes len_unknown_bytes Let_def)

lemma ConnMeta_roundtrip:
  assumes "ConnMeta_built m" and "ConnMeta_IsInitialized m"
  shows "ConnMeta_MergePartialFromCodedStream W
      \<lparr>avail = ConnMeta_SerializeWithCachedSizesToArray W (snd (ConnMeta_ByteSize W m)), depth = d\<rparr>
          ConnMeta_new =
    Some (True, \<lparr>avail = [], depth = d\<rparr>, m)"
proof -
  have b: "bit (cmt_bits m) 0" "bit (cmt_bits m) 1"
    using assms(2) by (simp_all add: ConnMeta_initialized_iff)
  have k: "\<forall>n. bit (cmt_bits m) n \<longrightarrow> n < 3" using assms(1) by (simp add: ConnMeta_built_def)
  have w: "cmt_bits m = flags (bit (cmt_bits m))" by (rule known_bits [OF k]) simp
  show ?thesis
  proof (cases "bit (cmt_bits m) 2")
    case True
    have "cmt_bits m = 7"
      by (subst w) (use no_flag_above [OF k] b True in \<open>simp add: flags_def\<close>)
    with assms(1) True b show ?thesis
      by (cases m) (simp add: ConnMeta_MergePartialFromCodedStream_def ConnMeta_SerializeWithCachedSizesToArray_def
          ConnMeta_ByteSize_def ConnMeta_has_iffs ConnMeta_runs ConnMeta_run_end ConnMeta_built_def
              ConnMeta_new_def ConnMeta_set_defs Let_def del: One_nat_def)
  next
    case False
    have "cmt_bits m = 3"
      by (subst w) (use no_flag_above [OF k] b False in \<open>simp add: flags_def\<close>)
    with assms(1) False b show ?thesis
      by (cases m) (simp add: ConnMeta_MergePartialFromCodedStream_def ConnMeta_SerializeWithCachedSizesToArray_def
          ConnMeta_ByteSize_def ConnMeta_has_iffs ConnMeta_runs ConnMeta_run_end ConnMeta_built_def
              ConnMeta_new_def ConnMeta_set_defs Let_def del: One_nat_def)
  qed
qed

lemma ConnMeta_copy:
  assumes "ConnMeta_built frm" and "ConnMeta_IsInitialized frm" and "ConnMeta_built m"
  shows "ConnMeta_CopyFrom W frm m = frm"
proof -
  have b: "bit (cmt_bits frm) 0" "bit (cmt_bits frm) 1"
    using assms(2) by (simp_all add: ConnMeta_initialized_iff)
  have k: "\<forall>n. bit (cmt_bits frm) n \<longrightarrow> n < 3" using assms(1) by (simp add: ConnMeta_built_def)
  have w: "cmt_bits frm = flags (bit (cmt_bits frm))" by (rule known_bits [OF k]) simp
  show ?thesis
  proof (cases "bit (cmt_bits frm) 2")
    case True
    have "cmt_bits frm = 7"
      by (subst w) (use no_flag_above [OF k] b True in \<open>simp add: flags_def\<close>)
    with assms(1) True b show ?thesis
      unfolding ConnMeta_CopyFrom_def ConnMeta_clear_built [OF assms(3)]
      by (cases frm) (simp add: ConnMeta_MergeFrom_def ConnMeta_has_iffs ConnMeta_built_def ConnMeta_new_def
          ConnMeta_set_defs
          byte_simps Let_def)
  next
    case False
    have "cmt_bits frm = 3"
      by (subst w) (use no_flag_above [OF k] b False in \<open>simp add: flags_def\<close>)
    with assms(1) False b show ?thesis
      unfolding ConnMeta_CopyFrom_def ConnMeta_clear_built [OF assms(3)]
      by (cases frm) (simp add: ConnMeta_MergeFrom_def ConnMeta_has_iffs ConnMeta_built_def ConnMeta_new_def
          ConnMeta_set_defs
          byte_simps Let_def)
  qed
qed

end

end
