(* ===== verification/PbConnAuthAck.thy ===== *)
theory PbConnAuthAck
  imports WireFormat
begin

text \<open>
  The class \<^verbatim>\<open>ConnAuthAck\<close> of \<^verbatim>\<open>kite_remoting.pb.h\<close> and
  \<^verbatim>\<open>kite_remoting.pb.cc\<close>: the server's answer to the handshake. The record holds the has-bits,
  the fields, the unknown fields and the cached size; each method is one definition. The lemmas in
  \<open>wire_laws\<close> show that a message built by its setters is sized exactly, parsed back from its own bytes,
  and copied, and that parsing always returns.
\<close>

section \<open>ConnAuthAck\<close>

record 'u connAuthAck =
  caa_bits :: int32
  caa_status :: bool
  caa_feedback :: "byte list"
  caa_unknown :: "'u option"
  caa_cached :: int

definition ConnAuthAck_new :: "'u connAuthAck" where
  "ConnAuthAck_new = \<lparr>caa_bits = 0, caa_status = True, caa_feedback = [],
     caa_unknown = None, caa_cached = 0\<rparr>"

definition ConnAuthAck_has_status :: "'u connAuthAck \<Rightarrow> bool" where
  "ConnAuthAck_has_status m \<longleftrightarrow> caa_bits m AND 1 \<noteq> 0"

definition ConnAuthAck_set_has_status :: "'u connAuthAck \<Rightarrow> 'u connAuthAck" where
  "ConnAuthAck_set_has_status m = m\<lparr>caa_bits := caa_bits m OR 1\<rparr>"

definition ConnAuthAck_set_status :: "bool \<Rightarrow> 'u connAuthAck \<Rightarrow> 'u connAuthAck" where
  "ConnAuthAck_set_status v m = (ConnAuthAck_set_has_status m)\<lparr>caa_status := v\<rparr>"

definition ConnAuthAck_has_feedback :: "'u connAuthAck \<Rightarrow> bool" where
  "ConnAuthAck_has_feedback m \<longleftrightarrow> caa_bits m AND 2 \<noteq> 0"

definition ConnAuthAck_set_has_feedback :: "'u connAuthAck \<Rightarrow> 'u connAuthAck" where
  "ConnAuthAck_set_has_feedback m = m\<lparr>caa_bits := caa_bits m OR 2\<rparr>"

definition ConnAuthAck_set_feedback :: "byte list \<Rightarrow> 'u connAuthAck \<Rightarrow> 'u connAuthAck" where
  "ConnAuthAck_set_feedback v m = (ConnAuthAck_set_has_feedback m)\<lparr>caa_feedback := v\<rparr>"

definition ConnAuthAck_Clear :: "'u wire \<Rightarrow> 'u connAuthAck \<Rightarrow> 'u connAuthAck" where
  "ConnAuthAck_Clear W m =
     (let m = (if caa_bits m AND 3 \<noteq> 0
            then (let m = m\<lparr>caa_status := True\<rparr>;
                      m = (if ConnAuthAck_has_feedback m then m\<lparr>caa_feedback := []\<rparr> else m)
                  in m)
            else m);
          m = m\<lparr>caa_bits := 0\<rparr>
      in m\<lparr>caa_unknown := clear_unknown W (caa_unknown m)\<rparr>)"

definition ConnAuthAck_step :: "'u wire \<Rightarrow> 'u connAuthAck parse_step" where
  "ConnAuthAck_step W p inp m =
     (case p of
        Top \<Rightarrow> switch_tag W [(1, 8), (2, 18)] caa_unknown
          (\<lambda>u m. m\<lparr>caa_unknown := Some u\<rparr>) inp m
      | Parse n \<Rightarrow>
          if n = 1 then read_prim W (ReadBool W) (\<lambda>v m. m\<lparr>caa_status := v\<rparr>)
              ConnAuthAck_set_has_status
            (NextTag 18 (Parse 2)) inp m
          else read_str W (ReadString W) caa_feedback (\<lambda>v m. m\<lparr>caa_feedback := v\<rparr>)
              ConnAuthAck_set_has_feedback
            AtEnd inp m
      | ParseLoop n \<Rightarrow> Ends False inp m)"

definition ConnAuthAck_MergePartialFromCodedStream :: "'u wire \<Rightarrow> 'u connAuthAck merger" where
  "ConnAuthAck_MergePartialFromCodedStream W inp m = merge_run (ConnAuthAck_step W) Top inp m"

definition ConnAuthAck_SerializeWithCachedSizes :: "'u wire \<Rightarrow> 'u connAuthAck \<Rightarrow> byte list
    \<Rightarrow> byte list" where
  "ConnAuthAck_SerializeWithCachedSizes W m out =
     (let out = (if ConnAuthAck_has_status m then out @ WriteBool W 1 (caa_status m) else out);
          out = (if ConnAuthAck_has_feedback m then out @ WriteString W 2 (caa_feedback m) else out)
      in out @ unknown_bytes W (caa_unknown m))"

definition ConnAuthAck_SerializeWithCachedSizesToArray :: "'u wire \<Rightarrow> 'u connAuthAck \<Rightarrow> byte
    list" where
  "ConnAuthAck_SerializeWithCachedSizesToArray W m =
     (if ConnAuthAck_has_status m then WriteBool W 1 (caa_status m) else []) @
     (if ConnAuthAck_has_feedback m then WriteString W 2 (caa_feedback m) else []) @
     unknown_bytes W (caa_unknown m)"

definition ConnAuthAck_RequiredFieldsByteSizeFallback :: "'u wire \<Rightarrow> 'u connAuthAck \<Rightarrow> int"
    where
  "ConnAuthAck_RequiredFieldsByteSizeFallback W m =
     (if ConnAuthAck_has_status m then (1 + 1) else 0) +
     (if ConnAuthAck_has_feedback m then (1 + StringSize W (caa_feedback m)) else 0)"

definition ConnAuthAck_ByteSize :: "'u wire \<Rightarrow> 'u connAuthAck \<Rightarrow> int \<times> 'u connAuthAck"
    where
  "ConnAuthAck_ByteSize W m =
     (let total_size = (if (caa_bits m AND 3) XOR 3 = 0
            then (1 + 1) +
              (1 + StringSize W (caa_feedback m))
            else ConnAuthAck_RequiredFieldsByteSizeFallback W m);
          total_size = total_size + unknown_size W (caa_unknown m)
      in (total_size, m\<lparr>caa_cached := total_size\<rparr>))"

definition ConnAuthAck_MergeFrom :: "'u wire \<Rightarrow> 'u connAuthAck \<Rightarrow> 'u connAuthAck
    \<Rightarrow> 'u connAuthAck" where
  "ConnAuthAck_MergeFrom W frm m =
     (let m = (if caa_bits frm AND 255 \<noteq> 0
            then (let m = (if ConnAuthAck_has_status frm then ConnAuthAck_set_status (caa_status frm) m else m);
                      m = (if ConnAuthAck_has_feedback frm then (ConnAuthAck_set_has_feedback
                          m)\<lparr>caa_feedback := caa_feedback frm\<rparr> else m)
                  in m)
            else m)
      in m\<lparr>caa_unknown := merge_unknown W (caa_unknown frm) (caa_unknown m)\<rparr>)"

definition ConnAuthAck_CopyFrom :: "'u wire \<Rightarrow> 'u connAuthAck \<Rightarrow> 'u connAuthAck \<Rightarrow>
    'u connAuthAck" where
  "ConnAuthAck_CopyFrom W frm m = ConnAuthAck_MergeFrom W frm (ConnAuthAck_Clear W m)"

definition ConnAuthAck_IsInitialized :: "'u connAuthAck \<Rightarrow> bool" where
  "ConnAuthAck_IsInitialized m =
     (if caa_bits m AND 3 \<noteq> 3 then False
      else True)"

definition ConnAuthAck_InternalSwap :: "'u connAuthAck \<Rightarrow> 'u connAuthAck \<Rightarrow> 'u connAuthAck
    \<times> 'u connAuthAck" where
  "ConnAuthAck_InternalSwap m other =
     (m\<lparr>caa_status := caa_status other, caa_feedback := caa_feedback other, caa_bits := caa_bits other,
         caa_unknown := caa_unknown other, caa_cached := caa_cached other\<rparr>,
      other\<lparr>caa_status := caa_status m, caa_feedback := caa_feedback m, caa_bits := caa_bits m, caa_unknown
          := caa_unknown m, caa_cached := caa_cached m\<rparr>)"

lemmas ConnAuthAck_has_defs = ConnAuthAck_has_status_def ConnAuthAck_has_feedback_def
lemmas ConnAuthAck_set_defs = ConnAuthAck_set_has_status_def ConnAuthAck_set_has_feedback_def
    ConnAuthAck_set_status_def ConnAuthAck_set_feedback_def

text \<open>A message as the setters build it: known has-bits only, defaults where a bit is off, strings of a
  length the format can carry, no unknown fields, no cached sizes yet.\<close>

definition ConnAuthAck_built :: "'u connAuthAck \<Rightarrow> bool" where
  "ConnAuthAck_built m \<longleftrightarrow>
     (\<forall>n. bit (caa_bits m) n \<longrightarrow> n < 2) \<and>
     (\<not> ConnAuthAck_has_status m \<longrightarrow> caa_status m = True) \<and>
     length (caa_feedback m) < 2 ^ 31 \<and>
     (\<not> ConnAuthAck_has_feedback m \<longrightarrow> caa_feedback m = []) \<and>
     caa_unknown m = None \<and>
     caa_cached m = 0"

lemma ConnAuthAck_has_iffs:
  "ConnAuthAck_has_status m \<longleftrightarrow> bit (caa_bits m) 0" "ConnAuthAck_has_feedback m
      \<longleftrightarrow> bit (caa_bits m) 1"
  by (simp_all add: ConnAuthAck_has_defs byte_simps)

lemma ConnAuthAck_initialized_iff:
  "ConnAuthAck_IsInitialized m \<longleftrightarrow> bit (caa_bits m) 0 \<and> bit (caa_bits m) 1"
  by (auto simp: ConnAuthAck_IsInitialized_def byte_simps)

lemma ConnAuthAck_swap: "ConnAuthAck_InternalSwap m other = (other, m)"
  by (cases m; cases other) (simp add: ConnAuthAck_InternalSwap_def)

lemma ConnAuthAck_clear_built: "ConnAuthAck_built m \<Longrightarrow> ConnAuthAck_Clear W m = ConnAuthAck_new"
  by (cases m) (auto simp: ConnAuthAck_Clear_def ConnAuthAck_new_def ConnAuthAck_built_def ConnAuthAck_has_iffs
      byte_simps Let_def)

lemma ConnAuthAck_serialize_agree:
  "ConnAuthAck_SerializeWithCachedSizes W m out = out @ ConnAuthAck_SerializeWithCachedSizesToArray W m"
  by (simp only: ConnAuthAck_SerializeWithCachedSizes_def ConnAuthAck_SerializeWithCachedSizesToArray_def append_if
      foldl_write
      append_assoc Let_def)

context wire_laws begin

lemma ConnAuthAck_top: "top_is (ConnAuthAck_step W) [(1, 8), (2, 18)]"
  unfolding top_is_def
  by (intro exI [of _ caa_unknown] exI [of _ "\<lambda>u m. m\<lparr>caa_unknown := Some u\<rparr>"] allI) (simp
      add: ConnAuthAck_step_def)

lemma ConnAuthAck_run_status:
  "merge_run (ConnAuthAck_step W) Top \<lparr>avail = WriteBool W 1 v @ rest, depth = d\<rparr> m =
   merge_run (ConnAuthAck_step W) Top \<lparr>avail = rest, depth = d\<rparr> (ConnAuthAck_set_has_status
       (m\<lparr>caa_status := v\<rparr>))"
  by (rule run_prim [OF ConnAuthAck_top, where n = 1 and f = "NextTag 18 (Parse 2)" and rdr = "ReadBool W"
        and put = "\<lambda>v m. m\<lparr>caa_status := v\<rparr>" and set_has = ConnAuthAck_set_has_status, OF _ _
            _ bool])
    (simp_all add: follow_ok_def GetTagFieldNumber_def ConnAuthAck_step_def)

lemma ConnAuthAck_run_feedback: "length v < 2 ^ 31 \<Longrightarrow>
   merge_run (ConnAuthAck_step W) Top \<lparr>avail = WriteString W 2 v @ rest, depth = d\<rparr> m =
   merge_run (ConnAuthAck_step W) Top \<lparr>avail = rest, depth = d\<rparr> ((ConnAuthAck_set_has_feedback
       m)\<lparr>caa_feedback := v\<rparr>)"
  by (rule run_str [OF ConnAuthAck_top, where n = 2 and f = "AtEnd" and rdr = "ReadString W" and get = caa_feedback
        and put = "\<lambda>v m. m\<lparr>caa_feedback := v\<rparr>" and set_has = ConnAuthAck_set_has_feedback, OF
            _ _ _ str])
    (simp_all add: follow_ok_def GetTagFieldNumber_def ConnAuthAck_step_def)

lemmas ConnAuthAck_runs = ConnAuthAck_run_status ConnAuthAck_run_feedback
  ConnAuthAck_run_feedback [where rest = "[]", unfolded append_Nil2]

lemma ConnAuthAck_run_end: "merge_run (ConnAuthAck_step W) Top \<lparr>avail = [], depth = d\<rparr> m = Some
    (True, \<lparr>avail = [], depth = d\<rparr>, m)"
  by (rule run_end) (simp add: ConnAuthAck_step_def)

lemma ConnAuthAck_returns: "ConnAuthAck_MergePartialFromCodedStream W inp m \<noteq> None"
  unfolding ConnAuthAck_MergePartialFromCodedStream_def
proof (rule run_returns)
  show "parse_rank p' inp' < parse_rank p inp" if "ConnAuthAck_step W p inp m = Goto p' inp' m'" for p inp m p'
      inp' m'
  proof (cases p)
    case Top
    with that show ?thesis
      by (auto simp: ConnAuthAck_step_def dest!: switch_rank)
  next
    case (Parse n)
    with that show ?thesis
      by (auto simp: ConnAuthAck_step_def follow_pos_def split: if_splits
          dest!: prim_ranks str_ranks)
  next
    case (ParseLoop n)
    with that show ?thesis by (simp add: ConnAuthAck_step_def)
  qed
  show "ConnAuthAck_step W p inp m \<noteq> Diverges" for p inp m
    by (simp add: ConnAuthAck_step_def no_Diverges split: pc.split)
qed

lemma ConnAuthAck_size:
  assumes "length (caa_feedback m) < 2 ^ 31"
  shows "fst (ConnAuthAck_ByteSize W m) = int (length (ConnAuthAck_SerializeWithCachedSizesToArray W (snd
      (ConnAuthAck_ByteSize W m))))"
  using assms
  by (simp add: ConnAuthAck_ByteSize_def ConnAuthAck_RequiredFieldsByteSizeFallback_def
      ConnAuthAck_SerializeWithCachedSizesToArray_def
      ConnAuthAck_has_iffs byte_simps len_int64 len_int32 len_bool len_str len_bytes len_unknown_bytes Let_def)

lemma ConnAuthAck_roundtrip:
  assumes "ConnAuthAck_built m" and "ConnAuthAck_IsInitialized m"
  shows "ConnAuthAck_MergePartialFromCodedStream W
      \<lparr>avail = ConnAuthAck_SerializeWithCachedSizesToArray W (snd (ConnAuthAck_ByteSize W m)), depth =
          d\<rparr> ConnAuthAck_new =
    Some (True, \<lparr>avail = [], depth = d\<rparr>, m)"
proof -
  have b: "bit (caa_bits m) 0" "bit (caa_bits m) 1"
    using assms(2) by (simp_all add: ConnAuthAck_initialized_iff)
  have k: "\<forall>n. bit (caa_bits m) n \<longrightarrow> n < 2" using assms(1) by (simp add: ConnAuthAck_built_def)
  have w: "caa_bits m = flags (bit (caa_bits m))" by (rule known_bits [OF k]) simp
  show ?thesis
  proof -
    have "caa_bits m = 3"
      by (subst w) (use no_flag_above [OF k] b in \<open>simp add: flags_def\<close>)
    with assms(1) b show ?thesis
      by (cases m) (simp add: ConnAuthAck_MergePartialFromCodedStream_def
          ConnAuthAck_SerializeWithCachedSizesToArray_def
          ConnAuthAck_ByteSize_def ConnAuthAck_has_iffs ConnAuthAck_runs ConnAuthAck_run_end ConnAuthAck_built_def
              ConnAuthAck_new_def ConnAuthAck_set_defs Let_def del: One_nat_def)
  qed
qed

lemma ConnAuthAck_copy:
  assumes "ConnAuthAck_built frm" and "ConnAuthAck_IsInitialized frm" and "ConnAuthAck_built m"
  shows "ConnAuthAck_CopyFrom W frm m = frm"
proof -
  have b: "bit (caa_bits frm) 0" "bit (caa_bits frm) 1"
    using assms(2) by (simp_all add: ConnAuthAck_initialized_iff)
  have k: "\<forall>n. bit (caa_bits frm) n \<longrightarrow> n < 2" using assms(1) by (simp add:
      ConnAuthAck_built_def)
  have w: "caa_bits frm = flags (bit (caa_bits frm))" by (rule known_bits [OF k]) simp
  show ?thesis
  proof -
    have "caa_bits frm = 3"
      by (subst w) (use no_flag_above [OF k] b in \<open>simp add: flags_def\<close>)
    with assms(1) b show ?thesis
      unfolding ConnAuthAck_CopyFrom_def ConnAuthAck_clear_built [OF assms(3)]
      by (cases frm) (simp add: ConnAuthAck_MergeFrom_def ConnAuthAck_has_iffs ConnAuthAck_built_def
          ConnAuthAck_new_def ConnAuthAck_set_defs
          byte_simps Let_def)
  qed
qed

end

end
