(* ===== verification/PbMessageStoreAck.thy ===== *)
theory PbMessageStoreAck
  imports WireFormat
begin

text \<open>
  The class \<^verbatim>\<open>MessageStoreAck\<close> of \<^verbatim>\<open>kite_remoting.pb.h\<close> and
  \<^verbatim>\<open>kite_remoting.pb.cc\<close>: the server's answer to a message it was asked to store. The record
  holds the has-bits, the fields, the unknown fields and the cached size; each method is one definition. The lemmas in
  \<open>wire_laws\<close> show that a message built by its setters is sized exactly, parsed back from its own bytes,
  and copied, and that parsing always returns.
\<close>

section \<open>MessageStoreAck\<close>

record 'u messageStoreAck =
  msa_bits :: int32
  msa_messageid :: "byte list"
  msa_status :: bool
  msa_feedback :: "byte list"
  msa_unknown :: "'u option"
  msa_cached :: int

definition MessageStoreAck_new :: "'u messageStoreAck" where
  "MessageStoreAck_new = \<lparr>msa_bits = 0, msa_messageid = [], msa_status = True, msa_feedback = [],
     msa_unknown = None, msa_cached = 0\<rparr>"

definition MessageStoreAck_has_messageid :: "'u messageStoreAck \<Rightarrow> bool" where
  "MessageStoreAck_has_messageid m \<longleftrightarrow> msa_bits m AND 1 \<noteq> 0"

definition MessageStoreAck_set_has_messageid :: "'u messageStoreAck \<Rightarrow> 'u messageStoreAck" where
  "MessageStoreAck_set_has_messageid m = m\<lparr>msa_bits := msa_bits m OR 1\<rparr>"

definition MessageStoreAck_set_messageid :: "byte list \<Rightarrow> 'u messageStoreAck \<Rightarrow> 'u
    messageStoreAck" where
  "MessageStoreAck_set_messageid v m = (MessageStoreAck_set_has_messageid m)\<lparr>msa_messageid := v\<rparr>"

definition MessageStoreAck_has_status :: "'u messageStoreAck \<Rightarrow> bool" where
  "MessageStoreAck_has_status m \<longleftrightarrow> msa_bits m AND 2 \<noteq> 0"

definition MessageStoreAck_set_has_status :: "'u messageStoreAck \<Rightarrow> 'u messageStoreAck" where
  "MessageStoreAck_set_has_status m = m\<lparr>msa_bits := msa_bits m OR 2\<rparr>"

definition MessageStoreAck_set_status :: "bool \<Rightarrow> 'u messageStoreAck \<Rightarrow> 'u messageStoreAck"
    where
  "MessageStoreAck_set_status v m = (MessageStoreAck_set_has_status m)\<lparr>msa_status := v\<rparr>"

definition MessageStoreAck_has_feedback :: "'u messageStoreAck \<Rightarrow> bool" where
  "MessageStoreAck_has_feedback m \<longleftrightarrow> msa_bits m AND 4 \<noteq> 0"

definition MessageStoreAck_set_has_feedback :: "'u messageStoreAck \<Rightarrow> 'u messageStoreAck" where
  "MessageStoreAck_set_has_feedback m = m\<lparr>msa_bits := msa_bits m OR 4\<rparr>"

definition MessageStoreAck_set_feedback :: "byte list \<Rightarrow> 'u messageStoreAck \<Rightarrow> 'u
    messageStoreAck" where
  "MessageStoreAck_set_feedback v m = (MessageStoreAck_set_has_feedback m)\<lparr>msa_feedback := v\<rparr>"

definition MessageStoreAck_Clear :: "'u wire \<Rightarrow> 'u messageStoreAck \<Rightarrow> 'u messageStoreAck" where
  "MessageStoreAck_Clear W m =
     (let m = (if msa_bits m AND 7 \<noteq> 0
            then (let m = (if MessageStoreAck_has_messageid m then m\<lparr>msa_messageid := []\<rparr> else m);
                      m = m\<lparr>msa_status := True\<rparr>;
                      m = (if MessageStoreAck_has_feedback m then m\<lparr>msa_feedback := []\<rparr> else m)
                  in m)
            else m);
          m = m\<lparr>msa_bits := 0\<rparr>
      in m\<lparr>msa_unknown := clear_unknown W (msa_unknown m)\<rparr>)"

definition MessageStoreAck_step :: "'u wire \<Rightarrow> 'u messageStoreAck parse_step" where
  "MessageStoreAck_step W p inp m =
     (case p of
        Top \<Rightarrow> switch_tag W [(1, 10), (2, 16), (3, 26)] msa_unknown
          (\<lambda>u m. m\<lparr>msa_unknown := Some u\<rparr>) inp m
      | Parse n \<Rightarrow>
          if n = 1 then read_str W (ReadString W) msa_messageid (\<lambda>v m. m\<lparr>msa_messageid := v\<rparr>)
              MessageStoreAck_set_has_messageid
            (NextTag 16 (Parse 2)) inp m
          else if n = 2 then read_prim W (ReadBool W) (\<lambda>v m. m\<lparr>msa_status := v\<rparr>)
              MessageStoreAck_set_has_status
            (NextTag 26 (Parse 3)) inp m
          else read_str W (ReadString W) msa_feedback (\<lambda>v m. m\<lparr>msa_feedback := v\<rparr>)
              MessageStoreAck_set_has_feedback
            AtEnd inp m
      | ParseLoop n \<Rightarrow> Ends False inp m)"

definition MessageStoreAck_MergePartialFromCodedStream :: "'u wire \<Rightarrow> 'u messageStoreAck merger" where
  "MessageStoreAck_MergePartialFromCodedStream W inp m = merge_run (MessageStoreAck_step W) Top inp m"

definition MessageStoreAck_SerializeWithCachedSizes :: "'u wire \<Rightarrow> 'u messageStoreAck \<Rightarrow> byte
    list \<Rightarrow> byte list" where
  "MessageStoreAck_SerializeWithCachedSizes W m out =
     (let out = (if MessageStoreAck_has_messageid m then out @ WriteString W 1 (msa_messageid m) else out);
          out = (if MessageStoreAck_has_status m then out @ WriteBool W 2 (msa_status m) else out);
          out = (if MessageStoreAck_has_feedback m then out @ WriteString W 3 (msa_feedback m) else out)
      in out @ unknown_bytes W (msa_unknown m))"

definition MessageStoreAck_SerializeWithCachedSizesToArray :: "'u wire \<Rightarrow> 'u messageStoreAck
    \<Rightarrow> byte list" where
  "MessageStoreAck_SerializeWithCachedSizesToArray W m =
     (if MessageStoreAck_has_messageid m then WriteString W 1 (msa_messageid m) else []) @
     (if MessageStoreAck_has_status m then WriteBool W 2 (msa_status m) else []) @
     (if MessageStoreAck_has_feedback m then WriteString W 3 (msa_feedback m) else []) @
     unknown_bytes W (msa_unknown m)"

definition MessageStoreAck_RequiredFieldsByteSizeFallback :: "'u wire \<Rightarrow> 'u messageStoreAck
    \<Rightarrow> int" where
  "MessageStoreAck_RequiredFieldsByteSizeFallback W m =
     (if MessageStoreAck_has_messageid m then (1 + StringSize W (msa_messageid m)) else 0) +
     (if MessageStoreAck_has_status m then (1 + 1) else 0) +
     (if MessageStoreAck_has_feedback m then (1 + StringSize W (msa_feedback m)) else 0)"

definition MessageStoreAck_ByteSize :: "'u wire \<Rightarrow> 'u messageStoreAck \<Rightarrow> int \<times> 'u
    messageStoreAck" where
  "MessageStoreAck_ByteSize W m =
     (let total_size = (if (msa_bits m AND 7) XOR 7 = 0
            then (1 + StringSize W (msa_messageid m)) +
              (1 + 1) +
              (1 + StringSize W (msa_feedback m))
            else MessageStoreAck_RequiredFieldsByteSizeFallback W m);
          total_size = total_size + unknown_size W (msa_unknown m)
      in (total_size, m\<lparr>msa_cached := total_size\<rparr>))"

definition MessageStoreAck_MergeFrom :: "'u wire \<Rightarrow> 'u messageStoreAck \<Rightarrow> 'u messageStoreAck
    \<Rightarrow> 'u messageStoreAck" where
  "MessageStoreAck_MergeFrom W frm m =
     (let m = (if msa_bits frm AND 255 \<noteq> 0
            then (let m = (if MessageStoreAck_has_messageid frm then (MessageStoreAck_set_has_messageid
                m)\<lparr>msa_messageid := msa_messageid frm\<rparr> else m);
                      m = (if MessageStoreAck_has_status frm then MessageStoreAck_set_status (msa_status frm) m
                          else m);
                      m = (if MessageStoreAck_has_feedback frm then (MessageStoreAck_set_has_feedback
                          m)\<lparr>msa_feedback := msa_feedback frm\<rparr> else m)
                  in m)
            else m)
      in m\<lparr>msa_unknown := merge_unknown W (msa_unknown frm) (msa_unknown m)\<rparr>)"

definition MessageStoreAck_CopyFrom :: "'u wire \<Rightarrow> 'u messageStoreAck \<Rightarrow> 'u messageStoreAck
    \<Rightarrow> 'u messageStoreAck" where
  "MessageStoreAck_CopyFrom W frm m = MessageStoreAck_MergeFrom W frm (MessageStoreAck_Clear W m)"

definition MessageStoreAck_IsInitialized :: "'u messageStoreAck \<Rightarrow> bool" where
  "MessageStoreAck_IsInitialized m =
     (if msa_bits m AND 7 \<noteq> 7 then False
      else True)"

definition MessageStoreAck_InternalSwap :: "'u messageStoreAck \<Rightarrow> 'u messageStoreAck \<Rightarrow> 'u
    messageStoreAck \<times> 'u messageStoreAck" where
  "MessageStoreAck_InternalSwap m other =
     (m\<lparr>msa_messageid := msa_messageid other, msa_status := msa_status other, msa_feedback := msa_feedback
         other, msa_bits := msa_bits other, msa_unknown := msa_unknown other, msa_cached := msa_cached other\<rparr>,
      other\<lparr>msa_messageid := msa_messageid m, msa_status := msa_status m, msa_feedback := msa_feedback m,
          msa_bits := msa_bits m, msa_unknown := msa_unknown m, msa_cached := msa_cached m\<rparr>)"

lemmas MessageStoreAck_has_defs = MessageStoreAck_has_messageid_def MessageStoreAck_has_status_def
    MessageStoreAck_has_feedback_def
lemmas MessageStoreAck_set_defs = MessageStoreAck_set_has_messageid_def MessageStoreAck_set_has_status_def
    MessageStoreAck_set_has_feedback_def MessageStoreAck_set_messageid_def MessageStoreAck_set_status_def
    MessageStoreAck_set_feedback_def

text \<open>A message as the setters build it: known has-bits only, defaults where a bit is off, strings of a
  length the format can carry, no unknown fields, no cached sizes yet.\<close>

definition MessageStoreAck_built :: "'u messageStoreAck \<Rightarrow> bool" where
  "MessageStoreAck_built m \<longleftrightarrow>
     (\<forall>n. bit (msa_bits m) n \<longrightarrow> n < 3) \<and>
     length (msa_messageid m) < 2 ^ 31 \<and>
     (\<not> MessageStoreAck_has_messageid m \<longrightarrow> msa_messageid m = []) \<and>
     (\<not> MessageStoreAck_has_status m \<longrightarrow> msa_status m = True) \<and>
     length (msa_feedback m) < 2 ^ 31 \<and>
     (\<not> MessageStoreAck_has_feedback m \<longrightarrow> msa_feedback m = []) \<and>
     msa_unknown m = None \<and>
     msa_cached m = 0"

lemma MessageStoreAck_has_iffs:
  "MessageStoreAck_has_messageid m \<longleftrightarrow> bit (msa_bits m) 0" "MessageStoreAck_has_status m
      \<longleftrightarrow> bit (msa_bits m) 1" "MessageStoreAck_has_feedback m \<longleftrightarrow> bit (msa_bits
      m) 2"
  by (simp_all add: MessageStoreAck_has_defs byte_simps)

lemma MessageStoreAck_initialized_iff:
  "MessageStoreAck_IsInitialized m \<longleftrightarrow> bit (msa_bits m) 0 \<and> bit (msa_bits m) 1 \<and> bit
      (msa_bits m) 2"
  by (auto simp: MessageStoreAck_IsInitialized_def byte_simps)

lemma MessageStoreAck_swap: "MessageStoreAck_InternalSwap m other = (other, m)"
  by (cases m; cases other) (simp add: MessageStoreAck_InternalSwap_def)

lemma MessageStoreAck_clear_built: "MessageStoreAck_built m \<Longrightarrow> MessageStoreAck_Clear W m =
    MessageStoreAck_new"
  by (cases m) (auto simp: MessageStoreAck_Clear_def MessageStoreAck_new_def MessageStoreAck_built_def
      MessageStoreAck_has_iffs byte_simps Let_def)

lemma MessageStoreAck_serialize_agree:
  "MessageStoreAck_SerializeWithCachedSizes W m out = out @ MessageStoreAck_SerializeWithCachedSizesToArray W m"
  by (simp only: MessageStoreAck_SerializeWithCachedSizes_def MessageStoreAck_SerializeWithCachedSizesToArray_def
      append_if foldl_write
      append_assoc Let_def)

context wire_laws begin

lemma MessageStoreAck_top: "top_is (MessageStoreAck_step W) [(1, 10), (2, 16), (3, 26)]"
  unfolding top_is_def
  by (intro exI [of _ msa_unknown] exI [of _ "\<lambda>u m. m\<lparr>msa_unknown := Some u\<rparr>"] allI) (simp
      add: MessageStoreAck_step_def)

lemma MessageStoreAck_run_messageid: "length v < 2 ^ 31 \<Longrightarrow>
   merge_run (MessageStoreAck_step W) Top \<lparr>avail = WriteString W 1 v @ rest, depth = d\<rparr> m =
   merge_run (MessageStoreAck_step W) Top \<lparr>avail = rest, depth = d\<rparr>
       ((MessageStoreAck_set_has_messageid m)\<lparr>msa_messageid := v\<rparr>)"
  by (rule run_str [OF MessageStoreAck_top, where n = 1 and f = "NextTag 16 (Parse 2)" and rdr = "ReadString W" and
      get = msa_messageid
        and put = "\<lambda>v m. m\<lparr>msa_messageid := v\<rparr>" and set_has =
            MessageStoreAck_set_has_messageid, OF _ _ _ str])
    (simp_all add: follow_ok_def GetTagFieldNumber_def MessageStoreAck_step_def)

lemma MessageStoreAck_run_status:
  "merge_run (MessageStoreAck_step W) Top \<lparr>avail = WriteBool W 2 v @ rest, depth = d\<rparr> m =
   merge_run (MessageStoreAck_step W) Top \<lparr>avail = rest, depth = d\<rparr> (MessageStoreAck_set_has_status
       (m\<lparr>msa_status := v\<rparr>))"
  by (rule run_prim [OF MessageStoreAck_top, where n = 2 and f = "NextTag 26 (Parse 3)" and rdr = "ReadBool W"
        and put = "\<lambda>v m. m\<lparr>msa_status := v\<rparr>" and set_has = MessageStoreAck_set_has_status, OF
            _ _ _ bool])
    (simp_all add: follow_ok_def GetTagFieldNumber_def MessageStoreAck_step_def)

lemma MessageStoreAck_run_feedback: "length v < 2 ^ 31 \<Longrightarrow>
   merge_run (MessageStoreAck_step W) Top \<lparr>avail = WriteString W 3 v @ rest, depth = d\<rparr> m =
   merge_run (MessageStoreAck_step W) Top \<lparr>avail = rest, depth = d\<rparr>
       ((MessageStoreAck_set_has_feedback m)\<lparr>msa_feedback := v\<rparr>)"
  by (rule run_str [OF MessageStoreAck_top, where n = 3 and f = "AtEnd" and rdr = "ReadString W" and get =
      msa_feedback
        and put = "\<lambda>v m. m\<lparr>msa_feedback := v\<rparr>" and set_has =
            MessageStoreAck_set_has_feedback, OF _ _ _ str])
    (simp_all add: follow_ok_def GetTagFieldNumber_def MessageStoreAck_step_def)

lemmas MessageStoreAck_runs = MessageStoreAck_run_messageid MessageStoreAck_run_status MessageStoreAck_run_feedback
  MessageStoreAck_run_feedback [where rest = "[]", unfolded append_Nil2]

lemma MessageStoreAck_run_end: "merge_run (MessageStoreAck_step W) Top \<lparr>avail = [], depth = d\<rparr> m =
    Some (True, \<lparr>avail = [], depth = d\<rparr>, m)"
  by (rule run_end) (simp add: MessageStoreAck_step_def)

lemma MessageStoreAck_returns: "MessageStoreAck_MergePartialFromCodedStream W inp m \<noteq> None"
  unfolding MessageStoreAck_MergePartialFromCodedStream_def
proof (rule run_returns)
  show "parse_rank p' inp' < parse_rank p inp" if "MessageStoreAck_step W p inp m = Goto p' inp' m'" for p inp m p'
      inp' m'
  proof (cases p)
    case Top
    with that show ?thesis
      by (auto simp: MessageStoreAck_step_def dest!: switch_rank)
  next
    case (Parse n)
    with that show ?thesis
      by (auto simp: MessageStoreAck_step_def follow_pos_def split: if_splits
          dest!: prim_ranks str_ranks)
  next
    case (ParseLoop n)
    with that show ?thesis by (simp add: MessageStoreAck_step_def)
  qed
  show "MessageStoreAck_step W p inp m \<noteq> Diverges" for p inp m
    by (simp add: MessageStoreAck_step_def no_Diverges split: pc.split)
qed

lemma MessageStoreAck_size:
  assumes "length (msa_messageid m) < 2 ^ 31" and "length (msa_feedback m) < 2 ^ 31"
  shows "fst (MessageStoreAck_ByteSize W m) = int (length (MessageStoreAck_SerializeWithCachedSizesToArray W (snd
      (MessageStoreAck_ByteSize W m))))"
  using assms
  by (simp add: MessageStoreAck_ByteSize_def MessageStoreAck_RequiredFieldsByteSizeFallback_def
      MessageStoreAck_SerializeWithCachedSizesToArray_def
      MessageStoreAck_has_iffs byte_simps len_int64 len_int32 len_bool len_str len_bytes len_unknown_bytes Let_def)

lemma MessageStoreAck_roundtrip:
  assumes "MessageStoreAck_built m" and "MessageStoreAck_IsInitialized m"
  shows "MessageStoreAck_MergePartialFromCodedStream W
      \<lparr>avail = MessageStoreAck_SerializeWithCachedSizesToArray W (snd (MessageStoreAck_ByteSize W m)), depth
          = d\<rparr> MessageStoreAck_new =
    Some (True, \<lparr>avail = [], depth = d\<rparr>, m)"
proof -
  have b: "bit (msa_bits m) 0" "bit (msa_bits m) 1" "bit (msa_bits m) 2"
    using assms(2) by (simp_all add: MessageStoreAck_initialized_iff)
  have k: "\<forall>n. bit (msa_bits m) n \<longrightarrow> n < 3" using assms(1) by (simp add:
      MessageStoreAck_built_def)
  have w: "msa_bits m = flags (bit (msa_bits m))" by (rule known_bits [OF k]) simp
  show ?thesis
  proof -
    have "msa_bits m = 7"
      by (subst w) (use no_flag_above [OF k] b in \<open>simp add: flags_def\<close>)
    with assms(1) b show ?thesis
      by (cases m) (simp add: MessageStoreAck_MergePartialFromCodedStream_def
          MessageStoreAck_SerializeWithCachedSizesToArray_def
          MessageStoreAck_ByteSize_def MessageStoreAck_has_iffs MessageStoreAck_runs MessageStoreAck_run_end
              MessageStoreAck_built_def MessageStoreAck_new_def MessageStoreAck_set_defs Let_def del: One_nat_def)
  qed
qed

lemma MessageStoreAck_copy:
  assumes "MessageStoreAck_built frm" and "MessageStoreAck_IsInitialized frm" and "MessageStoreAck_built m"
  shows "MessageStoreAck_CopyFrom W frm m = frm"
proof -
  have b: "bit (msa_bits frm) 0" "bit (msa_bits frm) 1" "bit (msa_bits frm) 2"
    using assms(2) by (simp_all add: MessageStoreAck_initialized_iff)
  have k: "\<forall>n. bit (msa_bits frm) n \<longrightarrow> n < 3" using assms(1) by (simp add:
      MessageStoreAck_built_def)
  have w: "msa_bits frm = flags (bit (msa_bits frm))" by (rule known_bits [OF k]) simp
  show ?thesis
  proof -
    have "msa_bits frm = 7"
      by (subst w) (use no_flag_above [OF k] b in \<open>simp add: flags_def\<close>)
    with assms(1) b show ?thesis
      unfolding MessageStoreAck_CopyFrom_def MessageStoreAck_clear_built [OF assms(3)]
      by (cases frm) (simp add: MessageStoreAck_MergeFrom_def MessageStoreAck_has_iffs MessageStoreAck_built_def
          MessageStoreAck_new_def MessageStoreAck_set_defs
          byte_simps Let_def)
  qed
qed

end

end
