(* ===== verification/PbDeliverAck.thy ===== *)
theory PbDeliverAck
  imports WireFormat
begin

text \<open>
  The class \<^verbatim>\<open>DeliverAck\<close> of \<^verbatim>\<open>kite_remoting.pb.h\<close> and
  \<^verbatim>\<open>kite_remoting.pb.cc\<close>: the client's acknowledgement of a message the server delivered. The
  record holds the has-bits, the fields, the unknown fields and the cached size; each method is one definition. The
  lemmas in \<open>wire_laws\<close> show that a message built by its setters is sized exactly, parsed back from its own
  bytes, and copied, and that parsing always returns.
\<close>

section \<open>DeliverAck\<close>

record 'u deliverAck =
  dla_bits :: int32
  dla_messageid :: "byte list"
  dla_topic :: "byte list"
  dla_messagetype :: "byte list"
  dla_groupid :: "byte list"
  dla_status :: bool
  dla_feedback :: "byte list"
  dla_unknown :: "'u option"
  dla_cached :: int

definition DeliverAck_new :: "'u deliverAck" where
  "DeliverAck_new = \<lparr>dla_bits = 0, dla_messageid = [], dla_topic = [], dla_messagetype = [], dla_groupid =
      [], dla_status = True, dla_feedback = [],
     dla_unknown = None, dla_cached = 0\<rparr>"

definition DeliverAck_has_messageid :: "'u deliverAck \<Rightarrow> bool" where
  "DeliverAck_has_messageid m \<longleftrightarrow> dla_bits m AND 1 \<noteq> 0"

definition DeliverAck_set_has_messageid :: "'u deliverAck \<Rightarrow> 'u deliverAck" where
  "DeliverAck_set_has_messageid m = m\<lparr>dla_bits := dla_bits m OR 1\<rparr>"

definition DeliverAck_set_messageid :: "byte list \<Rightarrow> 'u deliverAck \<Rightarrow> 'u deliverAck" where
  "DeliverAck_set_messageid v m = (DeliverAck_set_has_messageid m)\<lparr>dla_messageid := v\<rparr>"

definition DeliverAck_has_topic :: "'u deliverAck \<Rightarrow> bool" where
  "DeliverAck_has_topic m \<longleftrightarrow> dla_bits m AND 2 \<noteq> 0"

definition DeliverAck_set_has_topic :: "'u deliverAck \<Rightarrow> 'u deliverAck" where
  "DeliverAck_set_has_topic m = m\<lparr>dla_bits := dla_bits m OR 2\<rparr>"

definition DeliverAck_set_topic :: "byte list \<Rightarrow> 'u deliverAck \<Rightarrow> 'u deliverAck" where
  "DeliverAck_set_topic v m = (DeliverAck_set_has_topic m)\<lparr>dla_topic := v\<rparr>"

definition DeliverAck_has_messagetype :: "'u deliverAck \<Rightarrow> bool" where
  "DeliverAck_has_messagetype m \<longleftrightarrow> dla_bits m AND 4 \<noteq> 0"

definition DeliverAck_set_has_messagetype :: "'u deliverAck \<Rightarrow> 'u deliverAck" where
  "DeliverAck_set_has_messagetype m = m\<lparr>dla_bits := dla_bits m OR 4\<rparr>"

definition DeliverAck_set_messagetype :: "byte list \<Rightarrow> 'u deliverAck \<Rightarrow> 'u deliverAck" where
  "DeliverAck_set_messagetype v m = (DeliverAck_set_has_messagetype m)\<lparr>dla_messagetype := v\<rparr>"

definition DeliverAck_has_groupid :: "'u deliverAck \<Rightarrow> bool" where
  "DeliverAck_has_groupid m \<longleftrightarrow> dla_bits m AND 8 \<noteq> 0"

definition DeliverAck_set_has_groupid :: "'u deliverAck \<Rightarrow> 'u deliverAck" where
  "DeliverAck_set_has_groupid m = m\<lparr>dla_bits := dla_bits m OR 8\<rparr>"

definition DeliverAck_set_groupid :: "byte list \<Rightarrow> 'u deliverAck \<Rightarrow> 'u deliverAck" where
  "DeliverAck_set_groupid v m = (DeliverAck_set_has_groupid m)\<lparr>dla_groupid := v\<rparr>"

definition DeliverAck_has_status :: "'u deliverAck \<Rightarrow> bool" where
  "DeliverAck_has_status m \<longleftrightarrow> dla_bits m AND 16 \<noteq> 0"

definition DeliverAck_set_has_status :: "'u deliverAck \<Rightarrow> 'u deliverAck" where
  "DeliverAck_set_has_status m = m\<lparr>dla_bits := dla_bits m OR 16\<rparr>"

definition DeliverAck_set_status :: "bool \<Rightarrow> 'u deliverAck \<Rightarrow> 'u deliverAck" where
  "DeliverAck_set_status v m = (DeliverAck_set_has_status m)\<lparr>dla_status := v\<rparr>"

definition DeliverAck_has_feedback :: "'u deliverAck \<Rightarrow> bool" where
  "DeliverAck_has_feedback m \<longleftrightarrow> dla_bits m AND 32 \<noteq> 0"

definition DeliverAck_set_has_feedback :: "'u deliverAck \<Rightarrow> 'u deliverAck" where
  "DeliverAck_set_has_feedback m = m\<lparr>dla_bits := dla_bits m OR 32\<rparr>"

definition DeliverAck_set_feedback :: "byte list \<Rightarrow> 'u deliverAck \<Rightarrow> 'u deliverAck" where
  "DeliverAck_set_feedback v m = (DeliverAck_set_has_feedback m)\<lparr>dla_feedback := v\<rparr>"

definition DeliverAck_Clear :: "'u wire \<Rightarrow> 'u deliverAck \<Rightarrow> 'u deliverAck" where
  "DeliverAck_Clear W m =
     (let m = (if dla_bits m AND 63 \<noteq> 0
            then (let m = (if DeliverAck_has_messageid m then m\<lparr>dla_messageid := []\<rparr> else m);
                      m = (if DeliverAck_has_topic m then m\<lparr>dla_topic := []\<rparr> else m);
                      m = (if DeliverAck_has_messagetype m then m\<lparr>dla_messagetype := []\<rparr> else m);
                      m = (if DeliverAck_has_groupid m then m\<lparr>dla_groupid := []\<rparr> else m);
                      m = m\<lparr>dla_status := True\<rparr>;
                      m = (if DeliverAck_has_feedback m then m\<lparr>dla_feedback := []\<rparr> else m)
                  in m)
            else m);
          m = m\<lparr>dla_bits := 0\<rparr>
      in m\<lparr>dla_unknown := clear_unknown W (dla_unknown m)\<rparr>)"

definition DeliverAck_step :: "'u wire \<Rightarrow> 'u deliverAck parse_step" where
  "DeliverAck_step W p inp m =
     (case p of
        Top \<Rightarrow> switch_tag W [(1, 10), (2, 18), (3, 26), (4, 34), (5, 40), (6, 50)] dla_unknown
          (\<lambda>u m. m\<lparr>dla_unknown := Some u\<rparr>) inp m
      | Parse n \<Rightarrow>
          if n = 1 then read_str W (ReadString W) dla_messageid (\<lambda>v m. m\<lparr>dla_messageid := v\<rparr>)
              DeliverAck_set_has_messageid
            (NextTag 18 (Parse 2)) inp m
          else if n = 2 then read_str W (ReadString W) dla_topic (\<lambda>v m. m\<lparr>dla_topic := v\<rparr>)
              DeliverAck_set_has_topic
            (NextTag 26 (Parse 3)) inp m
          else if n = 3 then read_str W (ReadString W) dla_messagetype (\<lambda>v m. m\<lparr>dla_messagetype :=
              v\<rparr>) DeliverAck_set_has_messagetype
            (NextTag 34 (Parse 4)) inp m
          else if n = 4 then read_str W (ReadString W) dla_groupid (\<lambda>v m. m\<lparr>dla_groupid :=
              v\<rparr>) DeliverAck_set_has_groupid
            (NextTag 40 (Parse 5)) inp m
          else if n = 5 then read_prim W (ReadBool W) (\<lambda>v m. m\<lparr>dla_status := v\<rparr>)
              DeliverAck_set_has_status
            (NextTag 50 (Parse 6)) inp m
          else read_str W (ReadString W) dla_feedback (\<lambda>v m. m\<lparr>dla_feedback := v\<rparr>)
              DeliverAck_set_has_feedback
            AtEnd inp m
      | ParseLoop n \<Rightarrow> Ends False inp m)"

definition DeliverAck_MergePartialFromCodedStream :: "'u wire \<Rightarrow> 'u deliverAck merger" where
  "DeliverAck_MergePartialFromCodedStream W inp m = merge_run (DeliverAck_step W) Top inp m"

definition DeliverAck_SerializeWithCachedSizes :: "'u wire \<Rightarrow> 'u deliverAck \<Rightarrow> byte list
    \<Rightarrow> byte list" where
  "DeliverAck_SerializeWithCachedSizes W m out =
     (let out = (if DeliverAck_has_messageid m then out @ WriteString W 1 (dla_messageid m) else out);
          out = (if DeliverAck_has_topic m then out @ WriteString W 2 (dla_topic m) else out);
          out = (if DeliverAck_has_messagetype m then out @ WriteString W 3 (dla_messagetype m) else out);
          out = (if DeliverAck_has_groupid m then out @ WriteString W 4 (dla_groupid m) else out);
          out = (if DeliverAck_has_status m then out @ WriteBool W 5 (dla_status m) else out);
          out = (if DeliverAck_has_feedback m then out @ WriteString W 6 (dla_feedback m) else out)
      in out @ unknown_bytes W (dla_unknown m))"

definition DeliverAck_SerializeWithCachedSizesToArray :: "'u wire \<Rightarrow> 'u deliverAck \<Rightarrow> byte
    list" where
  "DeliverAck_SerializeWithCachedSizesToArray W m =
     (if DeliverAck_has_messageid m then WriteString W 1 (dla_messageid m) else []) @
     (if DeliverAck_has_topic m then WriteString W 2 (dla_topic m) else []) @
     (if DeliverAck_has_messagetype m then WriteString W 3 (dla_messagetype m) else []) @
     (if DeliverAck_has_groupid m then WriteString W 4 (dla_groupid m) else []) @
     (if DeliverAck_has_status m then WriteBool W 5 (dla_status m) else []) @
     (if DeliverAck_has_feedback m then WriteString W 6 (dla_feedback m) else []) @
     unknown_bytes W (dla_unknown m)"

definition DeliverAck_RequiredFieldsByteSizeFallback :: "'u wire \<Rightarrow> 'u deliverAck \<Rightarrow> int" where
  "DeliverAck_RequiredFieldsByteSizeFallback W m =
     (if DeliverAck_has_messageid m then (1 + StringSize W (dla_messageid m)) else 0) +
     (if DeliverAck_has_topic m then (1 + StringSize W (dla_topic m)) else 0) +
     (if DeliverAck_has_messagetype m then (1 + StringSize W (dla_messagetype m)) else 0) +
     (if DeliverAck_has_groupid m then (1 + StringSize W (dla_groupid m)) else 0) +
     (if DeliverAck_has_status m then (1 + 1) else 0)"

definition DeliverAck_ByteSize :: "'u wire \<Rightarrow> 'u deliverAck \<Rightarrow> int \<times> 'u deliverAck" where
  "DeliverAck_ByteSize W m =
     (let total_size = (if (dla_bits m AND 31) XOR 31 = 0
            then (1 + StringSize W (dla_messageid m)) +
              (1 + StringSize W (dla_topic m)) +
              (1 + StringSize W (dla_messagetype m)) +
              (1 + StringSize W (dla_groupid m)) +
              (1 + 1)
            else DeliverAck_RequiredFieldsByteSizeFallback W m);
          total_size = total_size + (if DeliverAck_has_feedback m then (1 + StringSize W (dla_feedback m)) else 0);
          total_size = total_size + unknown_size W (dla_unknown m)
      in (total_size, m\<lparr>dla_cached := total_size\<rparr>))"

definition DeliverAck_MergeFrom :: "'u wire \<Rightarrow> 'u deliverAck \<Rightarrow> 'u deliverAck \<Rightarrow>
    'u deliverAck" where
  "DeliverAck_MergeFrom W frm m =
     (let m = (if dla_bits frm AND 255 \<noteq> 0
            then (let m = (if DeliverAck_has_messageid frm then (DeliverAck_set_has_messageid
                m)\<lparr>dla_messageid := dla_messageid frm\<rparr> else m);
                      m = (if DeliverAck_has_topic frm then (DeliverAck_set_has_topic m)\<lparr>dla_topic :=
                          dla_topic frm\<rparr> else m);
                      m = (if DeliverAck_has_messagetype frm then (DeliverAck_set_has_messagetype
                          m)\<lparr>dla_messagetype := dla_messagetype frm\<rparr> else m);
                      m = (if DeliverAck_has_groupid frm then (DeliverAck_set_has_groupid m)\<lparr>dla_groupid :=
                          dla_groupid frm\<rparr> else m);
                      m = (if DeliverAck_has_status frm then DeliverAck_set_status (dla_status frm) m else m);
                      m = (if DeliverAck_has_feedback frm then (DeliverAck_set_has_feedback m)\<lparr>dla_feedback
                          := dla_feedback frm\<rparr> else m)
                  in m)
            else m)
      in m\<lparr>dla_unknown := merge_unknown W (dla_unknown frm) (dla_unknown m)\<rparr>)"

definition DeliverAck_CopyFrom :: "'u wire \<Rightarrow> 'u deliverAck \<Rightarrow> 'u deliverAck \<Rightarrow> 'u
    deliverAck" where
  "DeliverAck_CopyFrom W frm m = DeliverAck_MergeFrom W frm (DeliverAck_Clear W m)"

definition DeliverAck_IsInitialized :: "'u deliverAck \<Rightarrow> bool" where
  "DeliverAck_IsInitialized m =
     (if dla_bits m AND 31 \<noteq> 31 then False
      else True)"

definition DeliverAck_InternalSwap :: "'u deliverAck \<Rightarrow> 'u deliverAck \<Rightarrow> 'u deliverAck
    \<times> 'u deliverAck" where
  "DeliverAck_InternalSwap m other =
     (m\<lparr>dla_messageid := dla_messageid other, dla_topic := dla_topic other, dla_messagetype :=
         dla_messagetype other, dla_groupid := dla_groupid other, dla_status := dla_status other, dla_feedback :=
         dla_feedback other, dla_bits := dla_bits other, dla_unknown := dla_unknown other, dla_cached := dla_cached
         other\<rparr>,
      other\<lparr>dla_messageid := dla_messageid m, dla_topic := dla_topic m, dla_messagetype := dla_messagetype
          m, dla_groupid := dla_groupid m, dla_status := dla_status m, dla_feedback := dla_feedback m, dla_bits :=
          dla_bits m, dla_unknown := dla_unknown m, dla_cached := dla_cached m\<rparr>)"

lemmas DeliverAck_has_defs = DeliverAck_has_messageid_def DeliverAck_has_topic_def DeliverAck_has_messagetype_def
    DeliverAck_has_groupid_def DeliverAck_has_status_def DeliverAck_has_feedback_def
lemmas DeliverAck_set_defs = DeliverAck_set_has_messageid_def DeliverAck_set_has_topic_def
    DeliverAck_set_has_messagetype_def DeliverAck_set_has_groupid_def DeliverAck_set_has_status_def
    DeliverAck_set_has_feedback_def DeliverAck_set_messageid_def DeliverAck_set_topic_def
    DeliverAck_set_messagetype_def DeliverAck_set_groupid_def DeliverAck_set_status_def DeliverAck_set_feedback_def

text \<open>A message as the setters build it: known has-bits only, defaults where a bit is off, strings of a
  length the format can carry, no unknown fields, no cached sizes yet.\<close>

definition DeliverAck_built :: "'u deliverAck \<Rightarrow> bool" where
  "DeliverAck_built m \<longleftrightarrow>
     (\<forall>n. bit (dla_bits m) n \<longrightarrow> n < 6) \<and>
     length (dla_messageid m) < 2 ^ 31 \<and>
     (\<not> DeliverAck_has_messageid m \<longrightarrow> dla_messageid m = []) \<and>
     length (dla_topic m) < 2 ^ 31 \<and>
     (\<not> DeliverAck_has_topic m \<longrightarrow> dla_topic m = []) \<and>
     length (dla_messagetype m) < 2 ^ 31 \<and>
     (\<not> DeliverAck_has_messagetype m \<longrightarrow> dla_messagetype m = []) \<and>
     length (dla_groupid m) < 2 ^ 31 \<and>
     (\<not> DeliverAck_has_groupid m \<longrightarrow> dla_groupid m = []) \<and>
     (\<not> DeliverAck_has_status m \<longrightarrow> dla_status m = True) \<and>
     length (dla_feedback m) < 2 ^ 31 \<and>
     (\<not> DeliverAck_has_feedback m \<longrightarrow> dla_feedback m = []) \<and>
     dla_unknown m = None \<and>
     dla_cached m = 0"

lemma DeliverAck_has_iffs:
  "DeliverAck_has_messageid m \<longleftrightarrow> bit (dla_bits m) 0" "DeliverAck_has_topic m
      \<longleftrightarrow> bit (dla_bits m) 1" "DeliverAck_has_messagetype m \<longleftrightarrow> bit (dla_bits
      m) 2" "DeliverAck_has_groupid m \<longleftrightarrow> bit (dla_bits m) 3" "DeliverAck_has_status m
      \<longleftrightarrow> bit (dla_bits m) 4" "DeliverAck_has_feedback m \<longleftrightarrow> bit (dla_bits m) 5"
  by (simp_all add: DeliverAck_has_defs byte_simps)

lemma DeliverAck_initialized_iff:
  "DeliverAck_IsInitialized m \<longleftrightarrow> bit (dla_bits m) 0 \<and> bit (dla_bits m) 1 \<and> bit
      (dla_bits m) 2 \<and> bit (dla_bits m) 3 \<and> bit (dla_bits m) 4"
  by (auto simp: DeliverAck_IsInitialized_def byte_simps)

lemma DeliverAck_swap: "DeliverAck_InternalSwap m other = (other, m)"
  by (cases m; cases other) (simp add: DeliverAck_InternalSwap_def)

lemma DeliverAck_clear_built: "DeliverAck_built m \<Longrightarrow> DeliverAck_Clear W m = DeliverAck_new"
  by (cases m) (auto simp: DeliverAck_Clear_def DeliverAck_new_def DeliverAck_built_def DeliverAck_has_iffs
      byte_simps Let_def)

lemma DeliverAck_serialize_agree:
  "DeliverAck_SerializeWithCachedSizes W m out = out @ DeliverAck_SerializeWithCachedSizesToArray W m"
  by (simp only: DeliverAck_SerializeWithCachedSizes_def DeliverAck_SerializeWithCachedSizesToArray_def append_if
      foldl_write
      append_assoc Let_def)

context wire_laws begin

lemma DeliverAck_top: "top_is (DeliverAck_step W) [(1, 10), (2, 18), (3, 26), (4, 34), (5, 40), (6, 50)]"
  unfolding top_is_def
  by (intro exI [of _ dla_unknown] exI [of _ "\<lambda>u m. m\<lparr>dla_unknown := Some u\<rparr>"] allI) (simp
      add: DeliverAck_step_def)

lemma DeliverAck_run_messageid: "length v < 2 ^ 31 \<Longrightarrow>
   merge_run (DeliverAck_step W) Top \<lparr>avail = WriteString W 1 v @ rest, depth = d\<rparr> m =
   merge_run (DeliverAck_step W) Top \<lparr>avail = rest, depth = d\<rparr> ((DeliverAck_set_has_messageid
       m)\<lparr>dla_messageid := v\<rparr>)"
  by (rule run_str [OF DeliverAck_top, where n = 1 and f = "NextTag 18 (Parse 2)" and rdr = "ReadString W" and get
      = dla_messageid
        and put = "\<lambda>v m. m\<lparr>dla_messageid := v\<rparr>" and set_has = DeliverAck_set_has_messageid,
            OF _ _ _ str])
    (simp_all add: follow_ok_def GetTagFieldNumber_def DeliverAck_step_def)

lemma DeliverAck_run_topic: "length v < 2 ^ 31 \<Longrightarrow>
   merge_run (DeliverAck_step W) Top \<lparr>avail = WriteString W 2 v @ rest, depth = d\<rparr> m =
   merge_run (DeliverAck_step W) Top \<lparr>avail = rest, depth = d\<rparr> ((DeliverAck_set_has_topic
       m)\<lparr>dla_topic := v\<rparr>)"
  by (rule run_str [OF DeliverAck_top, where n = 2 and f = "NextTag 26 (Parse 3)" and rdr = "ReadString W" and get
      = dla_topic
        and put = "\<lambda>v m. m\<lparr>dla_topic := v\<rparr>" and set_has = DeliverAck_set_has_topic, OF _ _ _
            str])
    (simp_all add: follow_ok_def GetTagFieldNumber_def DeliverAck_step_def)

lemma DeliverAck_run_messagetype: "length v < 2 ^ 31 \<Longrightarrow>
   merge_run (DeliverAck_step W) Top \<lparr>avail = WriteString W 3 v @ rest, depth = d\<rparr> m =
   merge_run (DeliverAck_step W) Top \<lparr>avail = rest, depth = d\<rparr> ((DeliverAck_set_has_messagetype
       m)\<lparr>dla_messagetype := v\<rparr>)"
  by (rule run_str [OF DeliverAck_top, where n = 3 and f = "NextTag 34 (Parse 4)" and rdr = "ReadString W" and get
      = dla_messagetype
        and put = "\<lambda>v m. m\<lparr>dla_messagetype := v\<rparr>" and set_has =
            DeliverAck_set_has_messagetype, OF _ _ _ str])
    (simp_all add: follow_ok_def GetTagFieldNumber_def DeliverAck_step_def)

lemma DeliverAck_run_groupid: "length v < 2 ^ 31 \<Longrightarrow>
   merge_run (DeliverAck_step W) Top \<lparr>avail = WriteString W 4 v @ rest, depth = d\<rparr> m =
   merge_run (DeliverAck_step W) Top \<lparr>avail = rest, depth = d\<rparr> ((DeliverAck_set_has_groupid
       m)\<lparr>dla_groupid := v\<rparr>)"
  by (rule run_str [OF DeliverAck_top, where n = 4 and f = "NextTag 40 (Parse 5)" and rdr = "ReadString W" and get
      = dla_groupid
        and put = "\<lambda>v m. m\<lparr>dla_groupid := v\<rparr>" and set_has = DeliverAck_set_has_groupid, OF _
            _ _ str])
    (simp_all add: follow_ok_def GetTagFieldNumber_def DeliverAck_step_def)

lemma DeliverAck_run_status:
  "merge_run (DeliverAck_step W) Top \<lparr>avail = WriteBool W 5 v @ rest, depth = d\<rparr> m =
   merge_run (DeliverAck_step W) Top \<lparr>avail = rest, depth = d\<rparr> (DeliverAck_set_has_status
       (m\<lparr>dla_status := v\<rparr>))"
  by (rule run_prim [OF DeliverAck_top, where n = 5 and f = "NextTag 50 (Parse 6)" and rdr = "ReadBool W"
        and put = "\<lambda>v m. m\<lparr>dla_status := v\<rparr>" and set_has = DeliverAck_set_has_status, OF _ _
            _ bool])
    (simp_all add: follow_ok_def GetTagFieldNumber_def DeliverAck_step_def)

lemma DeliverAck_run_feedback: "length v < 2 ^ 31 \<Longrightarrow>
   merge_run (DeliverAck_step W) Top \<lparr>avail = WriteString W 6 v @ rest, depth = d\<rparr> m =
   merge_run (DeliverAck_step W) Top \<lparr>avail = rest, depth = d\<rparr> ((DeliverAck_set_has_feedback
       m)\<lparr>dla_feedback := v\<rparr>)"
  by (rule run_str [OF DeliverAck_top, where n = 6 and f = "AtEnd" and rdr = "ReadString W" and get = dla_feedback
        and put = "\<lambda>v m. m\<lparr>dla_feedback := v\<rparr>" and set_has = DeliverAck_set_has_feedback, OF
            _ _ _ str])
    (simp_all add: follow_ok_def GetTagFieldNumber_def DeliverAck_step_def)

lemmas DeliverAck_runs = DeliverAck_run_messageid DeliverAck_run_topic DeliverAck_run_messagetype
    DeliverAck_run_groupid DeliverAck_run_status DeliverAck_run_feedback
  DeliverAck_run_feedback [where rest = "[]", unfolded append_Nil2]
  DeliverAck_run_status [where rest = "[]", unfolded append_Nil2]

lemma DeliverAck_run_end: "merge_run (DeliverAck_step W) Top \<lparr>avail = [], depth = d\<rparr> m = Some (True,
    \<lparr>avail = [], depth = d\<rparr>, m)"
  by (rule run_end) (simp add: DeliverAck_step_def)

lemma DeliverAck_returns: "DeliverAck_MergePartialFromCodedStream W inp m \<noteq> None"
  unfolding DeliverAck_MergePartialFromCodedStream_def
proof (rule run_returns)
  show "parse_rank p' inp' < parse_rank p inp" if "DeliverAck_step W p inp m = Goto p' inp' m'" for p inp m p' inp' m'
  proof (cases p)
    case Top
    with that show ?thesis
      by (auto simp: DeliverAck_step_def dest!: switch_rank)
  next
    case (Parse n)
    with that show ?thesis
      by (auto simp: DeliverAck_step_def follow_pos_def split: if_splits
          dest!: prim_ranks str_ranks)
  next
    case (ParseLoop n)
    with that show ?thesis by (simp add: DeliverAck_step_def)
  qed
  show "DeliverAck_step W p inp m \<noteq> Diverges" for p inp m
    by (simp add: DeliverAck_step_def no_Diverges split: pc.split)
qed

lemma DeliverAck_size:
  assumes "length (dla_messageid m) < 2 ^ 31" and "length (dla_topic m) < 2 ^ 31" and "length (dla_messagetype m) <
      2 ^ 31" and "length (dla_groupid m) < 2 ^ 31" and "length (dla_feedback m) < 2 ^ 31"
  shows "fst (DeliverAck_ByteSize W m) = int (length (DeliverAck_SerializeWithCachedSizesToArray W (snd
      (DeliverAck_ByteSize W m))))"
  using assms
  by (simp add: DeliverAck_ByteSize_def DeliverAck_RequiredFieldsByteSizeFallback_def
      DeliverAck_SerializeWithCachedSizesToArray_def
      DeliverAck_has_iffs byte_simps len_int64 len_int32 len_bool len_str len_bytes len_unknown_bytes Let_def)

lemma DeliverAck_roundtrip:
  assumes "DeliverAck_built m" and "DeliverAck_IsInitialized m"
  shows "DeliverAck_MergePartialFromCodedStream W
      \<lparr>avail = DeliverAck_SerializeWithCachedSizesToArray W (snd (DeliverAck_ByteSize W m)), depth =
          d\<rparr> DeliverAck_new =
    Some (True, \<lparr>avail = [], depth = d\<rparr>, m)"
proof -
  have b: "bit (dla_bits m) 0" "bit (dla_bits m) 1" "bit (dla_bits m) 2" "bit (dla_bits m) 3" "bit (dla_bits m) 4"
    using assms(2) by (simp_all add: DeliverAck_initialized_iff)
  have k: "\<forall>n. bit (dla_bits m) n \<longrightarrow> n < 6" using assms(1) by (simp add: DeliverAck_built_def)
  have w: "dla_bits m = flags (bit (dla_bits m))" by (rule known_bits [OF k]) simp
  show ?thesis
  proof (cases "bit (dla_bits m) 5")
    case True
    have "dla_bits m = 63"
      by (subst w) (use no_flag_above [OF k] b True in \<open>simp add: flags_def\<close>)
    with assms(1) True b show ?thesis
      by (cases m) (simp add: DeliverAck_MergePartialFromCodedStream_def
          DeliverAck_SerializeWithCachedSizesToArray_def
          DeliverAck_ByteSize_def DeliverAck_has_iffs DeliverAck_runs DeliverAck_run_end DeliverAck_built_def
              DeliverAck_new_def DeliverAck_set_defs Let_def del: One_nat_def)
  next
    case False
    have "dla_bits m = 31"
      by (subst w) (use no_flag_above [OF k] b False in \<open>simp add: flags_def\<close>)
    with assms(1) False b show ?thesis
      by (cases m) (simp add: DeliverAck_MergePartialFromCodedStream_def
          DeliverAck_SerializeWithCachedSizesToArray_def
          DeliverAck_ByteSize_def DeliverAck_has_iffs DeliverAck_runs DeliverAck_run_end DeliverAck_built_def
              DeliverAck_new_def DeliverAck_set_defs Let_def del: One_nat_def)
  qed
qed

lemma DeliverAck_copy:
  assumes "DeliverAck_built frm" and "DeliverAck_IsInitialized frm" and "DeliverAck_built m"
  shows "DeliverAck_CopyFrom W frm m = frm"
proof -
  have b: "bit (dla_bits frm) 0" "bit (dla_bits frm) 1" "bit (dla_bits frm) 2" "bit (dla_bits frm) 3" "bit
      (dla_bits frm) 4"
    using assms(2) by (simp_all add: DeliverAck_initialized_iff)
  have k: "\<forall>n. bit (dla_bits frm) n \<longrightarrow> n < 6" using assms(1) by (simp add:
      DeliverAck_built_def)
  have w: "dla_bits frm = flags (bit (dla_bits frm))" by (rule known_bits [OF k]) simp
  show ?thesis
  proof (cases "bit (dla_bits frm) 5")
    case True
    have "dla_bits frm = 63"
      by (subst w) (use no_flag_above [OF k] b True in \<open>simp add: flags_def\<close>)
    with assms(1) True b show ?thesis
      unfolding DeliverAck_CopyFrom_def DeliverAck_clear_built [OF assms(3)]
      by (cases frm) (simp add: DeliverAck_MergeFrom_def DeliverAck_has_iffs DeliverAck_built_def
          DeliverAck_new_def DeliverAck_set_defs
          byte_simps Let_def)
  next
    case False
    have "dla_bits frm = 31"
      by (subst w) (use no_flag_above [OF k] b False in \<open>simp add: flags_def\<close>)
    with assms(1) False b show ?thesis
      unfolding DeliverAck_CopyFrom_def DeliverAck_clear_built [OF assms(3)]
      by (cases frm) (simp add: DeliverAck_MergeFrom_def DeliverAck_has_iffs DeliverAck_built_def
          DeliverAck_new_def DeliverAck_set_defs
          byte_simps Let_def)
  qed
qed

end

end
