(* ===== verification/PbEntry.thy ===== *)
theory PbEntry
  imports WireFormat
begin

text \<open>
  The class \<^verbatim>\<open>Entry\<close> of \<^verbatim>\<open>kite_remoting.pb.h\<close> and
  \<^verbatim>\<open>kite_remoting.pb.cc\<close>: a key and a value, the element of a message header's properties. The
  record holds the has-bits, the fields, the unknown fields and the cached size; each method is one definition. The
  lemmas in \<open>wire_laws\<close> show that a message built by its setters is sized exactly, parsed back from its own
  bytes, and copied, and that parsing always returns.
\<close>

section \<open>Entry\<close>

record 'u entry =
  ent_bits :: int32
  ent_key :: "byte list"
  ent_value :: "byte list"
  ent_unknown :: "'u option"
  ent_cached :: int

definition Entry_new :: "'u entry" where
  "Entry_new = \<lparr>ent_bits = 0, ent_key = [], ent_value = [],
     ent_unknown = None, ent_cached = 0\<rparr>"

definition Entry_has_key :: "'u entry \<Rightarrow> bool" where
  "Entry_has_key m \<longleftrightarrow> ent_bits m AND 1 \<noteq> 0"

definition Entry_set_has_key :: "'u entry \<Rightarrow> 'u entry" where
  "Entry_set_has_key m = m\<lparr>ent_bits := ent_bits m OR 1\<rparr>"

definition Entry_set_key :: "byte list \<Rightarrow> 'u entry \<Rightarrow> 'u entry" where
  "Entry_set_key v m = (Entry_set_has_key m)\<lparr>ent_key := v\<rparr>"

definition Entry_has_value :: "'u entry \<Rightarrow> bool" where
  "Entry_has_value m \<longleftrightarrow> ent_bits m AND 2 \<noteq> 0"

definition Entry_set_has_value :: "'u entry \<Rightarrow> 'u entry" where
  "Entry_set_has_value m = m\<lparr>ent_bits := ent_bits m OR 2\<rparr>"

definition Entry_set_value :: "byte list \<Rightarrow> 'u entry \<Rightarrow> 'u entry" where
  "Entry_set_value v m = (Entry_set_has_value m)\<lparr>ent_value := v\<rparr>"

definition Entry_Clear :: "'u wire \<Rightarrow> 'u entry \<Rightarrow> 'u entry" where
  "Entry_Clear W m =
     (let m = (if ent_bits m AND 3 \<noteq> 0
            then (let m = (if Entry_has_key m then m\<lparr>ent_key := []\<rparr> else m);
                      m = (if Entry_has_value m then m\<lparr>ent_value := []\<rparr> else m)
                  in m)
            else m);
          m = m\<lparr>ent_bits := 0\<rparr>
      in m\<lparr>ent_unknown := clear_unknown W (ent_unknown m)\<rparr>)"

definition Entry_step :: "'u wire \<Rightarrow> 'u entry parse_step" where
  "Entry_step W p inp m =
     (case p of
        Top \<Rightarrow> switch_tag W [(1, 10), (2, 18)] ent_unknown
          (\<lambda>u m. m\<lparr>ent_unknown := Some u\<rparr>) inp m
      | Parse n \<Rightarrow>
          if n = 1 then read_str W (ReadString W) ent_key (\<lambda>v m. m\<lparr>ent_key := v\<rparr>)
              Entry_set_has_key
            (NextTag 18 (Parse 2)) inp m
          else read_str W (ReadString W) ent_value (\<lambda>v m. m\<lparr>ent_value := v\<rparr>) Entry_set_has_value
            AtEnd inp m
      | ParseLoop n \<Rightarrow> Ends False inp m)"

definition Entry_MergePartialFromCodedStream :: "'u wire \<Rightarrow> 'u entry merger" where
  "Entry_MergePartialFromCodedStream W inp m = merge_run (Entry_step W) Top inp m"

definition Entry_SerializeWithCachedSizes :: "'u wire \<Rightarrow> 'u entry \<Rightarrow> byte list \<Rightarrow>
    byte list" where
  "Entry_SerializeWithCachedSizes W m out =
     (let out = (if Entry_has_key m then out @ WriteString W 1 (ent_key m) else out);
          out = (if Entry_has_value m then out @ WriteString W 2 (ent_value m) else out)
      in out @ unknown_bytes W (ent_unknown m))"

definition Entry_SerializeWithCachedSizesToArray :: "'u wire \<Rightarrow> 'u entry \<Rightarrow> byte list" where
  "Entry_SerializeWithCachedSizesToArray W m =
     (if Entry_has_key m then WriteString W 1 (ent_key m) else []) @
     (if Entry_has_value m then WriteString W 2 (ent_value m) else []) @
     unknown_bytes W (ent_unknown m)"

definition Entry_RequiredFieldsByteSizeFallback :: "'u wire \<Rightarrow> 'u entry \<Rightarrow> int" where
  "Entry_RequiredFieldsByteSizeFallback W m =
     (if Entry_has_key m then (1 + StringSize W (ent_key m)) else 0) +
     (if Entry_has_value m then (1 + StringSize W (ent_value m)) else 0)"

definition Entry_ByteSize :: "'u wire \<Rightarrow> 'u entry \<Rightarrow> int \<times> 'u entry" where
  "Entry_ByteSize W m =
     (let total_size = (if (ent_bits m AND 3) XOR 3 = 0
            then (1 + StringSize W (ent_key m)) +
              (1 + StringSize W (ent_value m))
            else Entry_RequiredFieldsByteSizeFallback W m);
          total_size = total_size + unknown_size W (ent_unknown m)
      in (total_size, m\<lparr>ent_cached := total_size\<rparr>))"

definition Entry_MergeFrom :: "'u wire \<Rightarrow> 'u entry \<Rightarrow> 'u entry \<Rightarrow> 'u entry" where
  "Entry_MergeFrom W frm m =
     (let m = (if ent_bits frm AND 255 \<noteq> 0
            then (let m = (if Entry_has_key frm then (Entry_set_has_key m)\<lparr>ent_key := ent_key frm\<rparr>
                else m);
                      m = (if Entry_has_value frm then (Entry_set_has_value m)\<lparr>ent_value := ent_value
                          frm\<rparr> else m)
                  in m)
            else m)
      in m\<lparr>ent_unknown := merge_unknown W (ent_unknown frm) (ent_unknown m)\<rparr>)"

definition Entry_CopyFrom :: "'u wire \<Rightarrow> 'u entry \<Rightarrow> 'u entry \<Rightarrow> 'u entry" where
  "Entry_CopyFrom W frm m = Entry_MergeFrom W frm (Entry_Clear W m)"

definition Entry_IsInitialized :: "'u entry \<Rightarrow> bool" where
  "Entry_IsInitialized m =
     (if ent_bits m AND 3 \<noteq> 3 then False
      else True)"

definition Entry_InternalSwap :: "'u entry \<Rightarrow> 'u entry \<Rightarrow> 'u entry \<times> 'u entry" where
  "Entry_InternalSwap m other =
     (m\<lparr>ent_key := ent_key other, ent_value := ent_value other, ent_bits := ent_bits other, ent_unknown :=
         ent_unknown other, ent_cached := ent_cached other\<rparr>,
      other\<lparr>ent_key := ent_key m, ent_value := ent_value m, ent_bits := ent_bits m, ent_unknown :=
          ent_unknown m, ent_cached := ent_cached m\<rparr>)"

lemmas Entry_has_defs = Entry_has_key_def Entry_has_value_def
lemmas Entry_set_defs = Entry_set_has_key_def Entry_set_has_value_def Entry_set_key_def Entry_set_value_def

text \<open>A message as the setters build it: known has-bits only, defaults where a bit is off, strings of a
  length the format can carry, no unknown fields, no cached sizes yet.\<close>

definition Entry_built :: "'u entry \<Rightarrow> bool" where
  "Entry_built m \<longleftrightarrow>
     (\<forall>n. bit (ent_bits m) n \<longrightarrow> n < 2) \<and>
     length (ent_key m) < 2 ^ 31 \<and>
     (\<not> Entry_has_key m \<longrightarrow> ent_key m = []) \<and>
     length (ent_value m) < 2 ^ 31 \<and>
     (\<not> Entry_has_value m \<longrightarrow> ent_value m = []) \<and>
     ent_unknown m = None \<and>
     ent_cached m = 0"

lemma Entry_has_iffs:
  "Entry_has_key m \<longleftrightarrow> bit (ent_bits m) 0" "Entry_has_value m \<longleftrightarrow> bit (ent_bits
      m) 1"
  by (simp_all add: Entry_has_defs byte_simps)

lemma Entry_initialized_iff:
  "Entry_IsInitialized m \<longleftrightarrow> bit (ent_bits m) 0 \<and> bit (ent_bits m) 1"
  by (auto simp: Entry_IsInitialized_def byte_simps)

lemma Entry_swap: "Entry_InternalSwap m other = (other, m)"
  by (cases m; cases other) (simp add: Entry_InternalSwap_def)

lemma Entry_clear_built: "Entry_built m \<Longrightarrow> Entry_Clear W m = Entry_new"
  by (cases m) (auto simp: Entry_Clear_def Entry_new_def Entry_built_def Entry_has_iffs byte_simps Let_def)

lemma Entry_serialize_agree:
  "Entry_SerializeWithCachedSizes W m out = out @ Entry_SerializeWithCachedSizesToArray W m"
  by (simp only: Entry_SerializeWithCachedSizes_def Entry_SerializeWithCachedSizesToArray_def append_if foldl_write
      append_assoc Let_def)

context wire_laws begin

lemma Entry_top: "top_is (Entry_step W) [(1, 10), (2, 18)]"
  unfolding top_is_def
  by (intro exI [of _ ent_unknown] exI [of _ "\<lambda>u m. m\<lparr>ent_unknown := Some u\<rparr>"] allI) (simp
      add: Entry_step_def)

lemma Entry_run_key: "length v < 2 ^ 31 \<Longrightarrow>
   merge_run (Entry_step W) Top \<lparr>avail = WriteString W 1 v @ rest, depth = d\<rparr> m =
   merge_run (Entry_step W) Top \<lparr>avail = rest, depth = d\<rparr> ((Entry_set_has_key m)\<lparr>ent_key :=
       v\<rparr>)"
  by (rule run_str [OF Entry_top, where n = 1 and f = "NextTag 18 (Parse 2)" and rdr = "ReadString W" and get =
      ent_key
        and put = "\<lambda>v m. m\<lparr>ent_key := v\<rparr>" and set_has = Entry_set_has_key, OF _ _ _ str])
    (simp_all add: follow_ok_def GetTagFieldNumber_def Entry_step_def)

lemma Entry_run_value: "length v < 2 ^ 31 \<Longrightarrow>
   merge_run (Entry_step W) Top \<lparr>avail = WriteString W 2 v @ rest, depth = d\<rparr> m =
   merge_run (Entry_step W) Top \<lparr>avail = rest, depth = d\<rparr> ((Entry_set_has_value m)\<lparr>ent_value
       := v\<rparr>)"
  by (rule run_str [OF Entry_top, where n = 2 and f = "AtEnd" and rdr = "ReadString W" and get = ent_value
        and put = "\<lambda>v m. m\<lparr>ent_value := v\<rparr>" and set_has = Entry_set_has_value, OF _ _ _ str])
    (simp_all add: follow_ok_def GetTagFieldNumber_def Entry_step_def)

lemmas Entry_runs = Entry_run_key Entry_run_value
  Entry_run_value [where rest = "[]", unfolded append_Nil2]

lemma Entry_run_end: "merge_run (Entry_step W) Top \<lparr>avail = [], depth = d\<rparr> m = Some (True,
    \<lparr>avail = [], depth = d\<rparr>, m)"
  by (rule run_end) (simp add: Entry_step_def)

lemma Entry_returns: "Entry_MergePartialFromCodedStream W inp m \<noteq> None"
  unfolding Entry_MergePartialFromCodedStream_def
proof (rule run_returns)
  show "parse_rank p' inp' < parse_rank p inp" if "Entry_step W p inp m = Goto p' inp' m'" for p inp m p' inp' m'
  proof (cases p)
    case Top
    with that show ?thesis
      by (auto simp: Entry_step_def dest!: switch_rank)
  next
    case (Parse n)
    with that show ?thesis
      by (auto simp: Entry_step_def follow_pos_def split: if_splits
          dest!: prim_ranks str_ranks)
  next
    case (ParseLoop n)
    with that show ?thesis by (simp add: Entry_step_def)
  qed
  show "Entry_step W p inp m \<noteq> Diverges" for p inp m
    by (simp add: Entry_step_def no_Diverges split: pc.split)
qed

lemma Entry_size:
  assumes "length (ent_key m) < 2 ^ 31" and "length (ent_value m) < 2 ^ 31"
  shows "fst (Entry_ByteSize W m) = int (length (Entry_SerializeWithCachedSizesToArray W (snd (Entry_ByteSize W m))))"
  using assms
  by (simp add: Entry_ByteSize_def Entry_RequiredFieldsByteSizeFallback_def Entry_SerializeWithCachedSizesToArray_def
      Entry_has_iffs byte_simps len_int64 len_int32 len_bool len_str len_bytes len_unknown_bytes Let_def)

lemma Entry_roundtrip:
  assumes "Entry_built m" and "Entry_IsInitialized m"
  shows "Entry_MergePartialFromCodedStream W
      \<lparr>avail = Entry_SerializeWithCachedSizesToArray W (snd (Entry_ByteSize W m)), depth = d\<rparr>
          Entry_new =
    Some (True, \<lparr>avail = [], depth = d\<rparr>, m)"
proof -
  have b: "bit (ent_bits m) 0" "bit (ent_bits m) 1"
    using assms(2) by (simp_all add: Entry_initialized_iff)
  have k: "\<forall>n. bit (ent_bits m) n \<longrightarrow> n < 2" using assms(1) by (simp add: Entry_built_def)
  have w: "ent_bits m = flags (bit (ent_bits m))" by (rule known_bits [OF k]) simp
  show ?thesis
  proof -
    have "ent_bits m = 3"
      by (subst w) (use no_flag_above [OF k] b in \<open>simp add: flags_def\<close>)
    with assms(1) b show ?thesis
      by (cases m) (simp add: Entry_MergePartialFromCodedStream_def Entry_SerializeWithCachedSizesToArray_def
          Entry_ByteSize_def Entry_has_iffs Entry_runs Entry_run_end Entry_built_def Entry_new_def Entry_set_defs
              Let_def del: One_nat_def)
  qed
qed

lemma Entry_copy:
  assumes "Entry_built frm" and "Entry_IsInitialized frm" and "Entry_built m"
  shows "Entry_CopyFrom W frm m = frm"
proof -
  have b: "bit (ent_bits frm) 0" "bit (ent_bits frm) 1"
    using assms(2) by (simp_all add: Entry_initialized_iff)
  have k: "\<forall>n. bit (ent_bits frm) n \<longrightarrow> n < 2" using assms(1) by (simp add: Entry_built_def)
  have w: "ent_bits frm = flags (bit (ent_bits frm))" by (rule known_bits [OF k]) simp
  show ?thesis
  proof -
    have "ent_bits frm = 3"
      by (subst w) (use no_flag_above [OF k] b in \<open>simp add: flags_def\<close>)
    with assms(1) b show ?thesis
      unfolding Entry_CopyFrom_def Entry_clear_built [OF assms(3)]
      by (cases frm) (simp add: Entry_MergeFrom_def Entry_has_iffs Entry_built_def Entry_new_def Entry_set_defs
          byte_simps Let_def)
  qed
qed

end

end
