(* ===== verification/PbHeader.thy ===== *)
theory PbHeader
  imports PbEntry
begin

text \<open>
  The class \<^verbatim>\<open>Header\<close> of \<^verbatim>\<open>kite_remoting.pb.h\<close> and
  \<^verbatim>\<open>kite_remoting.pb.cc\<close>: the header of every queue message, with its repeated properties. The
  record holds the has-bits, the fields, the unknown fields and the cached size; each method is one definition. The
  lemmas in \<open>wire_laws\<close> show that a message built by its setters is sized exactly, parsed back from its own
  bytes, and copied, and that parsing always returns.
\<close>

section \<open>Header\<close>

record 'u msgHeader =
  phd_bits :: int32
  phd_messageid :: "byte list"
  phd_topic :: "byte list"
  phd_messagetype :: "byte list"
  phd_expiredtime :: int64
  phd_deliverlimit :: int32
  phd_groupid :: "byte list"
  phd_commit :: bool
  phd_fly :: bool
  phd_properties :: "'u entry list"
  phd_createtime :: int64
  phd_unknown :: "'u option"
  phd_cached :: int

definition Header_new :: "'u msgHeader" where
  "Header_new = \<lparr>phd_bits = 0, phd_messageid = [], phd_topic = [], phd_messagetype = [], phd_expiredtime = -
      1, phd_deliverlimit = 100, phd_groupid = [], phd_commit = False, phd_fly = False, phd_properties = [],
      phd_createtime = 0,
     phd_unknown = None, phd_cached = 0\<rparr>"

definition Header_has_messageid :: "'u msgHeader \<Rightarrow> bool" where
  "Header_has_messageid m \<longleftrightarrow> phd_bits m AND 1 \<noteq> 0"

definition Header_set_has_messageid :: "'u msgHeader \<Rightarrow> 'u msgHeader" where
  "Header_set_has_messageid m = m\<lparr>phd_bits := phd_bits m OR 1\<rparr>"

definition Header_set_messageid :: "byte list \<Rightarrow> 'u msgHeader \<Rightarrow> 'u msgHeader" where
  "Header_set_messageid v m = (Header_set_has_messageid m)\<lparr>phd_messageid := v\<rparr>"

definition Header_has_topic :: "'u msgHeader \<Rightarrow> bool" where
  "Header_has_topic m \<longleftrightarrow> phd_bits m AND 2 \<noteq> 0"

definition Header_set_has_topic :: "'u msgHeader \<Rightarrow> 'u msgHeader" where
  "Header_set_has_topic m = m\<lparr>phd_bits := phd_bits m OR 2\<rparr>"

definition Header_set_topic :: "byte list \<Rightarrow> 'u msgHeader \<Rightarrow> 'u msgHeader" where
  "Header_set_topic v m = (Header_set_has_topic m)\<lparr>phd_topic := v\<rparr>"

definition Header_has_messagetype :: "'u msgHeader \<Rightarrow> bool" where
  "Header_has_messagetype m \<longleftrightarrow> phd_bits m AND 4 \<noteq> 0"

definition Header_set_has_messagetype :: "'u msgHeader \<Rightarrow> 'u msgHeader" where
  "Header_set_has_messagetype m = m\<lparr>phd_bits := phd_bits m OR 4\<rparr>"

definition Header_set_messagetype :: "byte list \<Rightarrow> 'u msgHeader \<Rightarrow> 'u msgHeader" where
  "Header_set_messagetype v m = (Header_set_has_messagetype m)\<lparr>phd_messagetype := v\<rparr>"

definition Header_has_expiredtime :: "'u msgHeader \<Rightarrow> bool" where
  "Header_has_expiredtime m \<longleftrightarrow> phd_bits m AND 8 \<noteq> 0"

definition Header_set_has_expiredtime :: "'u msgHeader \<Rightarrow> 'u msgHeader" where
  "Header_set_has_expiredtime m = m\<lparr>phd_bits := phd_bits m OR 8\<rparr>"

definition Header_set_expiredtime :: "int64 \<Rightarrow> 'u msgHeader \<Rightarrow> 'u msgHeader" where
  "Header_set_expiredtime v m = (Header_set_has_expiredtime m)\<lparr>phd_expiredtime := v\<rparr>"

definition Header_has_deliverlimit :: "'u msgHeader \<Rightarrow> bool" where
  "Header_has_deliverlimit m \<longleftrightarrow> phd_bits m AND 16 \<noteq> 0"

definition Header_set_has_deliverlimit :: "'u msgHeader \<Rightarrow> 'u msgHeader" where
  "Header_set_has_deliverlimit m = m\<lparr>phd_bits := phd_bits m OR 16\<rparr>"

definition Header_set_deliverlimit :: "int32 \<Rightarrow> 'u msgHeader \<Rightarrow> 'u msgHeader" where
  "Header_set_deliverlimit v m = (Header_set_has_deliverlimit m)\<lparr>phd_deliverlimit := v\<rparr>"

definition Header_has_groupid :: "'u msgHeader \<Rightarrow> bool" where
  "Header_has_groupid m \<longleftrightarrow> phd_bits m AND 32 \<noteq> 0"

definition Header_set_has_groupid :: "'u msgHeader \<Rightarrow> 'u msgHeader" where
  "Header_set_has_groupid m = m\<lparr>phd_bits := phd_bits m OR 32\<rparr>"

definition Header_set_groupid :: "byte list \<Rightarrow> 'u msgHeader \<Rightarrow> 'u msgHeader" where
  "Header_set_groupid v m = (Header_set_has_groupid m)\<lparr>phd_groupid := v\<rparr>"

definition Header_has_commit :: "'u msgHeader \<Rightarrow> bool" where
  "Header_has_commit m \<longleftrightarrow> phd_bits m AND 64 \<noteq> 0"

definition Header_set_has_commit :: "'u msgHeader \<Rightarrow> 'u msgHeader" where
  "Header_set_has_commit m = m\<lparr>phd_bits := phd_bits m OR 64\<rparr>"

definition Header_set_commit :: "bool \<Rightarrow> 'u msgHeader \<Rightarrow> 'u msgHeader" where
  "Header_set_commit v m = (Header_set_has_commit m)\<lparr>phd_commit := v\<rparr>"

definition Header_has_fly :: "'u msgHeader \<Rightarrow> bool" where
  "Header_has_fly m \<longleftrightarrow> phd_bits m AND 128 \<noteq> 0"

definition Header_set_has_fly :: "'u msgHeader \<Rightarrow> 'u msgHeader" where
  "Header_set_has_fly m = m\<lparr>phd_bits := phd_bits m OR 128\<rparr>"

definition Header_set_fly :: "bool \<Rightarrow> 'u msgHeader \<Rightarrow> 'u msgHeader" where
  "Header_set_fly v m = (Header_set_has_fly m)\<lparr>phd_fly := v\<rparr>"

definition Header_has_createtime :: "'u msgHeader \<Rightarrow> bool" where
  "Header_has_createtime m \<longleftrightarrow> phd_bits m AND 512 \<noteq> 0"

definition Header_set_has_createtime :: "'u msgHeader \<Rightarrow> 'u msgHeader" where
  "Header_set_has_createtime m = m\<lparr>phd_bits := phd_bits m OR 512\<rparr>"

definition Header_set_createtime :: "int64 \<Rightarrow> 'u msgHeader \<Rightarrow> 'u msgHeader" where
  "Header_set_createtime v m = (Header_set_has_createtime m)\<lparr>phd_createtime := v\<rparr>"

definition Header_Clear :: "'u wire \<Rightarrow> 'u msgHeader \<Rightarrow> 'u msgHeader" where
  "Header_Clear W m =
     (let m = (if phd_bits m AND 255 \<noteq> 0
            then (let m = m\<lparr>phd_commit := False\<rparr>;
                      m = m\<lparr>phd_fly := False\<rparr>;
                      m = (if Header_has_messageid m then m\<lparr>phd_messageid := []\<rparr> else m);
                      m = (if Header_has_topic m then m\<lparr>phd_topic := []\<rparr> else m);
                      m = (if Header_has_messagetype m then m\<lparr>phd_messagetype := []\<rparr> else m);
                      m = m\<lparr>phd_expiredtime := - 1\<rparr>;
                      m = m\<lparr>phd_deliverlimit := 100\<rparr>;
                      m = (if Header_has_groupid m then m\<lparr>phd_groupid := []\<rparr> else m)
                  in m)
            else m);
          m = m\<lparr>phd_createtime := 0\<rparr>;
          m = m\<lparr>phd_properties := []\<rparr>;
          m = m\<lparr>phd_bits := 0\<rparr>
      in m\<lparr>phd_unknown := clear_unknown W (phd_unknown m)\<rparr>)"

definition Header_step :: "'u wire \<Rightarrow> ('u entry merger \<Rightarrow> 'u entry merger) \<Rightarrow> 'u
    msgHeader parse_step" where
  "Header_step W rm p inp m =
     (case p of
        Top \<Rightarrow> switch_tag W [(1, 10), (2, 18), (3, 26), (4, 32), (5, 40), (6, 50), (7, 56), (8, 64), (9,
            74), (10, 80)] phd_unknown
          (\<lambda>u m. m\<lparr>phd_unknown := Some u\<rparr>) inp m
      | Parse n \<Rightarrow>
          if n = 1 then read_str W (ReadString W) phd_messageid (\<lambda>v m. m\<lparr>phd_messageid := v\<rparr>)
              Header_set_has_messageid
            (NextTag 18 (Parse 2)) inp m
          else if n = 2 then read_str W (ReadString W) phd_topic (\<lambda>v m. m\<lparr>phd_topic := v\<rparr>)
              Header_set_has_topic
            (NextTag 26 (Parse 3)) inp m
          else if n = 3 then read_str W (ReadString W) phd_messagetype (\<lambda>v m. m\<lparr>phd_messagetype :=
              v\<rparr>) Header_set_has_messagetype
            (NextTag 32 (Parse 4)) inp m
          else if n = 4 then read_prim W (ReadInt64 W) (\<lambda>v m. m\<lparr>phd_expiredtime := v\<rparr>)
              Header_set_has_expiredtime
            (NextTag 40 (Parse 5)) inp m
          else if n = 5 then read_prim W (ReadInt32 W) (\<lambda>v m. m\<lparr>phd_deliverlimit := v\<rparr>)
              Header_set_has_deliverlimit
            (NextTag 50 (Parse 6)) inp m
          else if n = 6 then read_str W (ReadString W) phd_groupid (\<lambda>v m. m\<lparr>phd_groupid :=
              v\<rparr>) Header_set_has_groupid
            (NextTag 56 (Parse 7)) inp m
          else if n = 7 then read_prim W (ReadBool W) (\<lambda>v m. m\<lparr>phd_commit := v\<rparr>)
              Header_set_has_commit
            (NextTag 64 (Parse 8)) inp m
          else if n = 8 then read_prim W (ReadBool W) (\<lambda>v m. m\<lparr>phd_fly := v\<rparr>) Header_set_has_fly
            (NextTag 74 (Parse 9)) inp m
          else if n = 9 then (if depth inp = 0 then Ends False inp m
             else Goto (ParseLoop 9) (inp\<lparr>depth := depth inp - 1\<rparr>) m)
          else read_prim W (ReadInt64 W) (\<lambda>v m. m\<lparr>phd_createtime := v\<rparr>)
              Header_set_has_createtime
            AtEnd inp m
      | ParseLoop n \<Rightarrow>
          (case rm (Entry_MergePartialFromCodedStream W) inp Entry_new of
             None \<Rightarrow> Diverges
           | Some (ok, inp, e) \<Rightarrow>
               (let m = m\<lparr>phd_properties := phd_properties m @ [e]\<rparr> in
                if \<not> ok then Ends False inp m
                else (case ExpectTag W 74 (avail inp) of
                        Some r \<Rightarrow> Goto (ParseLoop 9) (inp\<lparr>avail := r\<rparr>) m
                      | None \<Rightarrow> after W (NextTag 80 (Parse 10)) (inp\<lparr>depth := depth inp +
                          1\<rparr>) m))))"

definition Header_MergePartialFromCodedStream :: "'u wire \<Rightarrow> ('u entry merger \<Rightarrow> 'u entry
    merger) \<Rightarrow> 'u msgHeader merger" where
  "Header_MergePartialFromCodedStream W rm inp m = merge_run (Header_step W rm) Top inp m"

definition Header_SerializeWithCachedSizes :: "'u wire \<Rightarrow> 'u msgHeader \<Rightarrow> byte list
    \<Rightarrow> byte list" where
  "Header_SerializeWithCachedSizes W m out =
     (let out = (if Header_has_messageid m then out @ WriteString W 1 (phd_messageid m) else out);
          out = (if Header_has_topic m then out @ WriteString W 2 (phd_topic m) else out);
          out = (if Header_has_messagetype m then out @ WriteString W 3 (phd_messagetype m) else out);
          out = (if Header_has_expiredtime m then out @ WriteInt64 W 4 (phd_expiredtime m) else out);
          out = (if Header_has_deliverlimit m then out @ WriteInt32 W 5 (phd_deliverlimit m) else out);
          out = (if Header_has_groupid m then out @ WriteString W 6 (phd_groupid m) else out);
          out = (if Header_has_commit m then out @ WriteBool W 7 (phd_commit m) else out);
          out = (if Header_has_fly m then out @ WriteBool W 8 (phd_fly m) else out);
          out = foldl (\<lambda>out e. out @ WriteMessage W 9 (ent_cached e) (Entry_SerializeWithCachedSizesToArray
              W e))
            out (phd_properties m);
          out = (if Header_has_createtime m then out @ WriteInt64 W 10 (phd_createtime m) else out)
      in out @ unknown_bytes W (phd_unknown m))"

definition Header_SerializeWithCachedSizesToArray :: "'u wire \<Rightarrow> 'u msgHeader \<Rightarrow> byte list"
    where
  "Header_SerializeWithCachedSizesToArray W m =
     (if Header_has_messageid m then WriteString W 1 (phd_messageid m) else []) @
     (if Header_has_topic m then WriteString W 2 (phd_topic m) else []) @
     (if Header_has_messagetype m then WriteString W 3 (phd_messagetype m) else []) @
     (if Header_has_expiredtime m then WriteInt64 W 4 (phd_expiredtime m) else []) @
     (if Header_has_deliverlimit m then WriteInt32 W 5 (phd_deliverlimit m) else []) @
     (if Header_has_groupid m then WriteString W 6 (phd_groupid m) else []) @
     (if Header_has_commit m then WriteBool W 7 (phd_commit m) else []) @
     (if Header_has_fly m then WriteBool W 8 (phd_fly m) else []) @
     concat (map (\<lambda>e. WriteMessage W 9 (ent_cached e) (Entry_SerializeWithCachedSizesToArray W e))
         (phd_properties m)) @
     (if Header_has_createtime m then WriteInt64 W 10 (phd_createtime m) else []) @
     unknown_bytes W (phd_unknown m)"

definition Header_RequiredFieldsByteSizeFallback :: "'u wire \<Rightarrow> 'u msgHeader \<Rightarrow> int" where
  "Header_RequiredFieldsByteSizeFallback W m =
     (if Header_has_messageid m then (1 + StringSize W (phd_messageid m)) else 0) +
     (if Header_has_topic m then (1 + StringSize W (phd_topic m)) else 0) +
     (if Header_has_messagetype m then (1 + StringSize W (phd_messagetype m)) else 0) +
     (if Header_has_expiredtime m then (1 + Int64Size W (phd_expiredtime m)) else 0) +
     (if Header_has_deliverlimit m then (1 + Int32Size W (phd_deliverlimit m)) else 0) +
     (if Header_has_groupid m then (1 + StringSize W (phd_groupid m)) else 0) +
     (if Header_has_commit m then (1 + 1) else 0) +
     (if Header_has_fly m then (1 + 1) else 0)"

definition Header_ByteSize :: "'u wire \<Rightarrow> 'u msgHeader \<Rightarrow> int \<times> 'u msgHeader" where
  "Header_ByteSize W m =
     (let total_size = (if (phd_bits m AND 255) XOR 255 = 0
            then (1 + StringSize W (phd_messageid m)) +
              (1 + StringSize W (phd_topic m)) +
              (1 + StringSize W (phd_messagetype m)) +
              (1 + Int64Size W (phd_expiredtime m)) +
              (1 + Int32Size W (phd_deliverlimit m)) +
              (1 + StringSize W (phd_groupid m)) +
              (1 + 1) +
              (1 + 1)
            else Header_RequiredFieldsByteSizeFallback W m);
          total_size = total_size + (if Header_has_createtime m then (1 + Int64Size W (phd_createtime m)) else 0);
          total_size = total_size + 1 * int (length (phd_properties m));
          total_size = total_size + sum_list (map (\<lambda>e. LengthDelimitedSize W (fst (Entry_ByteSize W e)))
              (phd_properties m));
          m = m\<lparr>phd_properties := map (\<lambda>e. snd (Entry_ByteSize W e)) (phd_properties m)\<rparr>;
          total_size = total_size + unknown_size W (phd_unknown m)
      in (total_size, m\<lparr>phd_cached := total_size\<rparr>))"

definition Header_MergeFrom :: "'u wire \<Rightarrow> 'u msgHeader \<Rightarrow> 'u msgHeader \<Rightarrow> 'u
    msgHeader" where
  "Header_MergeFrom W frm m =
     (let m = m\<lparr>phd_properties := phd_properties m @ map (\<lambda>e. Entry_MergeFrom W e Entry_new)
         (phd_properties frm)\<rparr>;
          m = (if phd_bits frm AND 255 \<noteq> 0
            then (let m = (if Header_has_messageid frm then (Header_set_has_messageid m)\<lparr>phd_messageid :=
                phd_messageid frm\<rparr> else m);
                      m = (if Header_has_topic frm then (Header_set_has_topic m)\<lparr>phd_topic := phd_topic
                          frm\<rparr> else m);
                      m = (if Header_has_messagetype frm then (Header_set_has_messagetype m)\<lparr>phd_messagetype
                          := phd_messagetype frm\<rparr> else m);
                      m = (if Header_has_expiredtime frm then Header_set_expiredtime (phd_expiredtime frm) m else m);
                      m = (if Header_has_deliverlimit frm then Header_set_deliverlimit (phd_deliverlimit frm) m
                          else m);
                      m = (if Header_has_groupid frm then (Header_set_has_groupid m)\<lparr>phd_groupid :=
                          phd_groupid frm\<rparr> else m);
                      m = (if Header_has_commit frm then Header_set_commit (phd_commit frm) m else m);
                      m = (if Header_has_fly frm then Header_set_fly (phd_fly frm) m else m)
                  in m)
            else m);
          m = (if phd_bits frm AND 130560 \<noteq> 0
            then (let m = (if Header_has_createtime frm then Header_set_createtime (phd_createtime frm) m else m)
                  in m)
            else m)
      in m\<lparr>phd_unknown := merge_unknown W (phd_unknown frm) (phd_unknown m)\<rparr>)"

definition Header_CopyFrom :: "'u wire \<Rightarrow> 'u msgHeader \<Rightarrow> 'u msgHeader \<Rightarrow> 'u
    msgHeader" where
  "Header_CopyFrom W frm m = Header_MergeFrom W frm (Header_Clear W m)"

definition Header_IsInitialized :: "'u msgHeader \<Rightarrow> bool" where
  "Header_IsInitialized m =
     (if phd_bits m AND 255 \<noteq> 255 then False
      else if \<not> list_all Entry_IsInitialized (phd_properties m) then False else True)"

definition Header_InternalSwap :: "'u msgHeader \<Rightarrow> 'u msgHeader \<Rightarrow> 'u msgHeader \<times> 'u
    msgHeader" where
  "Header_InternalSwap m other =
     (m\<lparr>phd_messageid := phd_messageid other, phd_topic := phd_topic other, phd_messagetype :=
         phd_messagetype other, phd_expiredtime := phd_expiredtime other, phd_deliverlimit := phd_deliverlimit
         other, phd_groupid := phd_groupid other, phd_commit := phd_commit other, phd_fly := phd_fly other,
         phd_properties := phd_properties other, phd_createtime := phd_createtime other, phd_bits := phd_bits
         other, phd_unknown := phd_unknown other, phd_cached := phd_cached other\<rparr>,
      other\<lparr>phd_messageid := phd_messageid m, phd_topic := phd_topic m, phd_messagetype := phd_messagetype
          m, phd_expiredtime := phd_expiredtime m, phd_deliverlimit := phd_deliverlimit m, phd_groupid :=
          phd_groupid m, phd_commit := phd_commit m, phd_fly := phd_fly m, phd_properties := phd_properties m,
          phd_createtime := phd_createtime m, phd_bits := phd_bits m, phd_unknown := phd_unknown m, phd_cached :=
          phd_cached m\<rparr>)"

lemmas Header_has_defs = Header_has_messageid_def Header_has_topic_def Header_has_messagetype_def
    Header_has_expiredtime_def Header_has_deliverlimit_def Header_has_groupid_def Header_has_commit_def
    Header_has_fly_def Header_has_createtime_def
lemmas Header_set_defs = Header_set_has_messageid_def Header_set_has_topic_def Header_set_has_messagetype_def
    Header_set_has_expiredtime_def Header_set_has_deliverlimit_def Header_set_has_groupid_def
    Header_set_has_commit_def Header_set_has_fly_def Header_set_has_createtime_def Header_set_messageid_def
    Header_set_topic_def Header_set_messagetype_def Header_set_expiredtime_def Header_set_deliverlimit_def
    Header_set_groupid_def Header_set_commit_def Header_set_fly_def Header_set_createtime_def

text \<open>A message as the setters build it: known has-bits only, defaults where a bit is off, strings of a
  length the format can carry, no unknown fields, no cached sizes yet.\<close>

definition Header_built :: "'u msgHeader \<Rightarrow> bool" where
  "Header_built m \<longleftrightarrow>
     (\<forall>n. bit (phd_bits m) n \<longrightarrow> n < 10) \<and>
     length (phd_messageid m) < 2 ^ 31 \<and>
     (\<not> Header_has_messageid m \<longrightarrow> phd_messageid m = []) \<and>
     length (phd_topic m) < 2 ^ 31 \<and>
     (\<not> Header_has_topic m \<longrightarrow> phd_topic m = []) \<and>
     length (phd_messagetype m) < 2 ^ 31 \<and>
     (\<not> Header_has_messagetype m \<longrightarrow> phd_messagetype m = []) \<and>
     (\<not> Header_has_expiredtime m \<longrightarrow> phd_expiredtime m = - 1) \<and>
     (\<not> Header_has_deliverlimit m \<longrightarrow> phd_deliverlimit m = 100) \<and>
     length (phd_groupid m) < 2 ^ 31 \<and>
     (\<not> Header_has_groupid m \<longrightarrow> phd_groupid m = []) \<and>
     (\<not> Header_has_commit m \<longrightarrow> phd_commit m = False) \<and>
     (\<not> Header_has_fly m \<longrightarrow> phd_fly m = False) \<and>
     (\<forall>e\<in>set (phd_properties m). Entry_built e \<and> Entry_IsInitialized e) \<and>
     \<not> bit (phd_bits m) 8 \<and>
     (\<not> Header_has_createtime m \<longrightarrow> phd_createtime m = 0) \<and>
     phd_unknown m = None \<and>
     phd_cached m = 0"

lemma Header_has_iffs:
  "Header_has_messageid m \<longleftrightarrow> bit (phd_bits m) 0" "Header_has_topic m \<longleftrightarrow> bit
      (phd_bits m) 1" "Header_has_messagetype m \<longleftrightarrow> bit (phd_bits m) 2" "Header_has_expiredtime m
      \<longleftrightarrow> bit (phd_bits m) 3" "Header_has_deliverlimit m \<longleftrightarrow> bit (phd_bits m)
      4" "Header_has_groupid m \<longleftrightarrow> bit (phd_bits m) 5" "Header_has_commit m \<longleftrightarrow>
      bit (phd_bits m) 6" "Header_has_fly m \<longleftrightarrow> bit (phd_bits m) 7" "Header_has_createtime m
      \<longleftrightarrow> bit (phd_bits m) 9"
  by (simp_all add: Header_has_defs byte_simps)

lemma Header_initialized_iff:
  "Header_IsInitialized m \<longleftrightarrow> bit (phd_bits m) 0 \<and> bit (phd_bits m) 1 \<and> bit (phd_bits
      m) 2 \<and> bit (phd_bits m) 3 \<and> bit (phd_bits m) 4 \<and> bit (phd_bits m) 5 \<and> bit (phd_bits m) 6
      \<and> bit (phd_bits m) 7 \<and>
     list_all Entry_IsInitialized (phd_properties m)"
  by (auto simp: Header_IsInitialized_def byte_simps)

lemma Header_swap: "Header_InternalSwap m other = (other, m)"
  by (cases m; cases other) (simp add: Header_InternalSwap_def)

lemma Header_clear_built: "Header_built m \<Longrightarrow> Header_Clear W m = Header_new"
  by (cases m) (auto simp: Header_Clear_def Header_new_def Header_built_def Header_has_iffs byte_simps Let_def)

lemma Header_serialize_agree:
  "Header_SerializeWithCachedSizes W m out = out @ Header_SerializeWithCachedSizesToArray W m"
  by (simp only: Header_SerializeWithCachedSizes_def Header_SerializeWithCachedSizesToArray_def append_if foldl_write
      append_assoc Let_def)

text \<open>The entries' sizes fit the 32-bit length prefix.\<close>

definition Header_fits :: "'u wire \<Rightarrow> 'u msgHeader \<Rightarrow> bool" where
  "Header_fits W m \<longleftrightarrow> list_all (\<lambda>e. fst (Entry_ByteSize W e) < 2 ^ 31) (phd_properties m)"

context wire_laws begin

lemma Header_top: "top_is (Header_step W rm) [(1, 10), (2, 18), (3, 26), (4, 32), (5, 40), (6, 50), (7, 56), (8,
    64), (9, 74), (10, 80)]"
  unfolding top_is_def
  by (intro exI [of _ phd_unknown] exI [of _ "\<lambda>u m. m\<lparr>phd_unknown := Some u\<rparr>"] allI) (simp
      add: Header_step_def)

lemma Header_run_messageid: "length v < 2 ^ 31 \<Longrightarrow>
   merge_run (Header_step W rm) Top \<lparr>avail = WriteString W 1 v @ rest, depth = d\<rparr> m =
   merge_run (Header_step W rm) Top \<lparr>avail = rest, depth = d\<rparr> ((Header_set_has_messageid
       m)\<lparr>phd_messageid := v\<rparr>)"
  by (rule run_str [OF Header_top, where n = 1 and f = "NextTag 18 (Parse 2)" and rdr = "ReadString W" and get =
      phd_messageid
        and put = "\<lambda>v m. m\<lparr>phd_messageid := v\<rparr>" and set_has = Header_set_has_messageid, OF _
            _ _ str])
    (simp_all add: follow_ok_def GetTagFieldNumber_def Header_step_def)

lemma Header_run_topic: "length v < 2 ^ 31 \<Longrightarrow>
   merge_run (Header_step W rm) Top \<lparr>avail = WriteString W 2 v @ rest, depth = d\<rparr> m =
   merge_run (Header_step W rm) Top \<lparr>avail = rest, depth = d\<rparr> ((Header_set_has_topic
       m)\<lparr>phd_topic := v\<rparr>)"
  by (rule run_str [OF Header_top, where n = 2 and f = "NextTag 26 (Parse 3)" and rdr = "ReadString W" and get =
      phd_topic
        and put = "\<lambda>v m. m\<lparr>phd_topic := v\<rparr>" and set_has = Header_set_has_topic, OF _ _ _ str])
    (simp_all add: follow_ok_def GetTagFieldNumber_def Header_step_def)

lemma Header_run_messagetype: "length v < 2 ^ 31 \<Longrightarrow>
   merge_run (Header_step W rm) Top \<lparr>avail = WriteString W 3 v @ rest, depth = d\<rparr> m =
   merge_run (Header_step W rm) Top \<lparr>avail = rest, depth = d\<rparr> ((Header_set_has_messagetype
       m)\<lparr>phd_messagetype := v\<rparr>)"
  by (rule run_str [OF Header_top, where n = 3 and f = "NextTag 32 (Parse 4)" and rdr = "ReadString W" and get =
      phd_messagetype
        and put = "\<lambda>v m. m\<lparr>phd_messagetype := v\<rparr>" and set_has = Header_set_has_messagetype,
            OF _ _ _ str])
    (simp_all add: follow_ok_def GetTagFieldNumber_def Header_step_def)

lemma Header_run_expiredtime:
  "merge_run (Header_step W rm) Top \<lparr>avail = WriteInt64 W 4 v @ rest, depth = d\<rparr> m =
   merge_run (Header_step W rm) Top \<lparr>avail = rest, depth = d\<rparr> (Header_set_has_expiredtime
       (m\<lparr>phd_expiredtime := v\<rparr>))"
  by (rule run_prim [OF Header_top, where n = 4 and f = "NextTag 40 (Parse 5)" and rdr = "ReadInt64 W"
        and put = "\<lambda>v m. m\<lparr>phd_expiredtime := v\<rparr>" and set_has = Header_set_has_expiredtime,
            OF _ _ _ int64])
    (simp_all add: follow_ok_def GetTagFieldNumber_def Header_step_def)

lemma Header_run_deliverlimit:
  "merge_run (Header_step W rm) Top \<lparr>avail = WriteInt32 W 5 v @ rest, depth = d\<rparr> m =
   merge_run (Header_step W rm) Top \<lparr>avail = rest, depth = d\<rparr> (Header_set_has_deliverlimit
       (m\<lparr>phd_deliverlimit := v\<rparr>))"
  by (rule run_prim [OF Header_top, where n = 5 and f = "NextTag 50 (Parse 6)" and rdr = "ReadInt32 W"
        and put = "\<lambda>v m. m\<lparr>phd_deliverlimit := v\<rparr>" and set_has = Header_set_has_deliverlimit,
            OF _ _ _ int32])
    (simp_all add: follow_ok_def GetTagFieldNumber_def Header_step_def)

lemma Header_run_groupid: "length v < 2 ^ 31 \<Longrightarrow>
   merge_run (Header_step W rm) Top \<lparr>avail = WriteString W 6 v @ rest, depth = d\<rparr> m =
   merge_run (Header_step W rm) Top \<lparr>avail = rest, depth = d\<rparr> ((Header_set_has_groupid
       m)\<lparr>phd_groupid := v\<rparr>)"
  by (rule run_str [OF Header_top, where n = 6 and f = "NextTag 56 (Parse 7)" and rdr = "ReadString W" and get =
      phd_groupid
        and put = "\<lambda>v m. m\<lparr>phd_groupid := v\<rparr>" and set_has = Header_set_has_groupid, OF _ _ _
            str])
    (simp_all add: follow_ok_def GetTagFieldNumber_def Header_step_def)

lemma Header_run_commit:
  "merge_run (Header_step W rm) Top \<lparr>avail = WriteBool W 7 v @ rest, depth = d\<rparr> m =
   merge_run (Header_step W rm) Top \<lparr>avail = rest, depth = d\<rparr> (Header_set_has_commit
       (m\<lparr>phd_commit := v\<rparr>))"
  by (rule run_prim [OF Header_top, where n = 7 and f = "NextTag 64 (Parse 8)" and rdr = "ReadBool W"
        and put = "\<lambda>v m. m\<lparr>phd_commit := v\<rparr>" and set_has = Header_set_has_commit, OF _ _ _
            bool])
    (simp_all add: follow_ok_def GetTagFieldNumber_def Header_step_def)

lemma Header_run_fly:
  "merge_run (Header_step W rm) Top \<lparr>avail = WriteBool W 8 v @ rest, depth = d\<rparr> m =
   merge_run (Header_step W rm) Top \<lparr>avail = rest, depth = d\<rparr> (Header_set_has_fly (m\<lparr>phd_fly
       := v\<rparr>))"
  by (rule run_prim [OF Header_top, where n = 8 and f = "NextTag 74 (Parse 9)" and rdr = "ReadBool W"
        and put = "\<lambda>v m. m\<lparr>phd_fly := v\<rparr>" and set_has = Header_set_has_fly, OF _ _ _ bool])
    (simp_all add: follow_ok_def GetTagFieldNumber_def Header_step_def)

lemma Header_run_createtime:
  "merge_run (Header_step W rm) Top \<lparr>avail = WriteInt64 W 10 v @ rest, depth = d\<rparr> m =
   merge_run (Header_step W rm) Top \<lparr>avail = rest, depth = d\<rparr> (Header_set_has_createtime
       (m\<lparr>phd_createtime := v\<rparr>))"
  by (rule run_prim [OF Header_top, where n = 10 and f = "AtEnd" and rdr = "ReadInt64 W"
        and put = "\<lambda>v m. m\<lparr>phd_createtime := v\<rparr>" and set_has = Header_set_has_createtime, OF
            _ _ _ int64])
    (simp_all add: follow_ok_def GetTagFieldNumber_def Header_step_def)

lemmas Header_runs = Header_run_messageid Header_run_topic Header_run_messagetype Header_run_expiredtime
    Header_run_deliverlimit Header_run_groupid Header_run_commit Header_run_fly Header_run_createtime
  Header_run_createtime [where rest = "[]", unfolded append_Nil2]
  Header_run_fly [where rest = "[]", unfolded append_Nil2]

lemma Header_run_end: "merge_run (Header_step W rm) Top \<lparr>avail = [], depth = d\<rparr> m = Some (True,
    \<lparr>avail = [], depth = d\<rparr>, m)"
  by (rule run_end) (simp add: Header_step_def)


text \<open>
  One property: the repeated field's loop, whichever of \<open>ExpectTag\<close>'s answers it gets, goes on
  as from the head of the parser.
\<close>

lemma Header_run_property:
  assumes rm: "reads_message W rm" and e: "Entry_built e" "Entry_IsInitialized e"
    and len: "fst (Entry_ByteSize W e) < 2 ^ 31" and d: "2 \<le> d"
  shows "merge_run (Header_step W rm) Top \<lparr>avail = WriteMessage W 9 (ent_cached (snd (Entry_ByteSize W e)))
      (Entry_SerializeWithCachedSizesToArray W (snd (Entry_ByteSize W e))) @ rest, depth = d\<rparr> m =
    merge_run (Header_step W rm) Top \<lparr>avail = rest, depth = d\<rparr> (m\<lparr>phd_properties :=
        phd_properties m @ [e]\<rparr>)"
proof -
  let ?bs = "Entry_SerializeWithCachedSizesToArray W (snd (Entry_ByteSize W e))"
  let ?m = "m\<lparr>phd_properties := phd_properties m @ [e]\<rparr>"
  have sz: "fst (Entry_ByteSize W e) = int (length ?bs)"
    by (rule Entry_size) (use e(1) in \<open>simp_all add: Entry_built_def\<close>)
  have c: "ent_cached (snd (Entry_ByteSize W e)) = int (length ?bs)"
    unfolding sz [symmetric] by (simp add: Entry_ByteSize_def Let_def)
  have len': "length ?bs < 2 ^ 31" using len sz by simp
  obtain r where r: "ReadTagWithCutoff W 127 (WriteMessage W 9 (int (length ?bs)) ?bs @ rest) = ((8 * 9 + 2, True),
      r)"
    "rm (Entry_MergePartialFromCodedStream W) \<lparr>avail = r, depth = d - 1\<rparr> Entry_new =
      Some (True, \<lparr>avail = rest, depth = d - 1\<rparr>, e)"
    using rm [unfolded reads_message_def, rule_format, of 9 ?bs "d - 1" "Entry_MergePartialFromCodedStream W"
        Entry_new e rest]
      Entry_roundtrip [OF e] len' d by auto
  have t: "GetTagFieldNumber (8 * 9 + 2) = 9" by (simp add: GetTagFieldNumber_def)
  have loop: "merge_run (Header_step W rm) (Parse 9) \<lparr>avail = a, depth = d\<rparr> x =
      merge_run (Header_step W rm) (ParseLoop 9) \<lparr>avail = a, depth = d - 1\<rparr> x" for a x
    using d by (subst run_go_on) (simp add: Header_step_def)
  have "merge_run (Header_step W rm) Top \<lparr>avail = WriteMessage W 9 (int (length ?bs)) ?bs @ rest, depth =
      d\<rparr> m =
      merge_run (Header_step W rm) (ParseLoop 9) \<lparr>avail = r, depth = d - 1\<rparr> m"
    unfolding loop [symmetric] by (rule run_tag [OF Header_top r(1), unfolded t]) simp
  also have "\<dots> = merge_run (Header_step W rm) Top \<lparr>avail = rest, depth = d\<rparr> ?m"
  proof (cases "ExpectTag W 74 rest")
    case None
    then have "merge_run (Header_step W rm) (ParseLoop 9) \<lparr>avail = r, depth = d - 1\<rparr> m =
        go_on (Header_step W rm) (after W (NextTag 80 (Parse 10)) \<lparr>avail = rest, depth = d\<rparr> ?m)"
      using r(2) d by (subst run_go_on) (simp add: Header_step_def)
    also have "\<dots> = merge_run (Header_step W rm) Top \<lparr>avail = rest, depth = d\<rparr> ?m"
      by (rule run_after [OF Header_top]) (simp add: follow_ok_def GetTagFieldNumber_def)
    finally show ?thesis .
  next
    case (Some r2)
    then have "merge_run (Header_step W rm) (ParseLoop 9) \<lparr>avail = r, depth = d - 1\<rparr> m =
        merge_run (Header_step W rm) (ParseLoop 9) \<lparr>avail = r2, depth = d - 1\<rparr> ?m"
      using r(2) by (subst run_go_on) (simp add: Header_step_def)
    also have "\<dots> = merge_run (Header_step W rm) Top \<lparr>avail = rest, depth = d\<rparr> ?m"
      unfolding loop [symmetric]
      using run_tag [OF Header_top [of rm] expect_tag [OF Some], where d = d and m = ?m] by (simp add:
          GetTagFieldNumber_def)
    finally show ?thesis .
  qed
  finally show ?thesis by (simp add: c)
qed

lemma Header_run_properties:
  assumes "reads_message W rm" and "2 \<le> d"
    and "\<forall>e\<in>set es. Entry_built e \<and> Entry_IsInitialized e \<and> fst (Entry_ByteSize W e) < 2 ^ 31"
  shows "merge_run (Header_step W rm) Top
      \<lparr>avail = concat (map (\<lambda>e. WriteMessage W 9 (ent_cached (snd (Entry_ByteSize W e)))
        (Entry_SerializeWithCachedSizesToArray W (snd (Entry_ByteSize W e)))) es) @ rest, depth = d\<rparr> m =
    merge_run (Header_step W rm) Top \<lparr>avail = rest, depth = d\<rparr> (m\<lparr>phd_properties :=
        phd_properties m @ es\<rparr>)"
  using assms(3)
proof (induction es arbitrary: m)
  case (Cons e es)
  then show ?case by (simp add: Header_run_property [OF assms(1) _ _ _ assms(2)])
qed simp

lemma Header_properties_size:
  assumes "\<forall>e\<in>set es. Entry_built e \<and> fst (Entry_ByteSize W e) < 2 ^ 31"
  shows "int (length (concat (map (\<lambda>e. WriteMessage W 9 (ent_cached (snd (Entry_ByteSize W e)))
        (Entry_SerializeWithCachedSizesToArray W (snd (Entry_ByteSize W e)))) es))) =
    int (length es) + sum_list (map (\<lambda>e. LengthDelimitedSize W (fst (Entry_ByteSize W e))) es)"
  using assms
proof (induction es)
  case (Cons e es)
  let ?bs = "Entry_SerializeWithCachedSizesToArray W (snd (Entry_ByteSize W e))"
  have sz: "fst (Entry_ByteSize W e) = int (length ?bs)"
    by (rule Entry_size) (use Cons.prems in \<open>simp_all add: Entry_built_def\<close>)
  have c: "ent_cached (snd (Entry_ByteSize W e)) = int (length ?bs)"
    unfolding sz [symmetric] by (simp add: Entry_ByteSize_def Let_def)
  have "int (length (WriteMessage W 9 (int (length ?bs)) ?bs)) = 1 + LengthDelimitedSize W (int (length ?bs))"
    by (rule len_message) (use Cons.prems sz in simp_all)
  then show ?case using Cons by (simp add: c sz)
qed simp

lemma Header_size:
  assumes "Header_built m" and "Header_fits W m"
  shows "fst (Header_ByteSize W m) = int (length (Header_SerializeWithCachedSizesToArray W (snd (Header_ByteSize W
      m))))"
proof -
  have p: "\<forall>e\<in>set (phd_properties m). Entry_built e \<and> fst (Entry_ByteSize W e) < 2 ^ 31"
    using assms by (auto simp: Header_built_def Header_fits_def list_all_iff)
  show ?thesis
    using assms(1) Header_properties_size [OF p]
    by (simp add: Header_ByteSize_def Header_RequiredFieldsByteSizeFallback_def
        Header_SerializeWithCachedSizesToArray_def Header_has_iffs Header_built_def byte_simps len_int64 len_int32
        len_bool len_str len_unknown_bytes comp_def Let_def)
qed

lemma Header_roundtrip:
  assumes rm: "reads_message W rm" and "Header_built m" and "Header_IsInitialized m" and "Header_fits W m" and d:
      "2 \<le> d"
  shows "Header_MergePartialFromCodedStream W rm
      \<lparr>avail = Header_SerializeWithCachedSizesToArray W (snd (Header_ByteSize W m)), depth = d\<rparr>
          Header_new =
    Some (True, \<lparr>avail = [], depth = d\<rparr>, m)"
proof -
  have b: "bit (phd_bits m) 0" "bit (phd_bits m) 1" "bit (phd_bits m) 2" "bit (phd_bits m) 3" "bit (phd_bits m) 4"
    "bit (phd_bits m) 5" "bit (phd_bits m) 6" "bit (phd_bits m) 7" and i: "list_all Entry_IsInitialized
        (phd_properties m)"
    using assms(3) by (simp_all add: Header_initialized_iff)
  have k: "\<forall>n. bit (phd_bits m) n \<longrightarrow> n < 10" and n8: "\<not> bit (phd_bits m) 8"
    using assms(2) by (simp_all add: Header_built_def)
  have p: "\<forall>e\<in>set (phd_properties m). Entry_built e \<and> Entry_IsInitialized e \<and> fst
      (Entry_ByteSize W e) < 2 ^ 31"
    using assms(2,4) i by (auto simp: Header_built_def Header_fits_def list_all_iff)
  note run_p = Header_run_properties [OF rm d p] Header_run_properties [OF rm d p, where rest = "[]", unfolded
      append_Nil2]
  have w: "phd_bits m = flags (bit (phd_bits m))" by (rule known_bits [OF k]) simp
  show ?thesis
  proof (cases "bit (phd_bits m) 9")
    case True
    have v: "phd_bits m = 767" by (subst w) (use n8 b True in \<open>simp add: flags_def\<close>)
    show ?thesis
      using assms(2) True b v run_p
      by (cases m) (simp add: Header_MergePartialFromCodedStream_def Header_SerializeWithCachedSizesToArray_def
          Header_ByteSize_def Header_has_iffs Header_runs Header_run_end Header_built_def Header_new_def
              Header_set_defs
          comp_def Let_def del: One_nat_def)
  next
    case False
    have v: "phd_bits m = 255" by (subst w) (use n8 b False in \<open>simp add: flags_def\<close>)
    show ?thesis
      using assms(2) False b v run_p
      by (cases m) (simp add: Header_MergePartialFromCodedStream_def Header_SerializeWithCachedSizesToArray_def
          Header_ByteSize_def Header_has_iffs Header_runs Header_run_end Header_built_def Header_new_def
              Header_set_defs
          comp_def Let_def del: One_nat_def)
  qed
qed

lemma Header_returns:
  assumes "returns_message rm"
  shows "Header_MergePartialFromCodedStream W rm inp m \<noteq> None"
  unfolding Header_MergePartialFromCodedStream_def
proof (rule run_returns)
  have entry: "\<exists>ok i e. rm (Entry_MergePartialFromCodedStream W) inp Entry_new = Some (ok, i, e) \<and>
      (ok \<longrightarrow> length (avail i) < length (avail inp))" for inp
    using assms Entry_returns unfolding returns_message_def by meson
  show "parse_rank p' inp' < parse_rank p inp" if "Header_step W rm p inp m = Goto p' inp' m'" for p inp m p' inp' m'
  proof (cases p)
    case Top
    with that show ?thesis by (auto simp: Header_step_def dest!: switch_rank)
  next
    case (Parse n)
    with that show ?thesis
      by (auto simp: Header_step_def follow_pos_def split: if_splits
          dest!: prim_ranks str_ranks)
  next
    case (ParseLoop n)
    obtain ok i e where e: "rm (Entry_MergePartialFromCodedStream W) inp Entry_new = Some (ok, i, e)"
      "ok \<longrightarrow> length (avail i) < length (avail inp)"
      using entry by blast
    show ?thesis
    proof (cases "ExpectTag W 74 (avail i)")
      case None
      have "parse_rank p' inp' < 2 * length (avail inp)"
        using that ParseLoop e None
        by (auto simp: Header_step_def Let_def follow_pos_def split: if_splits
            intro: after_rank_less [where inp = inp])
      with ParseLoop show ?thesis by simp
    next
      case (Some r)
      with that ParseLoop e show ?thesis
        by (auto simp: Header_step_def Let_def split: if_splits dest!: tag_shrinks [OF expect_tag])
    qed
  qed
  show "Header_step W rm p inp m \<noteq> Diverges" for p inp m
  proof (cases p)
    case (ParseLoop n)
    obtain ok i e where "rm (Entry_MergePartialFromCodedStream W) inp Entry_new = Some (ok, i, e)"
      using entry by blast
    with ParseLoop show ?thesis by (simp add: Header_step_def no_Diverges Let_def split: option.split)
  qed (simp_all add: Header_step_def no_Diverges)
qed

lemma Entry_merge_new: "Entry_built e \<Longrightarrow> Entry_IsInitialized e \<Longrightarrow> Entry_MergeFrom W e
    Entry_new = e"
  using Entry_copy [of e Entry_new]
  by (simp add: Entry_CopyFrom_def Entry_built_def Entry_new_def Entry_Clear_def Entry_has_iffs byte_simps Let_def)

lemma Header_merge_new:
  assumes "Header_built frm" and "Header_IsInitialized frm"
  shows "Header_MergeFrom W frm Header_new = frm"
proof -
  have b: "bit (phd_bits frm) 0" "bit (phd_bits frm) 1" "bit (phd_bits frm) 2" "bit (phd_bits frm) 3" "bit
      (phd_bits frm) 4"
    "bit (phd_bits frm) 5" "bit (phd_bits frm) 6" "bit (phd_bits frm) 7" and i: "list_all Entry_IsInitialized
        (phd_properties frm)"
    using assms(2) by (simp_all add: Header_initialized_iff)
  have k: "\<forall>n. bit (phd_bits frm) n \<longrightarrow> n < 10" and n8: "\<not> bit (phd_bits frm) 8"
    using assms(1) by (simp_all add: Header_built_def)
  have p: "map (\<lambda>e. Entry_MergeFrom W e Entry_new) (phd_properties frm) = phd_properties frm"
    using assms(1) i by (intro map_idI) (auto simp: Header_built_def list_all_iff Entry_merge_new)
  have w: "phd_bits frm = flags (bit (phd_bits frm))" by (rule known_bits [OF k]) simp
  show ?thesis
  proof (cases "bit (phd_bits frm) 9")
    case True
    have v: "phd_bits frm = 767" by (subst w) (use n8 b True in \<open>simp add: flags_def\<close>)
    show ?thesis using assms(1) True b v p
      by (cases frm) (simp add: Header_MergeFrom_def Header_has_iffs Header_built_def Header_new_def
          Header_set_defs Let_def)
  next
    case False
    have v: "phd_bits frm = 255" by (subst w) (use n8 b False in \<open>simp add: flags_def\<close>)
    show ?thesis using assms(1) False b v p
      by (cases frm) (simp add: Header_MergeFrom_def Header_has_iffs Header_built_def Header_new_def
          Header_set_defs Let_def)
  qed
qed

lemma Header_copy:
  "Header_built frm \<Longrightarrow> Header_IsInitialized frm \<Longrightarrow> Header_built m \<Longrightarrow>
      Header_CopyFrom W frm m = frm"
  by (simp add: Header_CopyFrom_def Header_clear_built Header_merge_new)

end

section \<open>Headers inside messages\<close>

text \<open>
  The library's two functions that read a submessage, for entries and for headers.
\<close>

record 'u readers =
  read_entry :: "'u entry merger \<Rightarrow> 'u entry merger"
  read_header :: "'u msgHeader merger \<Rightarrow> 'u msgHeader merger"

text \<open>
  A message with a header keeps a pointer to it.  Whenever the has-bit is set the pointer is not
  NULL (\<open>mutable_header\<close> sets both, \<open>release_header\<close> and \<open>Clear\<close> reset the
      bit), so the case
  \<open>None\<close> below is never reached from the operations of the class.
\<close>

definition write_header :: "'u wire \<Rightarrow> nat \<Rightarrow> 'u msgHeader option \<Rightarrow> byte list" where
  "write_header W n p =
     (case p of None \<Rightarrow> []
      | Some h \<Rightarrow> WriteMessage W n (phd_cached h) (Header_SerializeWithCachedSizesToArray W h))"

definition header_size :: "'u wire \<Rightarrow> 'u msgHeader option \<Rightarrow> int" where
  "header_size W p = (case p of None \<Rightarrow> 0 | Some h \<Rightarrow> fst (Header_ByteSize W h))"

definition header_initialized :: "'u msgHeader option \<Rightarrow> bool" where
  "header_initialized p = (case p of None \<Rightarrow> True | Some h \<Rightarrow> Header_IsInitialized h)"

text \<open>A header that can travel: built by its setters, complete, and small enough for its length prefix.\<close>

definition good_header :: "'u wire \<Rightarrow> 'u msgHeader \<Rightarrow> bool" where
  "good_header W h \<longleftrightarrow>
     Header_built h \<and> Header_IsInitialized h \<and> Header_fits W h \<and> fst (Header_ByteSize W h) < 2 ^ 31"

context wire_laws begin

lemma Header_cached: "phd_cached (snd (Header_ByteSize W h)) = fst (Header_ByteSize W h)"
  by (simp add: Header_ByteSize_def Let_def)

lemma write_header_eq:
  assumes "good_header W h"
  shows "write_header W n (Some (snd (Header_ByteSize W h))) =
    WriteMessage W n (int (length (Header_SerializeWithCachedSizesToArray W (snd (Header_ByteSize W h)))))
      (Header_SerializeWithCachedSizesToArray W (snd (Header_ByteSize W h)))"
  using assms by (simp add: write_header_def good_header_def Header_cached Header_size)

lemma write_header_length:
  assumes "good_header W h" and "1 \<le> n" and "n \<le> 15"
  shows "int (length (write_header W n (Some (snd (Header_ByteSize W h))))) =
    1 + LengthDelimitedSize W (header_size W (Some h))"
proof -
  let ?bs = "Header_SerializeWithCachedSizesToArray W (snd (Header_ByteSize W h))"
  have "fst (Header_ByteSize W h) = int (length ?bs)"
    using assms(1) by (simp add: good_header_def Header_size)
  moreover from this have "length ?bs < 2 ^ 31" using assms(1) by (simp add: good_header_def)
  ultimately show ?thesis
    by (simp add: write_header_eq [OF assms(1)] header_size_def len_message [OF assms(2,3)])
qed

end

end
