(* ===== verification/PbTxACKPacket.thy ===== *)
theory PbTxACKPacket
  imports PbHeader
begin

text \<open>
  The class \<^verbatim>\<open>TxACKPacket\<close> of \<^verbatim>\<open>kite_remoting.pb.h\<close> and
  \<^verbatim>\<open>kite_remoting.pb.cc\<close>: the transaction message: a header, the transaction's state and
  feedback. The record holds the has-bits, the fields, the unknown fields and the cached size; each method is one
  definition. The lemmas in \<open>wire_laws\<close> show that a message built by its setters is sized exactly, parsed
  back from its own bytes, and copied, and that parsing always returns.
\<close>

section \<open>TxACKPacket\<close>

record 'u txACKPacket =
  txa_bits :: int32
  txa_header :: "'u msgHeader option"
  txa_status :: int32
  txa_feedback :: "byte list"
  txa_unknown :: "'u option"
  txa_cached :: int

definition TxACKPacket_new :: "'u txACKPacket" where
  "TxACKPacket_new = \<lparr>txa_bits = 0, txa_header = None, txa_status = 0, txa_feedback = [],
     txa_unknown = None, txa_cached = 0\<rparr>"

definition TxACKPacket_has_header :: "'u txACKPacket \<Rightarrow> bool" where
  "TxACKPacket_has_header m \<longleftrightarrow> txa_bits m AND 1 \<noteq> 0"

definition TxACKPacket_set_has_header :: "'u txACKPacket \<Rightarrow> 'u txACKPacket" where
  "TxACKPacket_set_has_header m = m\<lparr>txa_bits := txa_bits m OR 1\<rparr>"

definition TxACKPacket_header :: "'u txACKPacket \<Rightarrow> 'u msgHeader" where
  "TxACKPacket_header m = (case txa_header m of None \<Rightarrow> Header_new | Some h \<Rightarrow> h)"

text \<open>\<open>mutable_header\<close> sets the has-bit and creates the header if there is none.\<close>

definition TxACKPacket_mutable_header :: "'u txACKPacket \<Rightarrow> 'u msgHeader" where
  "TxACKPacket_mutable_header m = (case txa_header m of None \<Rightarrow> Header_new | Some h \<Rightarrow> h)"

definition TxACKPacket_put_header :: "'u msgHeader \<Rightarrow> 'u txACKPacket \<Rightarrow> 'u txACKPacket" where
  "TxACKPacket_put_header h m = (TxACKPacket_set_has_header m)\<lparr>txa_header := Some h\<rparr>"

definition TxACKPacket_has_status :: "'u txACKPacket \<Rightarrow> bool" where
  "TxACKPacket_has_status m \<longleftrightarrow> txa_bits m AND 2 \<noteq> 0"

definition TxACKPacket_set_has_status :: "'u txACKPacket \<Rightarrow> 'u txACKPacket" where
  "TxACKPacket_set_has_status m = m\<lparr>txa_bits := txa_bits m OR 2\<rparr>"

definition TxACKPacket_set_status :: "int32 \<Rightarrow> 'u txACKPacket \<Rightarrow> 'u txACKPacket" where
  "TxACKPacket_set_status v m = (TxACKPacket_set_has_status m)\<lparr>txa_status := v\<rparr>"

definition TxACKPacket_has_feedback :: "'u txACKPacket \<Rightarrow> bool" where
  "TxACKPacket_has_feedback m \<longleftrightarrow> txa_bits m AND 4 \<noteq> 0"

definition TxACKPacket_set_has_feedback :: "'u txACKPacket \<Rightarrow> 'u txACKPacket" where
  "TxACKPacket_set_has_feedback m = m\<lparr>txa_bits := txa_bits m OR 4\<rparr>"

definition TxACKPacket_set_feedback :: "byte list \<Rightarrow> 'u txACKPacket \<Rightarrow> 'u txACKPacket" where
  "TxACKPacket_set_feedback v m = (TxACKPacket_set_has_feedback m)\<lparr>txa_feedback := v\<rparr>"

definition TxACKPacket_Clear :: "'u wire \<Rightarrow> 'u txACKPacket \<Rightarrow> 'u txACKPacket" where
  "TxACKPacket_Clear W m =
     (let m = (if txa_bits m AND 7 \<noteq> 0
            then (let m = (if TxACKPacket_has_header m then m\<lparr>txa_header := map_option (Header_Clear W)
                (txa_header m)\<rparr> else m);
                      m = m\<lparr>txa_status := 0\<rparr>;
                      m = (if TxACKPacket_has_feedback m then m\<lparr>txa_feedback := []\<rparr> else m)
                  in m)
            else m);
          m = m\<lparr>txa_bits := 0\<rparr>
      in m\<lparr>txa_unknown := clear_unknown W (txa_unknown m)\<rparr>)"

definition TxACKPacket_step :: "'u wire \<Rightarrow> 'u readers \<Rightarrow> 'u txACKPacket parse_step" where
  "TxACKPacket_step W rs p inp m =
     (case p of
        Top \<Rightarrow> switch_tag W [(1, 10), (2, 16), (3, 26)] txa_unknown
          (\<lambda>u m. m\<lparr>txa_unknown := Some u\<rparr>) inp m
      | Parse n \<Rightarrow>
          if n = 1 then read_sub W (read_header rs) (Header_MergePartialFromCodedStream W (read_entry rs))
            TxACKPacket_mutable_header TxACKPacket_put_header (NextTag 16 (Parse 2)) inp m
          else if n = 2 then read_prim W (ReadInt32 W) (\<lambda>v m. m\<lparr>txa_status := v\<rparr>)
              TxACKPacket_set_has_status
            (NextTag 26 (Parse 3)) inp m
          else read_str W (ReadString W) txa_feedback (\<lambda>v m. m\<lparr>txa_feedback := v\<rparr>)
              TxACKPacket_set_has_feedback
            AtEnd inp m
      | ParseLoop n \<Rightarrow> Ends False inp m)"

definition TxACKPacket_MergePartialFromCodedStream :: "'u wire \<Rightarrow> 'u readers \<Rightarrow> 'u
    txACKPacket merger" where
  "TxACKPacket_MergePartialFromCodedStream W rs inp m = merge_run (TxACKPacket_step W rs) Top inp m"

definition TxACKPacket_SerializeWithCachedSizes :: "'u wire \<Rightarrow> 'u txACKPacket \<Rightarrow> byte list
    \<Rightarrow> byte list" where
  "TxACKPacket_SerializeWithCachedSizes W m out =
     (let out = (if TxACKPacket_has_header m then out @ write_header W 1 (txa_header m) else out);
          out = (if TxACKPacket_has_status m then out @ WriteInt32 W 2 (txa_status m) else out);
          out = (if TxACKPacket_has_feedback m then out @ WriteString W 3 (txa_feedback m) else out)
      in out @ unknown_bytes W (txa_unknown m))"

definition TxACKPacket_SerializeWithCachedSizesToArray :: "'u wire \<Rightarrow> 'u txACKPacket \<Rightarrow> byte
    list" where
  "TxACKPacket_SerializeWithCachedSizesToArray W m =
     (if TxACKPacket_has_header m then write_header W 1 (txa_header m) else []) @
     (if TxACKPacket_has_status m then WriteInt32 W 2 (txa_status m) else []) @
     (if TxACKPacket_has_feedback m then WriteString W 3 (txa_feedback m) else []) @
     unknown_bytes W (txa_unknown m)"

definition TxACKPacket_RequiredFieldsByteSizeFallback :: "'u wire \<Rightarrow> 'u txACKPacket \<Rightarrow> int"
    where
  "TxACKPacket_RequiredFieldsByteSizeFallback W m =
     (if TxACKPacket_has_header m then (1 + LengthDelimitedSize W (header_size W (txa_header m))) else 0) +
     (if TxACKPacket_has_status m then (1 + Int32Size W (txa_status m)) else 0) +
     (if TxACKPacket_has_feedback m then (1 + StringSize W (txa_feedback m)) else 0)"

definition TxACKPacket_ByteSize :: "'u wire \<Rightarrow> 'u txACKPacket \<Rightarrow> int \<times> 'u txACKPacket"
    where
  "TxACKPacket_ByteSize W m =
     (let total_size = (if (txa_bits m AND 7) XOR 7 = 0
            then (1 + LengthDelimitedSize W (header_size W (txa_header m))) +
              (1 + Int32Size W (txa_status m)) +
              (1 + StringSize W (txa_feedback m))
            else TxACKPacket_RequiredFieldsByteSizeFallback W m);
          m = (if TxACKPacket_has_header m then m\<lparr>txa_header := map_option (\<lambda>h. snd (Header_ByteSize
              W h)) (txa_header m)\<rparr> else m);
          total_size = total_size + unknown_size W (txa_unknown m)
      in (total_size, m\<lparr>txa_cached := total_size\<rparr>))"

definition TxACKPacket_MergeFrom :: "'u wire \<Rightarrow> 'u txACKPacket \<Rightarrow> 'u txACKPacket
    \<Rightarrow> 'u txACKPacket" where
  "TxACKPacket_MergeFrom W frm m =
     (let m = (if txa_bits frm AND 255 \<noteq> 0
            then (let m = (if TxACKPacket_has_header frm
                           then TxACKPacket_put_header (Header_MergeFrom W (TxACKPacket_header frm)
                               (TxACKPacket_mutable_header m)) m else m);
                      m = (if TxACKPacket_has_status frm then TxACKPacket_set_status (txa_status frm) m else m);
                      m = (if TxACKPacket_has_feedback frm then (TxACKPacket_set_has_feedback
                          m)\<lparr>txa_feedback := txa_feedback frm\<rparr> else m)
                  in m)
            else m)
      in m\<lparr>txa_unknown := merge_unknown W (txa_unknown frm) (txa_unknown m)\<rparr>)"

definition TxACKPacket_CopyFrom :: "'u wire \<Rightarrow> 'u txACKPacket \<Rightarrow> 'u txACKPacket \<Rightarrow>
    'u txACKPacket" where
  "TxACKPacket_CopyFrom W frm m = TxACKPacket_MergeFrom W frm (TxACKPacket_Clear W m)"

definition TxACKPacket_IsInitialized :: "'u txACKPacket \<Rightarrow> bool" where
  "TxACKPacket_IsInitialized m =
     (if txa_bits m AND 7 \<noteq> 7 then False
      else if TxACKPacket_has_header m \<and> \<not> header_initialized (txa_header m) then False else True)"

definition TxACKPacket_InternalSwap :: "'u txACKPacket \<Rightarrow> 'u txACKPacket \<Rightarrow> 'u txACKPacket
    \<times> 'u txACKPacket" where
  "TxACKPacket_InternalSwap m other =
     (m\<lparr>txa_header := txa_header other, txa_status := txa_status other, txa_feedback := txa_feedback other,
         txa_bits := txa_bits other, txa_unknown := txa_unknown other, txa_cached := txa_cached other\<rparr>,
      other\<lparr>txa_header := txa_header m, txa_status := txa_status m, txa_feedback := txa_feedback m, txa_bits
          := txa_bits m, txa_unknown := txa_unknown m, txa_cached := txa_cached m\<rparr>)"

lemmas TxACKPacket_has_defs = TxACKPacket_has_header_def TxACKPacket_has_status_def TxACKPacket_has_feedback_def
lemmas TxACKPacket_set_defs = TxACKPacket_set_has_header_def TxACKPacket_set_has_status_def
    TxACKPacket_set_has_feedback_def TxACKPacket_set_status_def TxACKPacket_set_feedback_def
    TxACKPacket_put_header_def

text \<open>A message as the setters build it: known has-bits only, defaults where a bit is off, strings of a
  length the format can carry, no unknown fields, no cached sizes yet.\<close>

definition TxACKPacket_built :: "'u txACKPacket \<Rightarrow> bool" where
  "TxACKPacket_built m \<longleftrightarrow>
     (\<forall>n. bit (txa_bits m) n \<longrightarrow> n < 3) \<and>
     (TxACKPacket_has_header m \<longrightarrow> (\<exists>h. txa_header m = Some h \<and> Header_built h \<and>
         Header_IsInitialized h)) \<and>
     (\<not> TxACKPacket_has_header m \<longrightarrow> txa_header m = None) \<and>
     (\<not> TxACKPacket_has_status m \<longrightarrow> txa_status m = 0) \<and>
     length (txa_feedback m) < 2 ^ 31 \<and>
     (\<not> TxACKPacket_has_feedback m \<longrightarrow> txa_feedback m = []) \<and>
     txa_unknown m = None \<and>
     txa_cached m = 0"

lemma TxACKPacket_has_iffs:
  "TxACKPacket_has_header m \<longleftrightarrow> bit (txa_bits m) 0" "TxACKPacket_has_status m
      \<longleftrightarrow> bit (txa_bits m) 1" "TxACKPacket_has_feedback m \<longleftrightarrow> bit (txa_bits m) 2"
  by (simp_all add: TxACKPacket_has_defs byte_simps)

lemma TxACKPacket_initialized_iff:
  "TxACKPacket_IsInitialized m \<longleftrightarrow> bit (txa_bits m) 0 \<and> bit (txa_bits m) 1 \<and> bit
      (txa_bits m) 2 \<and>
     header_initialized (txa_header m)"
  by (auto simp: TxACKPacket_IsInitialized_def byte_simps TxACKPacket_has_defs)

lemma TxACKPacket_swap: "TxACKPacket_InternalSwap m other = (other, m)"
  by (cases m; cases other) (simp add: TxACKPacket_InternalSwap_def)

lemma TxACKPacket_clear_built:
  "TxACKPacket_built m \<Longrightarrow> TxACKPacket_Clear W m = TxACKPacket_new\<lparr>txa_header := map_option
      (\<lambda>h. Header_new) (txa_header m)\<rparr>"
  by (cases m) (auto simp: TxACKPacket_Clear_def TxACKPacket_new_def TxACKPacket_built_def TxACKPacket_has_iffs
      Header_clear_built byte_simps Let_def
    split: option.splits)

lemma TxACKPacket_serialize_agree:
  "TxACKPacket_SerializeWithCachedSizes W m out = out @ TxACKPacket_SerializeWithCachedSizesToArray W m"
  by (simp only: TxACKPacket_SerializeWithCachedSizes_def TxACKPacket_SerializeWithCachedSizesToArray_def append_if
      foldl_write
      append_assoc Let_def)

context wire_laws begin

lemma TxACKPacket_top: "top_is (TxACKPacket_step W rs) [(1, 10), (2, 16), (3, 26)]"
  unfolding top_is_def
  by (intro exI [of _ txa_unknown] exI [of _ "\<lambda>u m. m\<lparr>txa_unknown := Some u\<rparr>"] allI) (simp
      add: TxACKPacket_step_def)

lemma TxACKPacket_run_status:
  "merge_run (TxACKPacket_step W rs) Top \<lparr>avail = WriteInt32 W 2 v @ rest, depth = d\<rparr> m =
   merge_run (TxACKPacket_step W rs) Top \<lparr>avail = rest, depth = d\<rparr> (TxACKPacket_set_has_status
       (m\<lparr>txa_status := v\<rparr>))"
  by (rule run_prim [OF TxACKPacket_top, where n = 2 and f = "NextTag 26 (Parse 3)" and rdr = "ReadInt32 W"
        and put = "\<lambda>v m. m\<lparr>txa_status := v\<rparr>" and set_has = TxACKPacket_set_has_status, OF _ _
            _ int32])
    (simp_all add: follow_ok_def GetTagFieldNumber_def TxACKPacket_step_def)

lemma TxACKPacket_run_feedback: "length v < 2 ^ 31 \<Longrightarrow>
   merge_run (TxACKPacket_step W rs) Top \<lparr>avail = WriteString W 3 v @ rest, depth = d\<rparr> m =
   merge_run (TxACKPacket_step W rs) Top \<lparr>avail = rest, depth = d\<rparr> ((TxACKPacket_set_has_feedback
       m)\<lparr>txa_feedback := v\<rparr>)"
  by (rule run_str [OF TxACKPacket_top, where n = 3 and f = "AtEnd" and rdr = "ReadString W" and get = txa_feedback
        and put = "\<lambda>v m. m\<lparr>txa_feedback := v\<rparr>" and set_has = TxACKPacket_set_has_feedback, OF
            _ _ _ str])
    (simp_all add: follow_ok_def GetTagFieldNumber_def TxACKPacket_step_def)

lemmas TxACKPacket_runs = TxACKPacket_run_status TxACKPacket_run_feedback
  TxACKPacket_run_feedback [where rest = "[]", unfolded append_Nil2]

lemma TxACKPacket_run_end: "merge_run (TxACKPacket_step W rs) Top \<lparr>avail = [], depth = d\<rparr> m = Some
    (True, \<lparr>avail = [], depth = d\<rparr>, m)"
  by (rule run_end) (simp add: TxACKPacket_step_def)


lemma TxACKPacket_run_header:
  assumes "reads_message W (read_header rs)" and "reads_message W (read_entry rs)" and "good_header W h" and "3
      \<le> d"
    and "txa_header m = None"
  shows "merge_run (TxACKPacket_step W rs) Top \<lparr>avail = write_header W 1 (Some (snd (Header_ByteSize W h)))
      @ rest, depth = d\<rparr> m =
    merge_run (TxACKPacket_step W rs) Top \<lparr>avail = rest, depth = d\<rparr> (TxACKPacket_put_header h m)"
  unfolding write_header_eq [OF assms(3)]
proof (rule run_sub [OF TxACKPacket_top, where f = "NextTag 16 (Parse 2)" and rm = "read_header rs"
      and merge = "Header_MergePartialFromCodedStream W (read_entry rs)" and mutable = TxACKPacket_mutable_header
      and put = TxACKPacket_put_header])
  let ?bs = "Header_SerializeWithCachedSizesToArray W (snd (Header_ByteSize W h))"
  show "length ?bs < 2 ^ 31"
    using assms(3) Header_size [of h] by (simp add: good_header_def)
  show "Header_MergePartialFromCodedStream W (read_entry rs) \<lparr>avail = ?bs, depth = d'\<rparr>
      (TxACKPacket_mutable_header m) =
      Some (True, \<lparr>avail = [], depth = d'\<rparr>, h)" if "d' \<ge> d - 1" for d'
    using Header_roundtrip [OF assms(2), of h d'] assms(3-5) that
    by (simp add: good_header_def TxACKPacket_mutable_header_def)
qed (use assms in \<open>simp_all add: follow_ok_def GetTagFieldNumber_def TxACKPacket_step_def\<close>)

lemma TxACKPacket_returns:
  assumes "returns_message (read_header rs)" and "returns_message (read_entry rs)"
  shows "TxACKPacket_MergePartialFromCodedStream W rs inp m \<noteq> None"
  unfolding TxACKPacket_MergePartialFromCodedStream_def
proof (rule run_returns)
  note sub = read_sub_rank [OF _ _ assms(1) Header_returns [OF assms(2)]]
  show "parse_rank p' inp' < parse_rank p inp" if "TxACKPacket_step W rs p inp m = Goto p' inp' m'" for p inp m p'
      inp' m'
  proof (cases p)
    case Top
    with that show ?thesis by (auto simp: TxACKPacket_step_def dest!: switch_rank)
  next
    case (Parse n)
    with that show ?thesis
      by (auto simp: TxACKPacket_step_def follow_pos_def split: if_splits dest!: sub prim_ranks str_ranks)
  next
    case (ParseLoop n)
    with that show ?thesis by (simp add: TxACKPacket_step_def)
  qed
  show "TxACKPacket_step W rs p inp m \<noteq> Diverges" for p inp m
    by (simp add: TxACKPacket_step_def no_Diverges read_sub_no_Diverges [OF assms(1) Header_returns [OF assms(2)]]
        split: pc.split)
qed

lemma TxACKPacket_size:
  assumes "length (txa_feedback m) < 2 ^ 31"
    and "TxACKPacket_has_header m \<Longrightarrow> \<exists>h. txa_header m = Some h \<and> good_header W h"
  shows "fst (TxACKPacket_ByteSize W m) = int (length (TxACKPacket_SerializeWithCachedSizesToArray W (snd
      (TxACKPacket_ByteSize W m))))"
proof (cases "TxACKPacket_has_header m")
  case True
  with assms obtain h where h: "txa_header m = Some h" "good_header W h" by blast
  show ?thesis
    using True h(1) assms write_header_length [OF h(2), of 1]
    by (simp add: TxACKPacket_ByteSize_def TxACKPacket_RequiredFieldsByteSizeFallback_def
        TxACKPacket_SerializeWithCachedSizesToArray_def
        TxACKPacket_has_iffs byte_simps len_int32 len_str len_bytes len_unknown_bytes Let_def del: One_nat_def)
next
  case False
  then show ?thesis
    using assms
    by (simp add: TxACKPacket_ByteSize_def TxACKPacket_RequiredFieldsByteSizeFallback_def
        TxACKPacket_SerializeWithCachedSizesToArray_def
        TxACKPacket_has_iffs byte_simps len_int32 len_str len_bytes len_unknown_bytes Let_def)
qed

lemma TxACKPacket_roundtrip:
  assumes rs: "reads_message W (read_header rs)" "reads_message W (read_entry rs)"
    and m: "TxACKPacket_built m" "TxACKPacket_IsInitialized m" and h: "txa_header m = Some h" "good_header W h" and
        d: "3 \<le> d"
  shows "TxACKPacket_MergePartialFromCodedStream W rs
      \<lparr>avail = TxACKPacket_SerializeWithCachedSizesToArray W (snd (TxACKPacket_ByteSize W m)), depth =
          d\<rparr> TxACKPacket_new =
    Some (True, \<lparr>avail = [], depth = d\<rparr>, m)"
proof -
  have b: "bit (txa_bits m) 0" "bit (txa_bits m) 1" "bit (txa_bits m) 2"
    using m(2) by (simp_all add: TxACKPacket_initialized_iff)
  have k: "\<forall>n. bit (txa_bits m) n \<longrightarrow> n < 3" using m(1) by (simp add: TxACKPacket_built_def)
  have w: "txa_bits m = flags (bit (txa_bits m))" by (rule known_bits [OF k]) simp
  have v: "txa_bits m = 7" by (subst w) (use no_flag_above [OF k] b in \<open>simp add: flags_def\<close>)
  note run_h = TxACKPacket_run_header [OF rs h(2) d]
  show ?thesis
    using m(1) h(1) b v run_h
    by (cases m) (simp add: TxACKPacket_MergePartialFromCodedStream_def
        TxACKPacket_SerializeWithCachedSizesToArray_def
        TxACKPacket_ByteSize_def TxACKPacket_has_iffs TxACKPacket_runs TxACKPacket_run_end TxACKPacket_built_def
            TxACKPacket_new_def TxACKPacket_set_defs Let_def
        del: One_nat_def)
qed

lemma TxACKPacket_copy:
  assumes "TxACKPacket_built frm" and "TxACKPacket_IsInitialized frm" and "TxACKPacket_built m"
  shows "TxACKPacket_CopyFrom W frm m = frm"
proof -
  have b: "bit (txa_bits frm) 0" "bit (txa_bits frm) 1" "bit (txa_bits frm) 2"
    using assms(2) by (simp_all add: TxACKPacket_initialized_iff)
  have k: "\<forall>n. bit (txa_bits frm) n \<longrightarrow> n < 3" using assms(1) by (simp add:
      TxACKPacket_built_def)
  have w: "txa_bits frm = flags (bit (txa_bits frm))" by (rule known_bits [OF k]) simp
  have v: "txa_bits frm = 7" by (subst w) (use no_flag_above [OF k] b in \<open>simp add: flags_def\<close>)
  obtain h where h: "txa_header frm = Some h" "Header_built h" "Header_IsInitialized h"
    using assms(1) b(1) by (auto simp: TxACKPacket_built_def TxACKPacket_has_iffs)
  have mh: "TxACKPacket_mutable_header (TxACKPacket_Clear W m) = Header_new"
    by (simp add: TxACKPacket_clear_built [OF assms(3)] TxACKPacket_mutable_header_def split: option.split)
  show ?thesis
    using assms(1) h(1) b v Header_merge_new [OF h(2,3)] mh
    unfolding TxACKPacket_CopyFrom_def TxACKPacket_clear_built [OF assms(3)]
    by (cases frm) (simp add: TxACKPacket_MergeFrom_def TxACKPacket_has_iffs TxACKPacket_built_def
        TxACKPacket_new_def TxACKPacket_set_defs TxACKPacket_header_def
        byte_simps Let_def)
qed

end

end
