(* ===== verification/PbBytesMessage.thy ===== *)
theory PbBytesMessage
  imports PbHeader
begin

text \<open>
  The class \<^verbatim>\<open>BytesMessage\<close> of \<^verbatim>\<open>kite_remoting.pb.h\<close> and
  \<^verbatim>\<open>kite_remoting.pb.cc\<close>: a queue message whose body is bytes. The record holds the has-bits,
  the fields, the unknown fields and the cached size; each method is one definition. The lemmas in
  \<open>wire_laws\<close> show that a message built by its setters is sized exactly, parsed back from its own bytes,
  and copied, and that parsing always returns.
\<close>

section \<open>BytesMessage\<close>

record 'u bytesMessage =
  bym_bits :: int32
  bym_header :: "'u msgHeader option"
  bym_body :: "byte list"
  bym_unknown :: "'u option"
  bym_cached :: int

definition BytesMessage_new :: "'u bytesMessage" where
  "BytesMessage_new = \<lparr>bym_bits = 0, bym_header = None, bym_body = [],
     bym_unknown = None, bym_cached = 0\<rparr>"

definition BytesMessage_has_header :: "'u bytesMessage \<Rightarrow> bool" where
  "BytesMessage_has_header m \<longleftrightarrow> bym_bits m AND 1 \<noteq> 0"

definition BytesMessage_set_has_header :: "'u bytesMessage \<Rightarrow> 'u bytesMessage" where
  "BytesMessage_set_has_header m = m\<lparr>bym_bits := bym_bits m OR 1\<rparr>"

definition BytesMessage_header :: "'u bytesMessage \<Rightarrow> 'u msgHeader" where
  "BytesMessage_header m = (case bym_header m of None \<Rightarrow> Header_new | Some h \<Rightarrow> h)"

text \<open>\<open>mutable_header\<close> sets the has-bit and creates the header if there is none.\<close>

definition BytesMessage_mutable_header :: "'u bytesMessage \<Rightarrow> 'u msgHeader" where
  "BytesMessage_mutable_header m = (case bym_header m of None \<Rightarrow> Header_new | Some h \<Rightarrow> h)"

definition BytesMessage_put_header :: "'u msgHeader \<Rightarrow> 'u bytesMessage \<Rightarrow> 'u bytesMessage" where
  "BytesMessage_put_header h m = (BytesMessage_set_has_header m)\<lparr>bym_header := Some h\<rparr>"

definition BytesMessage_has_body :: "'u bytesMessage \<Rightarrow> bool" where
  "BytesMessage_has_body m \<longleftrightarrow> bym_bits m AND 2 \<noteq> 0"

definition BytesMessage_set_has_body :: "'u bytesMessage \<Rightarrow> 'u bytesMessage" where
  "BytesMessage_set_has_body m = m\<lparr>bym_bits := bym_bits m OR 2\<rparr>"

definition BytesMessage_set_body :: "byte list \<Rightarrow> 'u bytesMessage \<Rightarrow> 'u bytesMessage" where
  "BytesMessage_set_body v m = (BytesMessage_set_has_body m)\<lparr>bym_body := v\<rparr>"

definition BytesMessage_Clear :: "'u wire \<Rightarrow> 'u bytesMessage \<Rightarrow> 'u bytesMessage" where
  "BytesMessage_Clear W m =
     (let m = (if bym_bits m AND 3 \<noteq> 0
            then (let m = (if BytesMessage_has_header m then m\<lparr>bym_header := map_option (Header_Clear W)
                (bym_header m)\<rparr> else m);
                      m = (if BytesMessage_has_body m then m\<lparr>bym_body := []\<rparr> else m)
                  in m)
            else m);
          m = m\<lparr>bym_bits := 0\<rparr>
      in m\<lparr>bym_unknown := clear_unknown W (bym_unknown m)\<rparr>)"

definition BytesMessage_step :: "'u wire \<Rightarrow> 'u readers \<Rightarrow> 'u bytesMessage parse_step" where
  "BytesMessage_step W rs p inp m =
     (case p of
        Top \<Rightarrow> switch_tag W [(1, 10), (2, 18)] bym_unknown
          (\<lambda>u m. m\<lparr>bym_unknown := Some u\<rparr>) inp m
      | Parse n \<Rightarrow>
          if n = 1 then read_sub W (read_header rs) (Header_MergePartialFromCodedStream W (read_entry rs))
            BytesMessage_mutable_header BytesMessage_put_header (NextTag 18 (Parse 2)) inp m
          else read_str W (ReadBytes W) bym_body (\<lambda>v m. m\<lparr>bym_body := v\<rparr>)
              BytesMessage_set_has_body
            AtEnd inp m
      | ParseLoop n \<Rightarrow> Ends False inp m)"

definition BytesMessage_MergePartialFromCodedStream :: "'u wire \<Rightarrow> 'u readers \<Rightarrow> 'u
    bytesMessage merger" where
  "BytesMessage_MergePartialFromCodedStream W rs inp m = merge_run (BytesMessage_step W rs) Top inp m"

definition BytesMessage_SerializeWithCachedSizes :: "'u wire \<Rightarrow> 'u bytesMessage \<Rightarrow> byte list
    \<Rightarrow> byte list" where
  "BytesMessage_SerializeWithCachedSizes W m out =
     (let out = (if BytesMessage_has_header m then out @ write_header W 1 (bym_header m) else out);
          out = (if BytesMessage_has_body m then out @ WriteBytes W 2 (bym_body m) else out)
      in out @ unknown_bytes W (bym_unknown m))"

definition BytesMessage_SerializeWithCachedSizesToArray :: "'u wire \<Rightarrow> 'u bytesMessage \<Rightarrow>
    byte list" where
  "BytesMessage_SerializeWithCachedSizesToArray W m =
     (if BytesMessage_has_header m then write_header W 1 (bym_header m) else []) @
     (if BytesMessage_has_body m then WriteBytes W 2 (bym_body m) else []) @
     unknown_bytes W (bym_unknown m)"

definition BytesMessage_RequiredFieldsByteSizeFallback :: "'u wire \<Rightarrow> 'u bytesMessage \<Rightarrow> int"
    where
  "BytesMessage_RequiredFieldsByteSizeFallback W m =
     (if BytesMessage_has_header m then (1 + LengthDelimitedSize W (header_size W (bym_header m))) else 0) +
     (if BytesMessage_has_body m then (1 + BytesSize W (bym_body m)) else 0)"

definition BytesMessage_ByteSize :: "'u wire \<Rightarrow> 'u bytesMessage \<Rightarrow> int \<times> 'u
    bytesMessage" where
  "BytesMessage_ByteSize W m =
     (let total_size = (if (bym_bits m AND 3) XOR 3 = 0
            then (1 + LengthDelimitedSize W (header_size W (bym_header m))) +
              (1 + BytesSize W (bym_body m))
            else BytesMessage_RequiredFieldsByteSizeFallback W m);
          m = (if BytesMessage_has_header m then m\<lparr>bym_header := map_option (\<lambda>h. snd
              (Header_ByteSize W h)) (bym_header m)\<rparr> else m);
          total_size = total_size + unknown_size W (bym_unknown m)
      in (total_size, m\<lparr>bym_cached := total_size\<rparr>))"

definition BytesMessage_MergeFrom :: "'u wire \<Rightarrow> 'u bytesMessage \<Rightarrow> 'u bytesMessage
    \<Rightarrow> 'u bytesMessage" where
  "BytesMessage_MergeFrom W frm m =
     (let m = (if bym_bits frm AND 255 \<noteq> 0
            then (let m = (if BytesMessage_has_header frm
                           then BytesMessage_put_header (Header_MergeFrom W (BytesMessage_header frm)
                               (BytesMessage_mutable_header m)) m else m);
                      m = (if BytesMessage_has_body frm then (BytesMessage_set_has_body m)\<lparr>bym_body :=
                          bym_body frm\<rparr> else m)
                  in m)
            else m)
      in m\<lparr>bym_unknown := merge_unknown W (bym_unknown frm) (bym_unknown m)\<rparr>)"

definition BytesMessage_CopyFrom :: "'u wire \<Rightarrow> 'u bytesMessage \<Rightarrow> 'u bytesMessage
    \<Rightarrow> 'u bytesMessage" where
  "BytesMessage_CopyFrom W frm m = BytesMessage_MergeFrom W frm (BytesMessage_Clear W m)"

definition BytesMessage_IsInitialized :: "'u bytesMessage \<Rightarrow> bool" where
  "BytesMessage_IsInitialized m =
     (if bym_bits m AND 3 \<noteq> 3 then False
      else if BytesMessage_has_header m \<and> \<not> header_initialized (bym_header m) then False else True)"

definition BytesMessage_InternalSwap :: "'u bytesMessage \<Rightarrow> 'u bytesMessage \<Rightarrow> 'u
    bytesMessage \<times> 'u bytesMessage" where
  "BytesMessage_InternalSwap m other =
     (m\<lparr>bym_header := bym_header other, bym_body := bym_body other, bym_bits := bym_bits other, bym_unknown
         := bym_unknown other, bym_cached := bym_cached other\<rparr>,
      other\<lparr>bym_header := bym_header m, bym_body := bym_body m, bym_bits := bym_bits m, bym_unknown :=
          bym_unknown m, bym_cached := bym_cached m\<rparr>)"

lemmas BytesMessage_has_defs = BytesMessage_has_header_def BytesMessage_has_body_def
lemmas BytesMessage_set_defs = BytesMessage_set_has_header_def BytesMessage_set_has_body_def
    BytesMessage_set_body_def BytesMessage_put_header_def

text \<open>A message as the setters build it: known has-bits only, defaults where a bit is off, strings of a
  length the format can carry, no unknown fields, no cached sizes yet.\<close>

definition BytesMessage_built :: "'u bytesMessage \<Rightarrow> bool" where
  "BytesMessage_built m \<longleftrightarrow>
     (\<forall>n. bit (bym_bits m) n \<longrightarrow> n < 2) \<and>
     (BytesMessage_has_header m \<longrightarrow> (\<exists>h. bym_header m = Some h \<and> Header_built h \<and>
         Header_IsInitialized h)) \<and>
     (\<not> BytesMessage_has_header m \<longrightarrow> bym_header m = None) \<and>
     length (bym_body m) < 2 ^ 31 \<and>
     (\<not> BytesMessage_has_body m \<longrightarrow> bym_body m = []) \<and>
     bym_unknown m = None \<and>
     bym_cached m = 0"

lemma BytesMessage_has_iffs:
  "BytesMessage_has_header m \<longleftrightarrow> bit (bym_bits m) 0" "BytesMessage_has_body m
      \<longleftrightarrow> bit (bym_bits m) 1"
  by (simp_all add: BytesMessage_has_defs byte_simps)

lemma BytesMessage_initialized_iff:
  "BytesMessage_IsInitialized m \<longleftrightarrow> bit (bym_bits m) 0 \<and> bit (bym_bits m) 1 \<and>
     header_initialized (bym_header m)"
  by (auto simp: BytesMessage_IsInitialized_def byte_simps BytesMessage_has_defs)

lemma BytesMessage_swap: "BytesMessage_InternalSwap m other = (other, m)"
  by (cases m; cases other) (simp add: BytesMessage_InternalSwap_def)

lemma BytesMessage_clear_built:
  "BytesMessage_built m \<Longrightarrow> BytesMessage_Clear W m = BytesMessage_new\<lparr>bym_header := map_option
      (\<lambda>h. Header_new) (bym_header m)\<rparr>"
  by (cases m) (auto simp: BytesMessage_Clear_def BytesMessage_new_def BytesMessage_built_def BytesMessage_has_iffs
      Header_clear_built byte_simps Let_def
    split: option.splits)

lemma BytesMessage_serialize_agree:
  "BytesMessage_SerializeWithCachedSizes W m out = out @ BytesMessage_SerializeWithCachedSizesToArray W m"
  by (simp only: BytesMessage_SerializeWithCachedSizes_def BytesMessage_SerializeWithCachedSizesToArray_def
      append_if foldl_write
      append_assoc Let_def)

context wire_laws begin

lemma BytesMessage_top: "top_is (BytesMessage_step W rs) [(1, 10), (2, 18)]"
  unfolding top_is_def
  by (intro exI [of _ bym_unknown] exI [of _ "\<lambda>u m. m\<lparr>bym_unknown := Some u\<rparr>"] allI) (simp
      add: BytesMessage_step_def)

lemma BytesMessage_run_body: "length v < 2 ^ 31 \<Longrightarrow>
   merge_run (BytesMessage_step W rs) Top \<lparr>avail = WriteBytes W 2 v @ rest, depth = d\<rparr> m =
   merge_run (BytesMessage_step W rs) Top \<lparr>avail = rest, depth = d\<rparr> ((BytesMessage_set_has_body
       m)\<lparr>bym_body := v\<rparr>)"
  by (rule run_str [OF BytesMessage_top, where n = 2 and f = "AtEnd" and rdr = "ReadBytes W" and get = bym_body
        and put = "\<lambda>v m. m\<lparr>bym_body := v\<rparr>" and set_has = BytesMessage_set_has_body, OF _ _ _
            bytes])
    (simp_all add: follow_ok_def GetTagFieldNumber_def BytesMessage_step_def)

lemmas BytesMessage_runs = BytesMessage_run_body
  BytesMessage_run_body [where rest = "[]", unfolded append_Nil2]

lemma BytesMessage_run_end: "merge_run (BytesMessage_step W rs) Top \<lparr>avail = [], depth = d\<rparr> m = Some
    (True, \<lparr>avail = [], depth = d\<rparr>, m)"
  by (rule run_end) (simp add: BytesMessage_step_def)


lemma BytesMessage_run_header:
  assumes "reads_message W (read_header rs)" and "reads_message W (read_entry rs)" and "good_header W h" and "3
      \<le> d"
    and "bym_header m = None"
  shows "merge_run (BytesMessage_step W rs) Top \<lparr>avail = write_header W 1 (Some (snd (Header_ByteSize W h)))
      @ rest, depth = d\<rparr> m =
    merge_run (BytesMessage_step W rs) Top \<lparr>avail = rest, depth = d\<rparr> (BytesMessage_put_header h m)"
  unfolding write_header_eq [OF assms(3)]
proof (rule run_sub [OF BytesMessage_top, where f = "NextTag 18 (Parse 2)" and rm = "read_header rs"
      and merge = "Header_MergePartialFromCodedStream W (read_entry rs)" and mutable = BytesMessage_mutable_header
      and put = BytesMessage_put_header])
  let ?bs = "Header_SerializeWithCachedSizesToArray W (snd (Header_ByteSize W h))"
  show "length ?bs < 2 ^ 31"
    using assms(3) Header_size [of h] by (simp add: good_header_def)
  show "Header_MergePartialFromCodedStream W (read_entry rs) \<lparr>avail = ?bs, depth = d'\<rparr>
      (BytesMessage_mutable_header m) =
      Some (True, \<lparr>avail = [], depth = d'\<rparr>, h)" if "d' \<ge> d - 1" for d'
    using Header_roundtrip [OF assms(2), of h d'] assms(3-5) that
    by (simp add: good_header_def BytesMessage_mutable_header_def)
qed (use assms in \<open>simp_all add: follow_ok_def GetTagFieldNumber_def BytesMessage_step_def\<close>)

lemma BytesMessage_returns:
  assumes "returns_message (read_header rs)" and "returns_message (read_entry rs)"
  shows "BytesMessage_MergePartialFromCodedStream W rs inp m \<noteq> None"
  unfolding BytesMessage_MergePartialFromCodedStream_def
proof (rule run_returns)
  note sub = read_sub_rank [OF _ _ assms(1) Header_returns [OF assms(2)]]
  show "parse_rank p' inp' < parse_rank p inp" if "BytesMessage_step W rs p inp m = Goto p' inp' m'" for p inp m p'
      inp' m'
  proof (cases p)
    case Top
    with that show ?thesis by (auto simp: BytesMessage_step_def dest!: switch_rank)
  next
    case (Parse n)
    with that show ?thesis
      by (auto simp: BytesMessage_step_def follow_pos_def split: if_splits dest!: sub prim_ranks str_ranks)
  next
    case (ParseLoop n)
    with that show ?thesis by (simp add: BytesMessage_step_def)
  qed
  show "BytesMessage_step W rs p inp m \<noteq> Diverges" for p inp m
    by (simp add: BytesMessage_step_def no_Diverges read_sub_no_Diverges [OF assms(1) Header_returns [OF assms(2)]]
        split: pc.split)
qed

lemma BytesMessage_size:
  assumes "length (bym_body m) < 2 ^ 31"
    and "BytesMessage_has_header m \<Longrightarrow> \<exists>h. bym_header m = Some h \<and> good_header W h"
  shows "fst (BytesMessage_ByteSize W m) = int (length (BytesMessage_SerializeWithCachedSizesToArray W (snd
      (BytesMessage_ByteSize W m))))"
proof (cases "BytesMessage_has_header m")
  case True
  with assms obtain h where h: "bym_header m = Some h" "good_header W h" by blast
  show ?thesis
    using True h(1) assms write_header_length [OF h(2), of 1]
    by (simp add: BytesMessage_ByteSize_def BytesMessage_RequiredFieldsByteSizeFallback_def
        BytesMessage_SerializeWithCachedSizesToArray_def
        BytesMessage_has_iffs byte_simps len_int32 len_str len_bytes len_unknown_bytes Let_def del: One_nat_def)
next
  case False
  then show ?thesis
    using assms
    by (simp add: BytesMessage_ByteSize_def BytesMessage_RequiredFieldsByteSizeFallback_def
        BytesMessage_SerializeWithCachedSizesToArray_def
        BytesMessage_has_iffs byte_simps len_int32 len_str len_bytes len_unknown_bytes Let_def)
qed

lemma BytesMessage_roundtrip:
  assumes rs: "reads_message W (read_header rs)" "reads_message W (read_entry rs)"
    and m: "BytesMessage_built m" "BytesMessage_IsInitialized m" and h: "bym_header m = Some h" "good_header W h"
        and d: "3 \<le> d"
  shows "BytesMessage_MergePartialFromCodedStream W rs
      \<lparr>avail = BytesMessage_SerializeWithCachedSizesToArray W (snd (BytesMessage_ByteSize W m)), depth =
          d\<rparr> BytesMessage_new =
    Some (True, \<lparr>avail = [], depth = d\<rparr>, m)"
proof -
  have b: "bit (bym_bits m) 0" "bit (bym_bits m) 1"
    using m(2) by (simp_all add: BytesMessage_initialized_iff)
  have k: "\<forall>n. bit (bym_bits m) n \<longrightarrow> n < 2" using m(1) by (simp add: BytesMessage_built_def)
  have w: "bym_bits m = flags (bit (bym_bits m))" by (rule known_bits [OF k]) simp
  have v: "bym_bits m = 3" by (subst w) (use no_flag_above [OF k] b in \<open>simp add: flags_def\<close>)
  note run_h = BytesMessage_run_header [OF rs h(2) d]
  show ?thesis
    using m(1) h(1) b v run_h
    by (cases m) (simp add: BytesMessage_MergePartialFromCodedStream_def
        BytesMessage_SerializeWithCachedSizesToArray_def
        BytesMessage_ByteSize_def BytesMessage_has_iffs BytesMessage_runs BytesMessage_run_end
            BytesMessage_built_def BytesMessage_new_def BytesMessage_set_defs Let_def
        del: One_nat_def)
qed

lemma BytesMessage_copy:
  assumes "BytesMessage_built frm" and "BytesMessage_IsInitialized frm" and "BytesMessage_built m"
  shows "BytesMessage_CopyFrom W frm m = frm"
proof -
  have b: "bit (bym_bits frm) 0" "bit (bym_bits frm) 1"
    using assms(2) by (simp_all add: BytesMessage_initialized_iff)
  have k: "\<forall>n. bit (bym_bits frm) n \<longrightarrow> n < 2" using assms(1) by (simp add:
      BytesMessage_built_def)
  have w: "bym_bits frm = flags (bit (bym_bits frm))" by (rule known_bits [OF k]) simp
  have v: "bym_bits frm = 3" by (subst w) (use no_flag_above [OF k] b in \<open>simp add: flags_def\<close>)
  obtain h where h: "bym_header frm = Some h" "Header_built h" "Header_IsInitialized h"
    using assms(1) b(1) by (auto simp: BytesMessage_built_def BytesMessage_has_iffs)
  have mh: "BytesMessage_mutable_header (BytesMessage_Clear W m) = Header_new"
    by (simp add: BytesMessage_clear_built [OF assms(3)] BytesMessage_mutable_header_def split: option.split)
  show ?thesis
    using assms(1) h(1) b v Header_merge_new [OF h(2,3)] mh
    unfolding BytesMessage_CopyFrom_def BytesMessage_clear_built [OF assms(3)]
    by (cases frm) (simp add: BytesMessage_MergeFrom_def BytesMessage_has_iffs BytesMessage_built_def
        BytesMessage_new_def BytesMessage_set_defs BytesMessage_header_def
        byte_simps Let_def)
qed

end

end
