(* ===== verification/PbStringMessage.thy ===== *)
theory PbStringMessage
  imports PbHeader
begin

text \<open>
  The class \<^verbatim>\<open>StringMessage\<close> of \<^verbatim>\<open>kite_remoting.pb.h\<close> and
  \<^verbatim>\<open>kite_remoting.pb.cc\<close>: a queue message whose body is a string. The record holds the has-bits,
  the fields, the unknown fields and the cached size; each method is one definition. The lemmas in
  \<open>wire_laws\<close> show that a message built by its setters is sized exactly, parsed back from its own bytes,
  and copied, and that parsing always returns.
\<close>

section \<open>StringMessage\<close>

record 'u stringMessage =
  stm_bits :: int32
  stm_header :: "'u msgHeader option"
  stm_body :: "byte list"
  stm_unknown :: "'u option"
  stm_cached :: int

definition StringMessage_new :: "'u stringMessage" where
  "StringMessage_new = \<lparr>stm_bits = 0, stm_header = None, stm_body = [],
     stm_unknown = None, stm_cached = 0\<rparr>"

definition StringMessage_has_header :: "'u stringMessage \<Rightarrow> bool" where
  "StringMessage_has_header m \<longleftrightarrow> stm_bits m AND 1 \<noteq> 0"

definition StringMessage_set_has_header :: "'u stringMessage \<Rightarrow> 'u stringMessage" where
  "StringMessage_set_has_header m = m\<lparr>stm_bits := stm_bits m OR 1\<rparr>"

definition StringMessage_header :: "'u stringMessage \<Rightarrow> 'u msgHeader" where
  "StringMessage_header m = (case stm_header m of None \<Rightarrow> Header_new | Some h \<Rightarrow> h)"

text \<open>\<open>mutable_header\<close> sets the has-bit and creates the header if there is none.\<close>

definition StringMessage_mutable_header :: "'u stringMessage \<Rightarrow> 'u msgHeader" where
  "StringMessage_mutable_header m = (case stm_header m of None \<Rightarrow> Header_new | Some h \<Rightarrow> h)"

definition StringMessage_put_header :: "'u msgHeader \<Rightarrow> 'u stringMessage \<Rightarrow> 'u stringMessage"
    where
  "StringMessage_put_header h m = (StringMessage_set_has_header m)\<lparr>stm_header := Some h\<rparr>"

definition StringMessage_has_body :: "'u stringMessage \<Rightarrow> bool" where
  "StringMessage_has_body m \<longleftrightarrow> stm_bits m AND 2 \<noteq> 0"

definition StringMessage_set_has_body :: "'u stringMessage \<Rightarrow> 'u stringMessage" where
  "StringMessage_set_has_body m = m\<lparr>stm_bits := stm_bits m OR 2\<rparr>"

definition StringMessage_set_body :: "byte list \<Rightarrow> 'u stringMessage \<Rightarrow> 'u stringMessage" where
  "StringMessage_set_body v m = (StringMessage_set_has_body m)\<lparr>stm_body := v\<rparr>"

definition StringMessage_Clear :: "'u wire \<Rightarrow> 'u stringMessage \<Rightarrow> 'u stringMessage" where
  "StringMessage_Clear W m =
     (let m = (if stm_bits m AND 3 \<noteq> 0
            then (let m = (if StringMessage_has_header m then m\<lparr>stm_header := map_option (Header_Clear W)
                (stm_header m)\<rparr> else m);
                      m = (if StringMessage_has_body m then m\<lparr>stm_body := []\<rparr> else m)
                  in m)
            else m);
          m = m\<lparr>stm_bits := 0\<rparr>
      in m\<lparr>stm_unknown := clear_unknown W (stm_unknown m)\<rparr>)"

definition StringMessage_step :: "'u wire \<Rightarrow> 'u readers \<Rightarrow> 'u stringMessage parse_step" where
  "StringMessage_step W rs p inp m =
     (case p of
        Top \<Rightarrow> switch_tag W [(1, 10), (2, 18)] stm_unknown
          (\<lambda>u m. m\<lparr>stm_unknown := Some u\<rparr>) inp m
      | Parse n \<Rightarrow>
          if n = 1 then read_sub W (read_header rs) (Header_MergePartialFromCodedStream W (read_entry rs))
            StringMessage_mutable_header StringMessage_put_header (NextTag 18 (Parse 2)) inp m
          else read_str W (ReadString W) stm_body (\<lambda>v m. m\<lparr>stm_body := v\<rparr>)
              StringMessage_set_has_body
            AtEnd inp m
      | ParseLoop n \<Rightarrow> Ends False inp m)"

definition StringMessage_MergePartialFromCodedStream :: "'u wire \<Rightarrow> 'u readers \<Rightarrow> 'u
    stringMessage merger" where
  "StringMessage_MergePartialFromCodedStream W rs inp m = merge_run (StringMessage_step W rs) Top inp m"

definition StringMessage_SerializeWithCachedSizes :: "'u wire \<Rightarrow> 'u stringMessage \<Rightarrow> byte
    list \<Rightarrow> byte list" where
  "StringMessage_SerializeWithCachedSizes W m out =
     (let out = (if StringMessage_has_header m then out @ write_header W 1 (stm_header m) else out);
          out = (if StringMessage_has_body m then out @ WriteString W 2 (stm_body m) else out)
      in out @ unknown_bytes W (stm_unknown m))"

definition StringMessage_SerializeWithCachedSizesToArray :: "'u wire \<Rightarrow> 'u stringMessage \<Rightarrow>
    byte list" where
  "StringMessage_SerializeWithCachedSizesToArray W m =
     (if StringMessage_has_header m then write_header W 1 (stm_header m) else []) @
     (if StringMessage_has_body m then WriteString W 2 (stm_body m) else []) @
     unknown_bytes W (stm_unknown m)"

definition StringMessage_RequiredFieldsByteSizeFallback :: "'u wire \<Rightarrow> 'u stringMessage \<Rightarrow>
    int" where
  "StringMessage_RequiredFieldsByteSizeFallback W m =
     (if StringMessage_has_header m then (1 + LengthDelimitedSize W (header_size W (stm_header m))) else 0) +
     (if StringMessage_has_body m then (1 + StringSize W (stm_body m)) else 0)"

definition StringMessage_ByteSize :: "'u wire \<Rightarrow> 'u stringMessage \<Rightarrow> int \<times> 'u
    stringMessage" where
  "StringMessage_ByteSize W m =
     (let total_size = (if (stm_bits m AND 3) XOR 3 = 0
            then (1 + LengthDelimitedSize W (header_size W (stm_header m))) +
              (1 + StringSize W (stm_body m))
            else StringMessage_RequiredFieldsByteSizeFallback W m);
          m = (if StringMessage_has_header m then m\<lparr>stm_header := map_option (\<lambda>h. snd
              (Header_ByteSize W h)) (stm_header m)\<rparr> else m);
          total_size = total_size + unknown_size W (stm_unknown m)
      in (total_size, m\<lparr>stm_cached := total_size\<rparr>))"

definition StringMessage_MergeFrom :: "'u wire \<Rightarrow> 'u stringMessage \<Rightarrow> 'u stringMessage
    \<Rightarrow> 'u stringMessage" where
  "StringMessage_MergeFrom W frm m =
     (let m = (if stm_bits frm AND 255 \<noteq> 0
            then (let m = (if StringMessage_has_header frm
                           then StringMessage_put_header (Header_MergeFrom W (StringMessage_header frm)
                               (StringMessage_mutable_header m)) m else m);
                      m = (if StringMessage_has_body frm then (StringMessage_set_has_body m)\<lparr>stm_body :=
                          stm_body frm\<rparr> else m)
                  in m)
            else m)
      in m\<lparr>stm_unknown := merge_unknown W (stm_unknown frm) (stm_unknown m)\<rparr>)"

definition StringMessage_CopyFrom :: "'u wire \<Rightarrow> 'u stringMessage \<Rightarrow> 'u stringMessage
    \<Rightarrow> 'u stringMessage" where
  "StringMessage_CopyFrom W frm m = StringMessage_MergeFrom W frm (StringMessage_Clear W m)"

definition StringMessage_IsInitialized :: "'u stringMessage \<Rightarrow> bool" where
  "StringMessage_IsInitialized m =
     (if stm_bits m AND 3 \<noteq> 3 then False
      else if StringMessage_has_header m \<and> \<not> header_initialized (stm_header m) then False else True)"

definition StringMessage_InternalSwap :: "'u stringMessage \<Rightarrow> 'u stringMessage \<Rightarrow> 'u
    stringMessage \<times> 'u stringMessage" where
  "StringMessage_InternalSwap m other =
     (m\<lparr>stm_header := stm_header other, stm_body := stm_body other, stm_bits := stm_bits other, stm_unknown
         := stm_unknown other, stm_cached := stm_cached other\<rparr>,
      other\<lparr>stm_header := stm_header m, stm_body := stm_body m, stm_bits := stm_bits m, stm_unknown :=
          stm_unknown m, stm_cached := stm_cached m\<rparr>)"

lemmas StringMessage_has_defs = StringMessage_has_header_def StringMessage_has_body_def
lemmas StringMessage_set_defs = StringMessage_set_has_header_def StringMessage_set_has_body_def
    StringMessage_set_body_def StringMessage_put_header_def

text \<open>A message as the setters build it: known has-bits only, defaults where a bit is off, strings of a
  length the format can carry, no unknown fields, no cached sizes yet.\<close>

definition StringMessage_built :: "'u stringMessage \<Rightarrow> bool" where
  "StringMessage_built m \<longleftrightarrow>
     (\<forall>n. bit (stm_bits m) n \<longrightarrow> n < 2) \<and>
     (StringMessage_has_header m \<longrightarrow> (\<exists>h. stm_header m = Some h \<and> Header_built h \<and>
         Header_IsInitialized h)) \<and>
     (\<not> StringMessage_has_header m \<longrightarrow> stm_header m = None) \<and>
     length (stm_body m) < 2 ^ 31 \<and>
     (\<not> StringMessage_has_body m \<longrightarrow> stm_body m = []) \<and>
     stm_unknown m = None \<and>
     stm_cached m = 0"

lemma StringMessage_has_iffs:
  "StringMessage_has_header m \<longleftrightarrow> bit (stm_bits m) 0" "StringMessage_has_body m
      \<longleftrightarrow> bit (stm_bits m) 1"
  by (simp_all add: StringMessage_has_defs byte_simps)

lemma StringMessage_initialized_iff:
  "StringMessage_IsInitialized m \<longleftrightarrow> bit (stm_bits m) 0 \<and> bit (stm_bits m) 1 \<and>
     header_initialized (stm_header m)"
  by (auto simp: StringMessage_IsInitialized_def byte_simps StringMessage_has_defs)

lemma StringMessage_swap: "StringMessage_InternalSwap m other = (other, m)"
  by (cases m; cases other) (simp add: StringMessage_InternalSwap_def)

lemma StringMessage_clear_built:
  "StringMessage_built m \<Longrightarrow> StringMessage_Clear W m = StringMessage_new\<lparr>stm_header :=
      map_option (\<lambda>h. Header_new) (stm_header m)\<rparr>"
  by (cases m) (auto simp: StringMessage_Clear_def StringMessage_new_def StringMessage_built_def
      StringMessage_has_iffs Header_clear_built byte_simps Let_def
    split: option.splits)

lemma StringMessage_serialize_agree:
  "StringMessage_SerializeWithCachedSizes W m out = out @ StringMessage_SerializeWithCachedSizesToArray W m"
  by (simp only: StringMessage_SerializeWithCachedSizes_def StringMessage_SerializeWithCachedSizesToArray_def
      append_if foldl_write
      append_assoc Let_def)

context wire_laws begin

lemma StringMessage_top: "top_is (StringMessage_step W rs) [(1, 10), (2, 18)]"
  unfolding top_is_def
  by (intro exI [of _ stm_unknown] exI [of _ "\<lambda>u m. m\<lparr>stm_unknown := Some u\<rparr>"] allI) (simp
      add: StringMessage_step_def)

lemma StringMessage_run_body: "length v < 2 ^ 31 \<Longrightarrow>
   merge_run (StringMessage_step W rs) Top \<lparr>avail = WriteString W 2 v @ rest, depth = d\<rparr> m =
   merge_run (StringMessage_step W rs) Top \<lparr>avail = rest, depth = d\<rparr> ((StringMessage_set_has_body
       m)\<lparr>stm_body := v\<rparr>)"
  by (rule run_str [OF StringMessage_top, where n = 2 and f = "AtEnd" and rdr = "ReadString W" and get = stm_body
        and put = "\<lambda>v m. m\<lparr>stm_body := v\<rparr>" and set_has = StringMessage_set_has_body, OF _ _ _
            str])
    (simp_all add: follow_ok_def GetTagFieldNumber_def StringMessage_step_def)

lemmas StringMessage_runs = StringMessage_run_body
  StringMessage_run_body [where rest = "[]", unfolded append_Nil2]

lemma StringMessage_run_end: "merge_run (StringMessage_step W rs) Top \<lparr>avail = [], depth = d\<rparr> m =
    Some (True, \<lparr>avail = [], depth = d\<rparr>, m)"
  by (rule run_end) (simp add: StringMessage_step_def)


lemma StringMessage_run_header:
  assumes "reads_message W (read_header rs)" and "reads_message W (read_entry rs)" and "good_header W h" and "3
      \<le> d"
    and "stm_header m = None"
  shows "merge_run (StringMessage_step W rs) Top \<lparr>avail = write_header W 1 (Some (snd (Header_ByteSize W
      h))) @ rest, depth = d\<rparr> m =
    merge_run (StringMessage_step W rs) Top \<lparr>avail = rest, depth = d\<rparr> (StringMessage_put_header h m)"
  unfolding write_header_eq [OF assms(3)]
proof (rule run_sub [OF StringMessage_top, where f = "NextTag 18 (Parse 2)" and rm = "read_header rs"
      and merge = "Header_MergePartialFromCodedStream W (read_entry rs)" and mutable = StringMessage_mutable_header
      and put = StringMessage_put_header])
  let ?bs = "Header_SerializeWithCachedSizesToArray W (snd (Header_ByteSize W h))"
  show "length ?bs < 2 ^ 31"
    using assms(3) Header_size [of h] by (simp add: good_header_def)
  show "Header_MergePartialFromCodedStream W (read_entry rs) \<lparr>avail = ?bs, depth = d'\<rparr>
      (StringMessage_mutable_header m) =
      Some (True, \<lparr>avail = [], depth = d'\<rparr>, h)" if "d' \<ge> d - 1" for d'
    using Header_roundtrip [OF assms(2), of h d'] assms(3-5) that
    by (simp add: good_header_def StringMessage_mutable_header_def)
qed (use assms in \<open>simp_all add: follow_ok_def GetTagFieldNumber_def StringMessage_step_def\<close>)

lemma StringMessage_returns:
  assumes "returns_message (read_header rs)" and "returns_message (read_entry rs)"
  shows "StringMessage_MergePartialFromCodedStream W rs inp m \<noteq> None"
  unfolding StringMessage_MergePartialFromCodedStream_def
proof (rule run_returns)
  note sub = read_sub_rank [OF _ _ assms(1) Header_returns [OF assms(2)]]
  show "parse_rank p' inp' < parse_rank p inp" if "StringMessage_step W rs p inp m = Goto p' inp' m'" for p inp m
      p' inp' m'
  proof (cases p)
    case Top
    with that show ?thesis by (auto simp: StringMessage_step_def dest!: switch_rank)
  next
    case (Parse n)
    with that show ?thesis
      by (auto simp: StringMessage_step_def follow_pos_def split: if_splits dest!: sub prim_ranks str_ranks)
  next
    case (ParseLoop n)
    with that show ?thesis by (simp add: StringMessage_step_def)
  qed
  show "StringMessage_step W rs p inp m \<noteq> Diverges" for p inp m
    by (simp add: StringMessage_step_def no_Diverges read_sub_no_Diverges [OF assms(1) Header_returns [OF assms(2)]]
        split: pc.split)
qed

lemma StringMessage_size:
  assumes "length (stm_body m) < 2 ^ 31"
    and "StringMessage_has_header m \<Longrightarrow> \<exists>h. stm_header m = Some h \<and> good_header W h"
  shows "fst (StringMessage_ByteSize W m) = int (length (StringMessage_SerializeWithCachedSizesToArray W (snd
      (StringMessage_ByteSize W m))))"
proof (cases "StringMessage_has_header m")
  case True
  with assms obtain h where h: "stm_header m = Some h" "good_header W h" by blast
  show ?thesis
    using True h(1) assms write_header_length [OF h(2), of 1]
    by (simp add: StringMessage_ByteSize_def StringMessage_RequiredFieldsByteSizeFallback_def
        StringMessage_SerializeWithCachedSizesToArray_def
        StringMessage_has_iffs byte_simps len_int32 len_str len_bytes len_unknown_bytes Let_def del: One_nat_def)
next
  case False
  then show ?thesis
    using assms
    by (simp add: StringMessage_ByteSize_def StringMessage_RequiredFieldsByteSizeFallback_def
        StringMessage_SerializeWithCachedSizesToArray_def
        StringMessage_has_iffs byte_simps len_int32 len_str len_bytes len_unknown_bytes Let_def)
qed

lemma StringMessage_roundtrip:
  assumes rs: "reads_message W (read_header rs)" "reads_message W (read_entry rs)"
    and m: "StringMessage_built m" "StringMessage_IsInitialized m" and h: "stm_header m = Some h" "good_header W h"
        and d: "3 \<le> d"
  shows "StringMessage_MergePartialFromCodedStream W rs
      \<lparr>avail = StringMessage_SerializeWithCachedSizesToArray W (snd (StringMessage_ByteSize W m)), depth =
          d\<rparr> StringMessage_new =
    Some (True, \<lparr>avail = [], depth = d\<rparr>, m)"
proof -
  have b: "bit (stm_bits m) 0" "bit (stm_bits m) 1"
    using m(2) by (simp_all add: StringMessage_initialized_iff)
  have k: "\<forall>n. bit (stm_bits m) n \<longrightarrow> n < 2" using m(1) by (simp add: StringMessage_built_def)
  have w: "stm_bits m = flags (bit (stm_bits m))" by (rule known_bits [OF k]) simp
  have v: "stm_bits m = 3" by (subst w) (use no_flag_above [OF k] b in \<open>simp add: flags_def\<close>)
  note run_h = StringMessage_run_header [OF rs h(2) d]
  show ?thesis
    using m(1) h(1) b v run_h
    by (cases m) (simp add: StringMessage_MergePartialFromCodedStream_def
        StringMessage_SerializeWithCachedSizesToArray_def
        StringMessage_ByteSize_def StringMessage_has_iffs StringMessage_runs StringMessage_run_end
            StringMessage_built_def StringMessage_new_def StringMessage_set_defs Let_def
        del: One_nat_def)
qed

lemma StringMessage_copy:
  assumes "StringMessage_built frm" and "StringMessage_IsInitialized frm" and "StringMessage_built m"
  shows "StringMessage_CopyFrom W frm m = frm"
proof -
  have b: "bit (stm_bits frm) 0" "bit (stm_bits frm) 1"
    using assms(2) by (simp_all add: StringMessage_initialized_iff)
  have k: "\<forall>n. bit (stm_bits frm) n \<longrightarrow> n < 2" using assms(1) by (simp add:
      StringMessage_built_def)
  have w: "stm_bits frm = flags (bit (stm_bits frm))" by (rule known_bits [OF k]) simp
  have v: "stm_bits frm = 3" by (subst w) (use no_flag_above [OF k] b in \<open>simp add: flags_def\<close>)
  obtain h where h: "stm_header frm = Some h" "Header_built h" "Header_IsInitialized h"
    using assms(1) b(1) by (auto simp: StringMessage_built_def StringMessage_has_iffs)
  have mh: "StringMessage_mutable_header (StringMessage_Clear W m) = Header_new"
    by (simp add: StringMessage_clear_built [OF assms(3)] StringMessage_mutable_header_def split: option.split)
  show ?thesis
    using assms(1) h(1) b v Header_merge_new [OF h(2,3)] mh
    unfolding StringMessage_CopyFrom_def StringMessage_clear_built [OF assms(3)]
    by (cases frm) (simp add: StringMessage_MergeFrom_def StringMessage_has_iffs StringMessage_built_def
        StringMessage_new_def StringMessage_set_defs StringMessage_header_def
        byte_simps Let_def)
qed

end

end
