(* ===== verification/PbMessages.thy ===== *)
theory PbMessages
  imports WireStd KitePacket PbHeartBeat PbConnMeta PbConnAuthAck PbMessageStoreAck PbDeliverAck
    PbTxACKPacket PbBytesMessage PbStringMessage
begin

text \<open>
  The generated classes together.  The client handles them through
  \<^verbatim>\<open>google::protobuf::Message\<close>, so a pointer to a message is a value of the sum
  \<open>pb_message\<close> and each virtual method is a function by cases on the dynamic class.

  \<^verbatim>\<open>SerializeToArray\<close> and \<^verbatim>\<open>ParseFromArray\<close> belong to the protocol buffer library, which is not in
  the repository: they are the record \<open>lite\<close>, and \<open>lite_ok\<close> says what their documentation
  promises in terms of the virtual methods.  \<open>gen_rt\<close> is then the runtime that the packet code
  uses, and the theory discharges the contract \<open>msg_runtime\<close> of \<open>KitePacket\<close> for it.
\<close>

section \<open>Messages of any class\<close>

datatype 'u pb_message =
    HeartBeatM "'u heartBeat" | ConnMetaM "'u connMeta" | ConnAuthAckM "'u connAuthAck"
  | MessageStoreAckM "'u messageStoreAck" | DeliverAckM "'u deliverAck" | TxACKPacketM "'u txACKPacket"
  | EntryM "'u entry" | HeaderM "'u msgHeader" | BytesMessageM "'u bytesMessage"
  | StringMessageM "'u stringMessage"

fun pb_ByteSize :: "'u wire \<Rightarrow> 'u pb_message \<Rightarrow> int \<times> 'u pb_message" where
  "pb_ByteSize W (HeartBeatM m) = apsnd HeartBeatM (HeartBeat_ByteSize W m)"
| "pb_ByteSize W (ConnMetaM m) = apsnd ConnMetaM (ConnMeta_ByteSize W m)"
| "pb_ByteSize W (ConnAuthAckM m) = apsnd ConnAuthAckM (ConnAuthAck_ByteSize W m)"
| "pb_ByteSize W (MessageStoreAckM m) = apsnd MessageStoreAckM (MessageStoreAck_ByteSize W m)"
| "pb_ByteSize W (DeliverAckM m) = apsnd DeliverAckM (DeliverAck_ByteSize W m)"
| "pb_ByteSize W (TxACKPacketM m) = apsnd TxACKPacketM (TxACKPacket_ByteSize W m)"
| "pb_ByteSize W (EntryM m) = apsnd EntryM (Entry_ByteSize W m)"
| "pb_ByteSize W (HeaderM m) = apsnd HeaderM (Header_ByteSize W m)"
| "pb_ByteSize W (BytesMessageM m) = apsnd BytesMessageM (BytesMessage_ByteSize W m)"
| "pb_ByteSize W (StringMessageM m) = apsnd StringMessageM (StringMessage_ByteSize W m)"

fun pb_SerializeWithCachedSizes :: "'u wire \<Rightarrow> 'u pb_message \<Rightarrow> byte list \<Rightarrow> byte list" where
  "pb_SerializeWithCachedSizes W (HeartBeatM m) out = HeartBeat_SerializeWithCachedSizes W m out"
| "pb_SerializeWithCachedSizes W (ConnMetaM m) out = ConnMeta_SerializeWithCachedSizes W m out"
| "pb_SerializeWithCachedSizes W (ConnAuthAckM m) out = ConnAuthAck_SerializeWithCachedSizes W m out"
| "pb_SerializeWithCachedSizes W (MessageStoreAckM m) out = MessageStoreAck_SerializeWithCachedSizes W m out"
| "pb_SerializeWithCachedSizes W (DeliverAckM m) out = DeliverAck_SerializeWithCachedSizes W m out"
| "pb_SerializeWithCachedSizes W (TxACKPacketM m) out = TxACKPacket_SerializeWithCachedSizes W m out"
| "pb_SerializeWithCachedSizes W (EntryM m) out = Entry_SerializeWithCachedSizes W m out"
| "pb_SerializeWithCachedSizes W (HeaderM m) out = Header_SerializeWithCachedSizes W m out"
| "pb_SerializeWithCachedSizes W (BytesMessageM m) out = BytesMessage_SerializeWithCachedSizes W m out"
| "pb_SerializeWithCachedSizes W (StringMessageM m) out = StringMessage_SerializeWithCachedSizes W m out"

fun pb_SerializeWithCachedSizesToArray :: "'u wire \<Rightarrow> 'u pb_message \<Rightarrow> byte list" where
  "pb_SerializeWithCachedSizesToArray W (HeartBeatM m) = HeartBeat_SerializeWithCachedSizesToArray W m"
| "pb_SerializeWithCachedSizesToArray W (ConnMetaM m) = ConnMeta_SerializeWithCachedSizesToArray W m"
| "pb_SerializeWithCachedSizesToArray W (ConnAuthAckM m) = ConnAuthAck_SerializeWithCachedSizesToArray W m"
| "pb_SerializeWithCachedSizesToArray W (MessageStoreAckM m) = MessageStoreAck_SerializeWithCachedSizesToArray W m"
| "pb_SerializeWithCachedSizesToArray W (DeliverAckM m) = DeliverAck_SerializeWithCachedSizesToArray W m"
| "pb_SerializeWithCachedSizesToArray W (TxACKPacketM m) = TxACKPacket_SerializeWithCachedSizesToArray W m"
| "pb_SerializeWithCachedSizesToArray W (EntryM m) = Entry_SerializeWithCachedSizesToArray W m"
| "pb_SerializeWithCachedSizesToArray W (HeaderM m) = Header_SerializeWithCachedSizesToArray W m"
| "pb_SerializeWithCachedSizesToArray W (BytesMessageM m) = BytesMessage_SerializeWithCachedSizesToArray W m"
| "pb_SerializeWithCachedSizesToArray W (StringMessageM m) = StringMessage_SerializeWithCachedSizesToArray W m"

text \<open>The virtual parser: the parser of the class, its message wrapped again.\<close>

definition as_class :: "('m \<Rightarrow> 'u pb_message) \<Rightarrow> (bool \<times> cis \<times> 'm) option \<Rightarrow> (bool \<times> cis \<times> 'u pb_message) option" where
  "as_class C r = map_option (\<lambda>(ok, inp, m). (ok, inp, C m)) r"

fun pb_MergePartialFromCodedStream :: "'u wire \<Rightarrow> 'u readers \<Rightarrow> 'u pb_message merger" where
  "pb_MergePartialFromCodedStream W rs inp (HeartBeatM m) = as_class HeartBeatM (HeartBeat_MergePartialFromCodedStream W inp m)"
| "pb_MergePartialFromCodedStream W rs inp (ConnMetaM m) = as_class ConnMetaM (ConnMeta_MergePartialFromCodedStream W inp m)"
| "pb_MergePartialFromCodedStream W rs inp (ConnAuthAckM m) = as_class ConnAuthAckM (ConnAuthAck_MergePartialFromCodedStream W inp m)"
| "pb_MergePartialFromCodedStream W rs inp (MessageStoreAckM m) = as_class MessageStoreAckM (MessageStoreAck_MergePartialFromCodedStream W inp m)"
| "pb_MergePartialFromCodedStream W rs inp (DeliverAckM m) = as_class DeliverAckM (DeliverAck_MergePartialFromCodedStream W inp m)"
| "pb_MergePartialFromCodedStream W rs inp (TxACKPacketM m) = as_class TxACKPacketM (TxACKPacket_MergePartialFromCodedStream W rs inp m)"
| "pb_MergePartialFromCodedStream W rs inp (EntryM m) = as_class EntryM (Entry_MergePartialFromCodedStream W inp m)"
| "pb_MergePartialFromCodedStream W rs inp (HeaderM m) = as_class HeaderM (Header_MergePartialFromCodedStream W (read_entry rs) inp m)"
| "pb_MergePartialFromCodedStream W rs inp (BytesMessageM m) = as_class BytesMessageM (BytesMessage_MergePartialFromCodedStream W rs inp m)"
| "pb_MergePartialFromCodedStream W rs inp (StringMessageM m) = as_class StringMessageM (StringMessage_MergePartialFromCodedStream W rs inp m)"

fun pb_Clear :: "'u wire \<Rightarrow> 'u pb_message \<Rightarrow> 'u pb_message" where
  "pb_Clear W (HeartBeatM m) = HeartBeatM (HeartBeat_Clear W m)"
| "pb_Clear W (ConnMetaM m) = ConnMetaM (ConnMeta_Clear W m)"
| "pb_Clear W (ConnAuthAckM m) = ConnAuthAckM (ConnAuthAck_Clear W m)"
| "pb_Clear W (MessageStoreAckM m) = MessageStoreAckM (MessageStoreAck_Clear W m)"
| "pb_Clear W (DeliverAckM m) = DeliverAckM (DeliverAck_Clear W m)"
| "pb_Clear W (TxACKPacketM m) = TxACKPacketM (TxACKPacket_Clear W m)"
| "pb_Clear W (EntryM m) = EntryM (Entry_Clear W m)"
| "pb_Clear W (HeaderM m) = HeaderM (Header_Clear W m)"
| "pb_Clear W (BytesMessageM m) = BytesMessageM (BytesMessage_Clear W m)"
| "pb_Clear W (StringMessageM m) = StringMessageM (StringMessage_Clear W m)"

fun pb_IsInitialized :: "'u pb_message \<Rightarrow> bool" where
  "pb_IsInitialized (HeartBeatM m) = HeartBeat_IsInitialized m"
| "pb_IsInitialized (ConnMetaM m) = ConnMeta_IsInitialized m"
| "pb_IsInitialized (ConnAuthAckM m) = ConnAuthAck_IsInitialized m"
| "pb_IsInitialized (MessageStoreAckM m) = MessageStoreAck_IsInitialized m"
| "pb_IsInitialized (DeliverAckM m) = DeliverAck_IsInitialized m"
| "pb_IsInitialized (TxACKPacketM m) = TxACKPacket_IsInitialized m"
| "pb_IsInitialized (EntryM m) = Entry_IsInitialized m"
| "pb_IsInitialized (HeaderM m) = Header_IsInitialized m"
| "pb_IsInitialized (BytesMessageM m) = BytesMessage_IsInitialized m"
| "pb_IsInitialized (StringMessageM m) = StringMessage_IsInitialized m"

text \<open>
  \<open>MergeFrom(const Message&)\<close> goes by the dynamic class of its argument; for another class it
  calls the library's \<open>ReflectionOps::Merge\<close>, the parameter \<open>reflop\<close>.  \<open>CopyFrom\<close> of the message
  itself does nothing; otherwise it clears and merges.
\<close>

fun pb_MergeFrom ::
  "'u wire \<Rightarrow> ('u pb_message \<Rightarrow> 'u pb_message \<Rightarrow> 'u pb_message) \<Rightarrow> 'u pb_message \<Rightarrow> 'u pb_message \<Rightarrow> 'u pb_message" where
  "pb_MergeFrom W reflop frm (HeartBeatM m) =
     (case frm of HeartBeatM frm \<Rightarrow> HeartBeatM (HeartBeat_MergeFrom W frm m) | _ \<Rightarrow> reflop frm (HeartBeatM m))"
| "pb_MergeFrom W reflop frm (ConnMetaM m) =
     (case frm of ConnMetaM frm \<Rightarrow> ConnMetaM (ConnMeta_MergeFrom W frm m) | _ \<Rightarrow> reflop frm (ConnMetaM m))"
| "pb_MergeFrom W reflop frm (ConnAuthAckM m) =
     (case frm of ConnAuthAckM frm \<Rightarrow> ConnAuthAckM (ConnAuthAck_MergeFrom W frm m) | _ \<Rightarrow> reflop frm (ConnAuthAckM m))"
| "pb_MergeFrom W reflop frm (MessageStoreAckM m) =
     (case frm of MessageStoreAckM frm \<Rightarrow> MessageStoreAckM (MessageStoreAck_MergeFrom W frm m) | _ \<Rightarrow> reflop frm (MessageStoreAckM m))"
| "pb_MergeFrom W reflop frm (DeliverAckM m) =
     (case frm of DeliverAckM frm \<Rightarrow> DeliverAckM (DeliverAck_MergeFrom W frm m) | _ \<Rightarrow> reflop frm (DeliverAckM m))"
| "pb_MergeFrom W reflop frm (TxACKPacketM m) =
     (case frm of TxACKPacketM frm \<Rightarrow> TxACKPacketM (TxACKPacket_MergeFrom W frm m) | _ \<Rightarrow> reflop frm (TxACKPacketM m))"
| "pb_MergeFrom W reflop frm (EntryM m) =
     (case frm of EntryM frm \<Rightarrow> EntryM (Entry_MergeFrom W frm m) | _ \<Rightarrow> reflop frm (EntryM m))"
| "pb_MergeFrom W reflop frm (HeaderM m) =
     (case frm of HeaderM frm \<Rightarrow> HeaderM (Header_MergeFrom W frm m) | _ \<Rightarrow> reflop frm (HeaderM m))"
| "pb_MergeFrom W reflop frm (BytesMessageM m) =
     (case frm of BytesMessageM frm \<Rightarrow> BytesMessageM (BytesMessage_MergeFrom W frm m) | _ \<Rightarrow> reflop frm (BytesMessageM m))"
| "pb_MergeFrom W reflop frm (StringMessageM m) =
     (case frm of StringMessageM frm \<Rightarrow> StringMessageM (StringMessage_MergeFrom W frm m) | _ \<Rightarrow> reflop frm (StringMessageM m))"

definition pb_CopyFrom ::
  "'u wire \<Rightarrow> ('u pb_message \<Rightarrow> 'u pb_message \<Rightarrow> 'u pb_message) \<Rightarrow> 'u pb_message \<Rightarrow> 'u pb_message \<Rightarrow> 'u pb_message" where
  "pb_CopyFrom W reflop frm m = pb_MergeFrom W reflop frm (pb_Clear W m)"

text \<open>The new message of the class \<open>parseFrom\<close> chooses.\<close>

fun pb_new :: "msg_class \<Rightarrow> 'u pb_message" where
  "pb_new ConnAuthAckC = ConnAuthAckM ConnAuthAck_new"
| "pb_new MessageStoreAckC = MessageStoreAckM MessageStoreAck_new"
| "pb_new TxACKPacketC = TxACKPacketM TxACKPacket_new"
| "pb_new BytesMessageC = BytesMessageM BytesMessage_new"
| "pb_new StringMessageC = StringMessageM StringMessage_new"
| "pb_new HeartBeatC = HeartBeatM HeartBeat_new"

text \<open>The class's name, and when a pointer to a message points to an object of a class.\<close>

fun pb_type_name :: "'u pb_message \<Rightarrow> string" where
  "pb_type_name (HeartBeatM m) = ''HeartBeat''"
| "pb_type_name (ConnMetaM m) = ''ConnMeta''"
| "pb_type_name (ConnAuthAckM m) = ''ConnAuthAck''"
| "pb_type_name (MessageStoreAckM m) = ''MessageStoreAck''"
| "pb_type_name (DeliverAckM m) = ''DeliverAck''"
| "pb_type_name (TxACKPacketM m) = ''TxACKPacket''"
| "pb_type_name (EntryM m) = ''Entry''"
| "pb_type_name (HeaderM m) = ''Header''"
| "pb_type_name (BytesMessageM m) = ''BytesMessage''"
| "pb_type_name (StringMessageM m) = ''StringMessage''"

definition same_class :: "'u pb_message \<Rightarrow> 'u pb_message \<Rightarrow> bool" where
  "same_class a b \<longleftrightarrow> pb_type_name a = pb_type_name b"

definition pb_instance :: "msg_class \<Rightarrow> 'u pb_message \<Rightarrow> bool" where
  "pb_instance k m \<longleftrightarrow> same_class m (pb_new k)"

lemma pb_instance_simps [simp]:
  "pb_instance k (HeartBeatM x0) \<longleftrightarrow> k = HeartBeatC"
  "pb_instance k (ConnMetaM x1) \<longleftrightarrow> False"
  "pb_instance k (ConnAuthAckM x2) \<longleftrightarrow> k = ConnAuthAckC"
  "pb_instance k (MessageStoreAckM x3) \<longleftrightarrow> k = MessageStoreAckC"
  "pb_instance k (DeliverAckM x4) \<longleftrightarrow> False"
  "pb_instance k (TxACKPacketM x5) \<longleftrightarrow> k = TxACKPacketC"
  "pb_instance k (EntryM x6) \<longleftrightarrow> False"
  "pb_instance k (HeaderM x7) \<longleftrightarrow> False"
  "pb_instance k (BytesMessageM x8) \<longleftrightarrow> k = BytesMessageC"
  "pb_instance k (StringMessageM x9) \<longleftrightarrow> k = StringMessageC"
  by (cases k; simp add: pb_instance_def same_class_def)+

text \<open>
  A message that can travel: built by the setters, complete, and with a header, where it has one,
  that is complete and fits.
\<close>

definition header_ok :: "'u wire \<Rightarrow> 'u msgHeader option \<Rightarrow> bool" where
  "header_ok W p = (case p of None \<Rightarrow> False | Some h \<Rightarrow> good_header W h)"

fun pb_good :: "'u wire \<Rightarrow> 'u pb_message \<Rightarrow> bool" where
  "pb_good W (HeartBeatM m) \<longleftrightarrow> HeartBeat_built m \<and> HeartBeat_IsInitialized m"
| "pb_good W (ConnMetaM m) \<longleftrightarrow> ConnMeta_built m \<and> ConnMeta_IsInitialized m"
| "pb_good W (ConnAuthAckM m) \<longleftrightarrow> ConnAuthAck_built m \<and> ConnAuthAck_IsInitialized m"
| "pb_good W (MessageStoreAckM m) \<longleftrightarrow> MessageStoreAck_built m \<and> MessageStoreAck_IsInitialized m"
| "pb_good W (DeliverAckM m) \<longleftrightarrow> DeliverAck_built m \<and> DeliverAck_IsInitialized m"
| "pb_good W (TxACKPacketM m) \<longleftrightarrow> TxACKPacket_built m \<and> TxACKPacket_IsInitialized m \<and> header_ok W (txa_header m)"
| "pb_good W (EntryM m) \<longleftrightarrow> Entry_built m \<and> Entry_IsInitialized m"
| "pb_good W (HeaderM m) \<longleftrightarrow> good_header W m"
| "pb_good W (BytesMessageM m) \<longleftrightarrow> BytesMessage_built m \<and> BytesMessage_IsInitialized m \<and> header_ok W (bym_header m)"
| "pb_good W (StringMessageM m) \<longleftrightarrow> StringMessage_built m \<and> StringMessage_IsInitialized m \<and> header_ok W (stm_header m)"

lemmas pb_clear_defs = HeartBeat_Clear_def ConnMeta_Clear_def ConnAuthAck_Clear_def MessageStoreAck_Clear_def DeliverAck_Clear_def TxACKPacket_Clear_def Entry_Clear_def Header_Clear_def BytesMessage_Clear_def StringMessage_Clear_def

lemmas pb_new_defs = HeartBeat_new_def ConnMeta_new_def ConnAuthAck_new_def MessageStoreAck_new_def DeliverAck_new_def TxACKPacket_new_def Entry_new_def Header_new_def BytesMessage_new_def StringMessage_new_def

lemma pb_Clear_new: "pb_Clear W (pb_new k) = pb_new k"
  by (cases k) (simp_all add: pb_clear_defs pb_new_defs TxACKPacket_has_defs BytesMessage_has_defs StringMessage_has_defs
      clear_unknown_def Let_def)

lemma pb_instance_new: "pb_instance k (pb_new k)"
  by (simp add: pb_instance_def same_class_def)

lemma header_ok_Some: "header_ok W p \<longleftrightarrow> (\<exists>h. p = Some h \<and> good_header W h)"
  by (simp add: header_ok_def split: option.split)

lemma pb_serialize_agree: "pb_SerializeWithCachedSizes W m out = out @ pb_SerializeWithCachedSizesToArray W m"
  by (cases m) (simp_all add: HeartBeat_serialize_agree ConnMeta_serialize_agree ConnAuthAck_serialize_agree MessageStoreAck_serialize_agree DeliverAck_serialize_agree TxACKPacket_serialize_agree Entry_serialize_agree Header_serialize_agree BytesMessage_serialize_agree StringMessage_serialize_agree)

context wire_laws begin

lemma pb_size:
  assumes "pb_good W m"
  shows "fst (pb_ByteSize W m) = int (length (pb_SerializeWithCachedSizesToArray W (snd (pb_ByteSize W m))))"
proof (cases m)
  case (HeartBeatM x)
  then show ?thesis
    using HeartBeatM by (simp add: HeartBeat_size)
next
  case (ConnMetaM x)
  then show ?thesis
    using assms ConnMetaM by (simp add: ConnMeta_built_def ConnMeta_size)
next
  case (ConnAuthAckM x)
  then show ?thesis
    using assms ConnAuthAckM by (simp add: ConnAuthAck_built_def ConnAuthAck_size)
next
  case (MessageStoreAckM x)
  then show ?thesis
    using assms MessageStoreAckM by (simp add: MessageStoreAck_built_def MessageStoreAck_size)
next
  case (DeliverAckM x)
  then show ?thesis
    using assms DeliverAckM by (simp add: DeliverAck_built_def DeliverAck_size)
next
  case (TxACKPacketM x)
  then show ?thesis
    using assms TxACKPacketM by (auto simp: header_ok_Some TxACKPacket_built_def intro!: TxACKPacket_size)
next
  case (EntryM x)
  then show ?thesis
    using assms EntryM by (simp add: Entry_built_def Entry_size)
next
  case (HeaderM x)
  then show ?thesis
    using assms HeaderM by (simp add: good_header_def Header_size)
next
  case (BytesMessageM x)
  then show ?thesis
    using assms BytesMessageM by (auto simp: header_ok_Some BytesMessage_built_def intro!: BytesMessage_size)
next
  case (StringMessageM x)
  then show ?thesis
    using assms StringMessageM by (auto simp: header_ok_Some StringMessage_built_def intro!: StringMessage_size)
qed

lemma pb_parse_bytes:
  assumes "reads_message W (read_header rs)" and "reads_message W (read_entry rs)" and "pb_good W m" and "pb_instance k m"
    and "3 \<le> d"
  shows "pb_MergePartialFromCodedStream W rs
      \<lparr>avail = pb_SerializeWithCachedSizesToArray W (snd (pb_ByteSize W m)), depth = d\<rparr> (pb_new k) =
    Some (True, \<lparr>avail = [], depth = d\<rparr>, m)"
proof (cases m)
  case (HeartBeatM x)
  then show ?thesis
    using assms HeartBeatM by (cases k) (simp_all add: as_class_def HeartBeat_roundtrip)
next
  case (ConnMetaM x)
  then show ?thesis
    using assms ConnMetaM by (cases k) simp_all
next
  case (ConnAuthAckM x)
  then show ?thesis
    using assms ConnAuthAckM by (cases k) (simp_all add: as_class_def ConnAuthAck_roundtrip)
next
  case (MessageStoreAckM x)
  then show ?thesis
    using assms MessageStoreAckM by (cases k) (simp_all add: as_class_def MessageStoreAck_roundtrip)
next
  case (DeliverAckM x)
  then show ?thesis
    using assms DeliverAckM by (cases k) simp_all
next
  case (TxACKPacketM x)
  then show ?thesis
    using assms TxACKPacketM by (cases k) (auto simp: header_ok_Some as_class_def TxACKPacket_roundtrip)
next
  case (EntryM x)
  then show ?thesis
    using assms EntryM by (cases k) simp_all
next
  case (HeaderM x)
  then show ?thesis
    using assms HeaderM by (cases k) simp_all
next
  case (BytesMessageM x)
  then show ?thesis
    using assms BytesMessageM by (cases k) (auto simp: header_ok_Some as_class_def BytesMessage_roundtrip)
next
  case (StringMessageM x)
  then show ?thesis
    using assms StringMessageM by (cases k) (auto simp: header_ok_Some as_class_def StringMessage_roundtrip)
qed

lemma pb_parse_returns:
  assumes "returns_message (read_header rs)" and "returns_message (read_entry rs)"
  shows "pb_MergePartialFromCodedStream W rs inp m \<noteq> None"
  using assms by (cases m) (simp_all add: as_class_def HeartBeat_returns ConnMeta_returns ConnAuthAck_returns MessageStoreAck_returns DeliverAck_returns TxACKPacket_returns Entry_returns Header_returns BytesMessage_returns StringMessage_returns)

lemma pb_copy_good:
  assumes "pb_good W frm" and "pb_good W m" and "same_class frm m"
  shows "pb_CopyFrom W reflop frm m = frm"
  using assms

proof (cases frm)
  case (HeartBeatM x)
  with assms show ?thesis
    by (cases m) (auto simp: pb_CopyFrom_def same_class_def good_header_def HeartBeat_copy [unfolded HeartBeat_CopyFrom_def])
next
  case (ConnMetaM x)
  with assms show ?thesis
    by (cases m) (auto simp: pb_CopyFrom_def same_class_def good_header_def ConnMeta_copy [unfolded ConnMeta_CopyFrom_def])
next
  case (ConnAuthAckM x)
  with assms show ?thesis
    by (cases m) (auto simp: pb_CopyFrom_def same_class_def good_header_def ConnAuthAck_copy [unfolded ConnAuthAck_CopyFrom_def])
next
  case (MessageStoreAckM x)
  with assms show ?thesis
    by (cases m) (auto simp: pb_CopyFrom_def same_class_def good_header_def MessageStoreAck_copy [unfolded MessageStoreAck_CopyFrom_def])
next
  case (DeliverAckM x)
  with assms show ?thesis
    by (cases m) (auto simp: pb_CopyFrom_def same_class_def good_header_def DeliverAck_copy [unfolded DeliverAck_CopyFrom_def])
next
  case (TxACKPacketM x)
  with assms show ?thesis
    by (cases m) (auto simp: pb_CopyFrom_def same_class_def good_header_def TxACKPacket_copy [unfolded TxACKPacket_CopyFrom_def])
next
  case (EntryM x)
  with assms show ?thesis
    by (cases m) (auto simp: pb_CopyFrom_def same_class_def good_header_def Entry_copy [unfolded Entry_CopyFrom_def])
next
  case (HeaderM x)
  with assms show ?thesis
    by (cases m) (auto simp: pb_CopyFrom_def same_class_def good_header_def Header_copy [unfolded Header_CopyFrom_def])
next
  case (BytesMessageM x)
  with assms show ?thesis
    by (cases m) (auto simp: pb_CopyFrom_def same_class_def good_header_def BytesMessage_copy [unfolded BytesMessage_CopyFrom_def])
next
  case (StringMessageM x)
  with assms show ?thesis
    by (cases m) (auto simp: pb_CopyFrom_def same_class_def good_header_def StringMessage_copy [unfolded StringMessage_CopyFrom_def])
qed

end

section \<open>The library's entry points\<close>

record 'u lite =
  SerializeToArray :: "'u pb_message \<Rightarrow> int \<Rightarrow> byte list"
  ParseFromArray :: "'u pb_message \<Rightarrow> byte list \<Rightarrow> bool \<times> 'u pb_message"

text \<open>
  What the documentation of \<^verbatim>\<open>MessageLite\<close> says of the two: \<open>SerializeToArray\<close> writes the message,
  all of whose required fields are set, into an array that is large enough; \<open>ParseFromArray\<close>
  clears the message and succeeds if merging the whole array succeeds and leaves a message with
  all required fields (the default recursion limit is 100).  A message never changes class.
\<close>

definition lite_ok :: "'u wire \<Rightarrow> 'u readers \<Rightarrow> 'u lite \<Rightarrow> bool" where
  "lite_ok W rs L \<longleftrightarrow>
     (\<forall>m. pb_good W m \<longrightarrow>
        SerializeToArray L m (fst (pb_ByteSize W m)) = pb_SerializeWithCachedSizesToArray W (snd (pb_ByteSize W m))) \<and>
     (\<forall>m bs d m'. pb_MergePartialFromCodedStream W rs \<lparr>avail = bs, depth = 100\<rparr> (pb_Clear W m) =
          Some (True, \<lparr>avail = [], depth = d\<rparr>, m') \<longrightarrow> pb_IsInitialized m' \<longrightarrow> ParseFromArray L m bs = (True, m')) \<and>
     (\<forall>m bs. same_class (snd (ParseFromArray L m bs)) m)"

text \<open>The runtime the packet code sees, and what may travel under each command.\<close>

definition gen_rt :: "'u wire \<Rightarrow> 'u lite \<Rightarrow> 'u pb_message msg_rt" where
  "gen_rt W L = \<lparr>rt_new = pb_new, rt_ByteSize = (\<lambda>m. fst (pb_ByteSize W m)),
     rt_SerializeToArray = SerializeToArray L, rt_ParseFromArray = ParseFromArray L\<rparr>"

definition pb_sendable :: "'u wire \<Rightarrow> msg_class \<Rightarrow> 'u pb_message \<Rightarrow> bool" where
  "pb_sendable W k m \<longleftrightarrow> pb_good W m \<and> pb_instance k m"

locale pb_library = wire_laws W for W :: "'u wire" +
  fixes rs :: "'u readers" and L :: "'u lite"
  assumes reads_header: "reads_message W (read_header rs)" and reads_entry: "reads_message W (read_entry rs)"
    and returns_header: "returns_message (read_header rs)" and returns_entry: "returns_message (read_entry rs)"
    and lite: "lite_ok W rs L"
begin

lemma serialize: "pb_good W m \<Longrightarrow>
    SerializeToArray L m (fst (pb_ByteSize W m)) = pb_SerializeWithCachedSizesToArray W (snd (pb_ByteSize W m))"
  using lite by (simp add: lite_ok_def)

lemma parse_new:
  assumes "pb_MergePartialFromCodedStream W rs \<lparr>avail = bs, depth = 100\<rparr> (pb_new k) = Some (True, \<lparr>avail = [], depth = d\<rparr>, m)"
    and "pb_IsInitialized m"
  shows "ParseFromArray L (pb_new k) bs = (True, m)"
  using lite assms unfolding lite_ok_def by (metis pb_Clear_new)

lemma good_initialized: "pb_good W m \<Longrightarrow> pb_IsInitialized m"
  by (cases m) (simp_all add: good_header_def)

lemma parse_class: "same_class (snd (ParseFromArray L m bs)) m"
  using lite by (simp add: lite_ok_def)

lemma runtime: "msg_runtime (gen_rt W L) (pb_sendable W)"
proof
  fix k m assume s: "pb_sendable W k m"
  then have g: "pb_good W m" and i: "pb_instance k m" by (simp_all add: pb_sendable_def)
  let ?bs = "pb_SerializeWithCachedSizesToArray W (snd (pb_ByteSize W m))"
  show "0 \<le> rt_ByteSize (gen_rt W L) m" by (simp add: gen_rt_def pb_size [OF g])
  show "int (length (rt_SerializeToArray (gen_rt W L) m (rt_ByteSize (gen_rt W L) m))) = rt_ByteSize (gen_rt W L) m"
    by (simp add: gen_rt_def serialize [OF g] pb_size [OF g, symmetric])
  have "ParseFromArray L (pb_new k) ?bs = (True, m)"
    by (rule parse_new [OF pb_parse_bytes [OF reads_header reads_entry g i] good_initialized [OF g]]) simp
  then show "rt_ParseFromArray (gen_rt W L) (rt_new (gen_rt W L) k)
      (rt_SerializeToArray (gen_rt W L) m (rt_ByteSize (gen_rt W L) m)) = (True, m)"
    by (simp add: gen_rt_def serialize [OF g])
qed

end

sublocale pb_library \<subseteq> rt: msg_runtime "gen_rt W L" "pb_sendable W"
  by (rule runtime)

section \<open>A library that keeps the contract\<close>

definition std_readers :: "byte list readers" where
  "std_readers = \<lparr>read_entry = std_ReadMessageNoRecursionDepth, read_header = std_ReadMessage\<rparr>"

definition std_lite :: "byte list lite" where
  "std_lite =
     \<lparr>SerializeToArray = (\<lambda>m n. case pb_ByteSize std_wire m of (sz, m') \<Rightarrow>
        if n < sz then [] else pb_SerializeWithCachedSizesToArray std_wire m'),
      ParseFromArray = (\<lambda>m bs.
        case pb_MergePartialFromCodedStream std_wire std_readers \<lparr>avail = bs, depth = 100\<rparr> (pb_Clear std_wire m) of
          None \<Rightarrow> (False, m)
        | Some (ok, inp, m') \<Rightarrow> (ok \<and> avail inp = [] \<and> pb_IsInitialized m', m'))\<rparr>"

lemma pb_Merge_class:
  "pb_MergePartialFromCodedStream W rs inp m = Some (ok, inp', m') \<Longrightarrow> same_class m' m"
  by (cases m) (auto simp: as_class_def same_class_def)

lemma pb_Clear_class: "same_class (pb_Clear W m) m"
  by (cases m) (simp_all add: same_class_def)

lemma std_lite_ok: "lite_ok std_wire std_readers std_lite"
proof -
  have "same_class (snd (ParseFromArray std_lite m bs)) m" for m bs
    using pb_Merge_class [of std_wire std_readers "\<lparr>avail = bs, depth = 100\<rparr>" "pb_Clear std_wire m"]
      pb_Clear_class [of std_wire m]
    by (auto simp: std_lite_def same_class_def split: option.split)
  then show ?thesis
    by (auto simp: lite_ok_def std_lite_def split: prod.split)
qed

interpretation gen: pb_library std_wire std_readers std_lite
  by unfold_locales
    (simp_all add: std_readers_def std_reads_message std_reads_message_no_depth std_returns_message std_lite_ok
      [unfolded std_readers_def])

section \<open>Properties of the generated messages\<close>

text \<open>A queue message as a producer fills it in, with one property and a creation time.\<close>

definition sample_entry :: "byte list entry" where
  "sample_entry = Entry_set_value [2] (Entry_set_key [1] Entry_new)"

definition sample_header :: "byte list msgHeader" where
  "sample_header = Header_set_createtime 300 (Header_set_fly True (Header_set_commit True (Header_set_groupid [7]
     (Header_set_deliverlimit 3 (Header_set_expiredtime 5 (Header_set_messagetype [6] (Header_set_topic [5]
     (Header_set_messageid [4] (Header_new\<lparr>phd_properties := [sample_entry]\<rparr>)))))))))"

definition sample_string :: "byte list pb_message" where
  "sample_string = StringMessageM (StringMessage_set_body [8, 9] (StringMessage_put_header sample_header StringMessage_new))"

lemma bits_below: "drop_bit k w = 0 \<Longrightarrow> bit w n \<Longrightarrow> n < k" for w :: "'a::len word"
proof (rule ccontr)
  assume a: "drop_bit k w = 0" "bit w n" "\<not> n < k"
  then have "bit (drop_bit k w) (n - k)" unfolding bit_drop_bit_eq by simp
  with a(1) show False by simp
qed

lemma sample_bits: "\<forall>n. bit (3 :: int32) n \<longrightarrow> n < 2" "\<forall>n. bit (767 :: int32) n \<longrightarrow> n < 10"
  by (intro allI impI, rule bits_below [rotated], assumption, simp)+

lemma std_sizes: "StringSize std_wire s = std_LengthDelimitedSize (int (length s))"
  "Int64Size std_wire v = std_Int64Size v" "Int32Size std_wire i = std_Int32Size i"
  "LengthDelimitedSize std_wire n = std_LengthDelimitedSize n"
  by (simp_all add: std_wire_def)

lemmas size_simps = std_sizes std_LengthDelimitedSize_def std_Int64Size_def std_Int32Size_def enc_varint.simps
  unknown_size_def

lemma sample_entry_ok: "Entry_built sample_entry" "Entry_IsInitialized sample_entry"
  "fst (Entry_ByteSize std_wire sample_entry) = 6"
  using sample_bits(1)
  by (simp_all add: sample_entry_def Entry_built_def Entry_IsInitialized_def Entry_ByteSize_def Entry_set_defs Entry_new_def
      Entry_has_defs size_simps Let_def)

lemma sample_header_size: "fst (Header_ByteSize std_wire sample_header) = 31"
  by (simp add: sample_header_def Header_ByteSize_def Header_set_defs Header_new_def Header_has_defs sample_entry_ok
      size_simps Let_def)

lemma sample_header_ok: "good_header std_wire sample_header"
  using sample_bits(2) sample_entry_ok sample_header_size
  by (simp add: good_header_def sample_header_def Header_built_def Header_IsInitialized_def Header_fits_def
      Header_set_defs Header_new_def Header_has_defs)

lemma sample_string_ok: "pb_good std_wire sample_string"
  using sample_bits(1) sample_header_ok
  by (simp add: sample_string_def StringMessage_built_def StringMessage_IsInitialized_def StringMessage_set_defs
      StringMessage_new_def StringMessage_has_defs header_ok_def good_header_def header_initialized_def)

lemma sample_string_size: "fst (pb_ByteSize std_wire sample_string) = 37"
  using sample_header_size
  by (simp add: sample_string_def StringMessage_ByteSize_def StringMessage_set_defs StringMessage_new_def
      StringMessage_has_defs header_size_def size_simps Let_def)



text \<open>
  C13: the parser of every class returns on every input, whatever the bytes and whatever message
  they are merged into: each turn of its state machine consumes input.
\<close>

theorem pb_parser_returns:
  assumes "wire_laws W" and "returns_message (read_header rs)" and "returns_message (read_entry rs)"
  shows "\<exists>ok inp' m'. pb_MergePartialFromCodedStream W rs inp m = Some (ok, inp', m')"
  using wire_laws.pb_parse_returns [OF assms, of inp m] by (metis not_None_eq surj_pair)

theorem pb_parser_returns_witness:
  "\<exists>ok inp' m'. pb_MergePartialFromCodedStream std_wire std_readers \<lparr>avail = [74, 255, 255, 0, 10], depth = 100\<rparr>
     sample_string = Some (ok, inp', m')"
  by (rule pb_parser_returns [OF std.wire_laws_axioms gen.returns_header gen.returns_entry])

text \<open>
  \<open>CopyFrom\<close> between messages of one class makes the target equal to the source, whatever message the
  target held (both built by the setters): has-bits, defaults, nested header and properties included.
\<close>

lemma pb_copy_exact:
  assumes "wire_laws W" and "pb_good W frm" and "pb_good W m" and "same_class frm m"
  shows "pb_CopyFrom W reflop frm m = frm"
  using assms by (rule wire_laws.pb_copy_good)

text \<open>
  The two serialisers of every class, into a coded output stream and into a flat array, write
  the same bytes in the same order, unknown fields last.
\<close>

lemma pb_serializers_equal:
  "pb_SerializeWithCachedSizes W m out = out @ pb_SerializeWithCachedSizesToArray W m"
  by (rule pb_serialize_agree)


text \<open>
  C5: a queue message survives the wire.  A packet with a message of any class the client
  receives, serialised by \<open>toByteBuf\<close>, sent, and parsed from the frame behind the length field,
  comes back whole: opaque, command, version, extension (below 2^32; the protocol's own constant
  is 0) and message.
\<close>

theorem message_packet_roundtrip:
  assumes "vector_ok V" and "pb_library W rs L" and "pb_good W m" and "pb_instance k m"
    and "class_of_cmd (cmdType (hd_of p)) = Some k"
    and "pbuf p = ByteBuf" and "message p = Some m" and "fst (pb_ByteSize W m) = int n"
    and "n + 23 < 2 ^ 31" and "vreserve V (n + 24) < 2 ^ 31" and "vreserve V (n + 1) < 2 ^ 31"
    and "\<And>k. oob k 0 = 0" and "extension (hd_of p) < 2 ^ 32"
  shows "\<exists>num p'. toByteBuf V (gen_rt W L) p = Some (Some (num, p')) \<and>
    readInt (sent_bytes (num, p')) = Some (word_of_int (num - 4)) \<and>
    parseFrom oob (gen_rt W L) pkg (drop 4 (sent_bytes (num, p')) @ rest) (num - 4) =
      Some (True, pkg\<lparr>hd_of := hd_of p, message := Some m\<rparr>)"
  by (rule packet_survives [OF assms(1) pb_library.runtime [OF assms(2)], where k = k])
    (use assms in \<open>simp_all add: pb_sendable_def gen_rt_def\<close>)

definition sample_pb_packet :: "byte list pb_message kitePacket" where
  "sample_pb_packet = \<lparr>hd_of = \<lparr>opaque = 7, cmdType = CMD_STRING_MESSAGE, version = 2, extension = 5\<rparr>,
     message = Some sample_string, pbuf = ByteBuf\<rparr>"

theorem message_packet_roundtrip_witness:
  "\<exists>num p'. toByteBuf libstdcxx (gen_rt std_wire std_lite) sample_pb_packet = Some (Some (num, p')) \<and>
    readInt (sent_bytes (num, p')) = Some (word_of_int (num - 4)) \<and>
    parseFrom x86_shl (gen_rt std_wire std_lite) sample_pb_packet (drop 4 (sent_bytes (num, p')) @ []) (num - 4) =
      Some (True, sample_pb_packet\<lparr>hd_of := hd_of sample_pb_packet, message := Some sample_string\<rparr>)"
  by (rule message_packet_roundtrip [OF libstdcxx_ok gen.pb_library_axioms sample_string_ok, where n = 37 and k = StringMessageC])
    (simp_all add: sample_pb_packet_def sample_string_size libstdcxx_def x86_shl_def class_of_cmd_def cmd_defs,
      simp add: sample_string_def)


end
