(* ===== verification/FutureSpec.thy ===== *)
theory FutureSpec
  imports Futures
begin

text \<open>
  The contract of \<^verbatim>\<open>remoting/ResponseFuture.cpp\<close> without its map, promises and locks: every call is
  opened with a request id, may be answered once, by a response with that id, and ends with that
  answer or without one.  The futures and the static map refine it.
\<close>

datatype 'm call_spec = Unused | Open int32 | Answered "'m kiteResponse" | Ended "'m kiteResponse option"

inductive spec_step :: "(nat \<Rightarrow> 'm call_spec) \<Rightarrow> (nat \<Rightarrow> 'm call_spec) \<Rightarrow> bool" where
  sp_open: "A n = Unused \<Longrightarrow> spec_step A (A(n := Open i))"
| sp_answer: "A n = Open (resp_requestId r) \<Longrightarrow> spec_step A (A(n := Answered r))"
| sp_return: "A n = Answered r \<Longrightarrow> spec_step A (A(n := Ended (Some r)))"
| sp_give_up: "A n = Open i \<or> A n = Answered r \<Longrightarrow> spec_step A (A(n := Ended None))"

inductive spec_reachable :: "(nat \<Rightarrow> 'm call_spec) \<Rightarrow> bool" where
  sr_init: "spec_reachable (\<lambda>_. Unused)"
| sr_step: "spec_reachable A \<Longrightarrow> spec_step A B \<Longrightarrow> spec_reachable B"

text \<open>What a state of the futures says about call \<open>n\<close>.\<close>

definition call_view :: "'m calls \<Rightarrow> nat \<Rightarrow> 'm call_spec" where
  "call_view s n =
     (case pc s n of
        NoCall \<Rightarrow> Unused
      | Created \<Rightarrow> Open (requestId (objs (fs s) n))
      | Returned x \<Rightarrow> Ended x
      | _ \<Rightarrow> (case fvalue (objs (fs s) n) of None \<Rightarrow> Open (requestId (objs (fs s) n)) | Some r \<Rightarrow> Answered r))"

lemma call_view_init: "call_view calls_init = (\<lambda>_. Unused)"
  by (simp add: call_view_def calls_init_def fun_eq_iff)

lemma call_view_at:
  assumes "\<And>m. m \<noteq> n \<Longrightarrow> pc s' m = pc s m \<and> objs (fs s') m = objs (fs s) m"
  shows "call_view s' = (call_view s)(n := call_view s' n)"
proof
  fix m
  show "call_view s' m = ((call_view s)(n := call_view s' n)) m"
  proof (cases "m = n")
    case False
    with assms [OF False] show ?thesis by (simp add: call_view_def split: call_pc.split option.split)
  qed simp
qed

lemma call_view_receive:
  assumes inv: "calls_inv s" and r: "receiveResponse r (fs s) = Inr f"
  shows "call_view (s\<lparr>fs := f\<rparr>) = call_view s \<or> spec_step (call_view s) (call_view (s\<lparr>fs := f\<rparr>))"
proof (cases "futureMap (fs s) (resp_requestId r)")
  case None
  with inv r have "f = fs s" by (simp add: receive_inv_eq)
  then show ?thesis by simp
next
  case (Some n)
  have n: "requestId (objs (fs s) n) = resp_requestId r" "fvalue (objs (fs s) n) = None" "in_flight (pc s n)"
    using calls_invD(1-3) [OF inv Some] by auto
  then have "call_view s n = Open (resp_requestId r)"
    by (auto simp: call_view_def in_flight_def)
  moreover have f: "f = (fs s)\<lparr>objs := (objs (fs s))(n := (objs (fs s) n)\<lparr>fvalue := Some r\<rparr>),
      futureMap := (futureMap (fs s))(resp_requestId r := None)\<rparr>"
    using r Some by (simp add: receive_inv_eq [OF inv])
  moreover have "call_view (s\<lparr>fs := f\<rparr>) n = Answered r"
    using n(3) unfolding f by (auto simp: call_view_def in_flight_def)
  moreover have "call_view (s\<lparr>fs := f\<rparr>) = (call_view s)(n := call_view (s\<lparr>fs := f\<rparr>) n)"
    by (rule call_view_at) (simp add: f)
  ultimately show ?thesis by (metis sp_answer)
qed

lemma call_view_step:
  assumes "call_step pick s s'" and inv: "calls_inv s"
  shows "call_view s' = call_view s \<or> spec_step (call_view s) (call_view s')"
  using assms(1)
proof (cases rule: call_step.cases)
  case (c_create n i)
  then have "call_view s n = Unused" "call_view s' n = Open i"
    by (simp_all add: call_view_def new_future_def ResponseFuture_def)
  moreover have "call_view s' = (call_view s)(n := call_view s' n)"
    by (rule call_view_at) (simp add: c_create(1) new_future_def)
  ultimately show ?thesis by (metis sp_open)
next
  case (c_used n f)
  have v: "fvalue (objs (fs s) n) = None" using calls_invD(6) [OF inv] c_used(2) by blast
  have f: "f = (ResponseFutureUsed n (fs s))\<lparr>objs := (objs (fs s))(n := (objs (fs s) n)\<lparr>retrieved := True\<rparr>)\<rparr>"
    using c_used(3) by (auto simp: get_future_def used_eq split: if_splits)
  have "call_view s' n = call_view s n"
    using c_used(1,2) v by (simp add: call_view_def f)
  moreover have "call_view s' = (call_view s)(n := call_view s' n)"
    by (rule call_view_at) (simp add: c_used(1) f)
  ultimately show ?thesis by simp
next
  case (c_receive resp f)
  then show ?thesis using call_view_receive [OF inv] by simp
next
  case (c_value n r)
  then have "call_view s n = Answered r" "call_view s' n = Ended (Some r)"
    by (simp_all add: call_view_def)
  moreover have "call_view s' = (call_view s)(n := call_view s' n)"
    by (rule call_view_at) (simp add: c_value(1))
  ultimately show ?thesis by (metis sp_return)
next
  case (c_timeout n)
  then have "call_view s' n = call_view s n" by (simp add: call_view_def)
  moreover have "call_view s' = (call_view s)(n := call_view s' n)"
    by (rule call_view_at) (simp add: c_timeout(1))
  ultimately show ?thesis by simp
next
  case (c_erase n)
  then have "call_view s' n = Ended None" by (simp add: call_view_def)
  moreover have "call_view s' = (call_view s)(n := call_view s' n)"
    by (rule call_view_at) (simp add: c_erase(1) erase_request_def fm_erase_def)
  moreover have "(\<exists>i. call_view s n = Open i) \<or> (\<exists>r. call_view s n = Answered r)"
    using c_erase(2) by (simp add: call_view_def split: option.split)
  ultimately show ?thesis by (metis sp_give_up)
qed

lemma spec_final: "spec_step A B \<Longrightarrow> A n = Ended x \<Longrightarrow> B n = Ended x"
  by (induction rule: spec_step.induct) auto

text \<open>
  C15: the futures implement the call contract: every reachable state of the map and the promises
  shows a state the contract reaches, and every step (a creation, a registration, a response, a
  wait that ends, an erasure) shows as one step of the contract or none; so an answer always has
  the id of its call, arrives at most once, and a call that ended stays as it ended.
\<close>

theorem futures_refine_calls:
  assumes "calls_reachable pick s" and "call_step pick s s'"
  shows "spec_reachable (call_view s) \<and>
    (call_view s' = call_view s \<or> spec_step (call_view s) (call_view s')) \<and>
    (call_view s n = Ended x \<longrightarrow> call_view s' n = Ended x)"
proof -
  have step: "call_view s' = call_view s \<or> spec_step (call_view s) (call_view s')"
    using call_view_step [OF assms(2)] reachable_inv [OF assms(1)] by blast
  have "spec_reachable (call_view s)"
    using assms(1)
  proof (induction rule: calls_reachable.induct)
    case cr_init
    show ?case by (simp add: call_view_init sr_init)
  next
    case (cr_step s s')
    then show ?case using call_view_step [OF cr_step.hyps(2)] reachable_inv by (metis sr_step)
  qed
  with step show ?thesis by (auto dest: spec_final)
qed

lemma sample_last_step: "call_step fresh_pick sample_answered sample_returned"
  unfolding sample_returned_def
  by (rule c_value) (simp_all add: sample_answered_def sample_waiting_def)

theorem futures_refine_calls_witness:
  "spec_reachable (call_view sample_answered) \<and>
    (call_view sample_returned = call_view sample_answered \<or>
     spec_step (call_view sample_answered) (call_view sample_returned))"
  using futures_refine_calls [OF sample_answered_reachable sample_last_step] by blast

end
