(* ===== verification/CJsonText.thy ===== *)
theory CJsonText
  imports Prelude
begin

text \<open>
  \<^verbatim>\<open>json/cJSON.c\<close>, the string half: \<open>parse_string\<close>, \<open>print_string_ptr\<close>, \<open>skip\<close> and
  \<open>cJSON_strcasecmp\<close>.  A pointer into a text is the list of bytes from it to the end of the memory
  region, its terminating 0 included, so that reading beyond the region is a read of \<open>[]\<close>.  An
  output buffer is the list of bytes written so far together with its allocated size.

  \<open>alloc n\<close> says whether \<open>cJSON_malloc(n)\<close> succeeds.  \<open>sx p\<close> is what \<open>sscanf(p, "%4x", &u)\<close> stores:
  \<open>None\<close> when nothing matches and \<open>u\<close> keeps its value.
\<close>

section \<open>Results\<close>

text \<open>
  \<open>Undef\<close>: the C program reads or writes outside a region, or uses an indeterminate value.
  \<open>Fail ep\<close>: it returns 0, after setting the error pointer if \<open>ep\<close> is not \<open>None\<close>.
\<close>

datatype 'a outcome = Undef | Fail "byte list option" | Done 'a

fun and_then :: "'a outcome \<Rightarrow> ('a \<Rightarrow> 'b outcome) \<Rightarrow> 'b outcome" where
  "and_then Undef f = Undef"
| "and_then (Fail ep) f = Fail ep"
| "and_then (Done x) f = f x"

lemma and_then_Done_iff: "and_then r f = Done y \<longleftrightarrow> (\<exists>x. r = Done x \<and> f x = Done y)"
  by (cases r) simp_all

lemma and_then_cong [fundef_cong]:
  "r = r' \<Longrightarrow> (\<And>x. r' = Done x \<Longrightarrow> f x = g x) \<Longrightarrow> and_then r f = and_then r' g"
  by (cases r') simp_all

section \<open>Scanning\<close>

fun skip :: "byte list \<Rightarrow> byte list outcome" where
  "skip [] = Undef"
| "skip (c # r) = (if c \<noteq> 0 \<and> c \<le> 32 then skip r else Done (c # r))"

fun tolower :: "byte \<Rightarrow> byte" where
  "tolower c = (if 65 \<le> c \<and> c \<le> 90 then c + 32 else c)"

text \<open>\<open>cJSON_strcasecmp\<close> as far as its callers use it: whether the result is 0.  Pointers may be NULL.\<close>

fun same_ci :: "byte list \<Rightarrow> byte list \<Rightarrow> bool outcome" where
  "same_ci (a # s) (b # t) =
     (if tolower a = tolower b then (if a = 0 then Done True else same_ci s t) else Done False)"
| "same_ci s t = Undef"

definition strcasecmp_eq :: "byte list option \<Rightarrow> byte list option \<Rightarrow> bool outcome" where
  "strcasecmp_eq s1 s2 =
     (case s1 of None \<Rightarrow> Done (s2 = None)
      | Some a \<Rightarrow> (case s2 of None \<Rightarrow> Done False | Some b \<Rightarrow> same_ci a b))"

section \<open>Parsing a string\<close>

text \<open>
  The measuring loop: an escaped character counts once, and the character after a backslash is
  skipped unseen.
\<close>

fun str_len :: "byte list \<Rightarrow> nat \<Rightarrow> nat option" where
  "str_len [] n = None"
| "str_len (c # r) n =
     (if c = 0x22 \<or> c = 0 then Some n
      else if c = 0x5C then (case r of [] \<Rightarrow> None | _ # r' \<Rightarrow> str_len r' (n + 1))
      else str_len r (n + 1))"

definition put :: "nat \<Rightarrow> byte list \<Rightarrow> byte list \<Rightarrow> byte list option" where
  "put cap out xs = (if length out + length xs \<le> cap then Some (out @ xs) else None)"

definition firstByteMark :: "byte list" where
  "firstByteMark = [0x00, 0x00, 0xC0, 0xE0, 0xF0, 0xF8, 0xFC]"

text \<open>
  The falling-through \<open>switch (len)\<close>, from the last byte to the first; it shifts \<open>uc\<close> as it goes,
  and what is left in \<open>uc\<close> is returned as well.
\<close>

fun utf8_fill :: "nat \<Rightarrow> nat \<Rightarrow> int32 \<Rightarrow> byte list \<Rightarrow> byte list \<times> int32" where
  "utf8_fill len 0 uc acc = (acc, uc)"
| "utf8_fill len (Suc 0) uc acc = (ucast (uc OR ucast (firstByteMark ! len)) # acc, uc)"
| "utf8_fill len (Suc (Suc k)) uc acc = utf8_fill len (Suc k) (drop_bit 6 uc) (ucast ((uc OR 0x80) AND 0xBF) # acc)"

definition utf8_len :: "int32 \<Rightarrow> nat" where
  "utf8_len uc = (if uc < 0x80 then 1 else if uc < 0x800 then 2 else if uc < 0x10000 then 3 else 4)"

text \<open>The two variables of \<open>parse_string\<close> that \<open>sscanf\<close> writes; they live across iterations.\<close>

type_synonym scanned = "int32 option \<times> int32 option"

type_synonym sscanf4 = "byte list \<Rightarrow> int32 option"

definition emit_utf8 :: "nat \<Rightarrow> byte list \<Rightarrow> int32 \<Rightarrow> (byte list \<times> int32) option" where
  "emit_utf8 cap out uc =
     (let len = utf8_len uc; (bs, uc') = utf8_fill len len uc [] in
      map_option (\<lambda>out. (out, uc')) (put cap out bs))"

definition scan :: "sscanf4 \<Rightarrow> byte list \<Rightarrow> int32 option \<Rightarrow> int32 option" where
  "scan sx p u = (case sx p of Some v \<Rightarrow> Some v | None \<Rightarrow> u)"

text \<open>\<open>case 'u'\<close>; \<open>p\<close> points at the \<open>u\<close>.  The result is the pointer at the \<open>break\<close>.\<close>

definition unicode_escape ::
  "sscanf4 \<Rightarrow> nat \<Rightarrow> byte list \<Rightarrow> byte list \<Rightarrow> scanned \<Rightarrow> (byte list \<times> byte list \<times> scanned) option" where
  "unicode_escape sx cap p out us =
     (if length p \<le> 1 then None
      else
        let u = scan sx (tl p) (fst us); u2 = snd us in
        if length p < 4 then None
        else
          let p = drop 4 p in
          case u of
            None \<Rightarrow> None
          | Some uc \<Rightarrow>
              if (0xDC00 \<le> uc \<and> uc \<le> 0xDFFF) \<or> uc = 0 then Some (p, out, u, u2)
              else if 0xD800 \<le> uc \<and> uc \<le> 0xDBFF
              then (if length p \<le> 1 then None
                    else if p ! 1 \<noteq> 0x5C then Some (p, out, u, u2)
                    else if length p \<le> 2 then None
                    else if p ! 2 \<noteq> 0x75 then Some (p, out, u, u2)
                    else if length p \<le> 3 then None
                    else
                      let u2 = scan sx (drop 3 p) u2 in
                      if length p < 6 then None
                      else
                        let p = drop 6 p in
                        case u2 of
                          None \<Rightarrow> None
                        | Some uc2 \<Rightarrow>
                            if uc2 < 0xDC00 \<or> 0xDFFF < uc2 then Some (p, out, u, u2)
                            else map_option (\<lambda>(out, uc). (p, out, Some uc, u2))
                              (emit_utf8 cap out
                                (0x10000 OR push_bit 10 (uc AND 0x3FF) OR (uc2 AND 0x3FF))))
              else map_option (\<lambda>(out, uc). (p, out, Some uc, u2)) (emit_utf8 cap out uc))"

text \<open>The \<open>switch (*ptr)\<close> after a backslash.\<close>

definition escape ::
  "sscanf4 \<Rightarrow> nat \<Rightarrow> byte list \<Rightarrow> byte list \<Rightarrow> scanned \<Rightarrow> (byte list \<times> byte list \<times> scanned) option" where
  "escape sx cap p out us =
     (case p of
        [] \<Rightarrow> None
      | e # _ \<Rightarrow>
          (let one = (\<lambda>b. map_option (\<lambda>out. (p, out, us)) (put cap out [b])) in
           if e = 0x62 then one 0x08
           else if e = 0x66 then one 0x0C
           else if e = 0x6E then one 0x0A
           else if e = 0x72 then one 0x0D
           else if e = 0x74 then one 0x09
           else if e = 0x75 then unicode_escape sx cap p out us
           else one e))"

lemma unicode_escape_shorter: "unicode_escape sx cap p out us = Some (p', out', us') \<Longrightarrow> length p' \<le> length p"
  by (auto simp: unicode_escape_def Let_def split: if_splits option.splits)

lemma escape_shorter: "escape sx cap p out us = Some (p', out', us') \<Longrightarrow> length p' \<le> length p"
  by (auto simp: escape_def Let_def dest: unicode_escape_shorter split: if_splits list.splits)

text \<open>The copying loop.\<close>

function copy_loop ::
  "sscanf4 \<Rightarrow> nat \<Rightarrow> byte list \<Rightarrow> byte list \<Rightarrow> scanned \<Rightarrow> (byte list \<times> byte list) option" where
  "copy_loop sx cap [] out us = None"
| "copy_loop sx cap (c # r) out us =
     (if c = 0x22 \<or> c = 0 then Some (c # r, out)
      else if c \<noteq> 0x5C
      then (case put cap out [c] of None \<Rightarrow> None | Some out \<Rightarrow> copy_loop sx cap r out us)
      else (case escape sx cap r out us of
              Some (_ # p, out, us) \<Rightarrow> copy_loop sx cap p out us
            | _ \<Rightarrow> None))"
  by pat_completeness auto
termination
  by (relation "measure (\<lambda>(sx, cap, p, out, us). length p)") (auto dest: escape_shorter)

definition parse_string :: "(nat \<Rightarrow> bool) \<Rightarrow> sscanf4 \<Rightarrow> byte list \<Rightarrow> (byte list \<times> byte list) outcome" where
  "parse_string alloc sx str =
     (case str of
        [] \<Rightarrow> Undef
      | c # p \<Rightarrow>
          if c \<noteq> 0x22 then Fail (Some str)
          else (case str_len p 0 of
                  None \<Rightarrow> Undef
                | Some len \<Rightarrow>
                    if \<not> alloc (len + 1) then Fail None
                    else (case copy_loop sx (len + 1) p [] (None, None) of
                            None \<Rightarrow> Undef
                          | Some (q, out) \<Rightarrow>
                              if put (len + 1) out [0] = None then Undef
                              else Done (out, if hd q = 0x22 then tl q else q))))"

section \<open>Printing a string\<close>

definition needs_backslash :: "byte \<Rightarrow> bool" where
  "needs_backslash t \<longleftrightarrow> t \<in> set [0x22, 0x5C, 0x08, 0x0C, 0x0A, 0x0D, 0x09]"

text \<open>The measuring loop over the bytes before the terminating 0.\<close>

fun print_len :: "byte list \<Rightarrow> nat \<Rightarrow> nat" where
  "print_len [] n = n"
| "print_len (t # s) n = print_len s (if needs_backslash t then n + 2 else if t < 32 then n + 6 else n + 1)"

definition hex_digit :: "nat \<Rightarrow> byte" where
  "hex_digit d = (if d < 10 then word_of_nat (48 + d) else word_of_nat (87 + d))"

text \<open>\<open>sprintf(ptr2, "u%04x", token)\<close>, whose terminating 0 is overwritten by what follows.\<close>

definition sprintf_u04x :: "nat \<Rightarrow> byte list \<Rightarrow> byte \<Rightarrow> byte list option" where
  "sprintf_u04x cap out t =
     (let xs = [0x75, hex_digit 0, hex_digit 0, hex_digit (unat t div 16), hex_digit (unat t mod 16)] in
      if put cap out (xs @ [0]) = None then None else Some (out @ xs))"

fun print_loop :: "nat \<Rightarrow> byte list \<Rightarrow> byte list \<Rightarrow> byte list option" where
  "print_loop cap [] out = Some out"
| "print_loop cap (t # s) out =
     (if 31 < t \<and> t \<noteq> 0x22 \<and> t \<noteq> 0x5C
      then (case put cap out [t] of None \<Rightarrow> None | Some out \<Rightarrow> print_loop cap s out)
      else (case put cap out [0x5C] of
              None \<Rightarrow> None
            | Some out \<Rightarrow>
                (case (if t = 0x5C then put cap out [0x5C]
                       else if t = 0x22 then put cap out [0x22]
                       else if t = 0x08 then put cap out [0x62]
                       else if t = 0x0C then put cap out [0x66]
                       else if t = 0x0A then put cap out [0x6E]
                       else if t = 0x0D then put cap out [0x72]
                       else if t = 0x09 then put cap out [0x74]
                       else sprintf_u04x cap out t) of
                   None \<Rightarrow> None
                 | Some out \<Rightarrow> print_loop cap s out)))"

text \<open>
  The argument is the C string without its terminating 0, or NULL; the result is one, too.
  \<open>cJSON_strdup("")\<close> copies one byte.
\<close>

definition print_string_ptr :: "(nat \<Rightarrow> bool) \<Rightarrow> byte list option \<Rightarrow> byte list outcome" where
  "print_string_ptr alloc str =
     (case str of
        None \<Rightarrow> if alloc 1 then Done [] else Fail None
      | Some s \<Rightarrow>
          (let cap = print_len s 0 + 3 in
           if \<not> alloc cap then Fail None
           else (case put cap [] [0x22] of
                   None \<Rightarrow> Undef
                 | Some out \<Rightarrow>
                     (case print_loop cap s out of
                        None \<Rightarrow> Undef
                      | Some out \<Rightarrow> if put cap out [0x22, 0] = None then Undef else Done (out @ [0x22])))))"

section \<open>What a string literal denotes\<close>

text \<open>
  A literal is a sequence of pieces: a plain byte, an escaped byte, a code unit in four hex digits
  outside the high surrogates, or a high surrogate followed by another code unit.
\<close>

datatype piece = Plain byte | Esc byte | Uni "byte list" | Pair "byte list" "byte list"

definition hex_value :: "byte \<Rightarrow> int32 option" where
  "hex_value c =
     (if 0x30 \<le> c \<and> c \<le> 0x39 then Some (ucast c - 0x30)
      else if 0x61 \<le> c \<and> c \<le> 0x66 then Some (ucast c - 0x57)
      else if 0x41 \<le> c \<and> c \<le> 0x46 then Some (ucast c - 0x37)
      else None)"

fun hex_number :: "byte list \<Rightarrow> int32 \<Rightarrow> int32" where
  "hex_number [] v = v"
| "hex_number (c # cs) v = (case hex_value c of None \<Rightarrow> v | Some d \<Rightarrow> hex_number cs (16 * v + d))"

abbreviation hexval :: "byte list \<Rightarrow> int32" where
  "hexval h \<equiv> hex_number h 0"

definition hex4 :: "byte list \<Rightarrow> bool" where
  "hex4 h \<longleftrightarrow> length h = 4 \<and> list_all (\<lambda>c. hex_value c \<noteq> None) h"

definition high_surrogate :: "int32 \<Rightarrow> bool" where
  "high_surrogate u \<longleftrightarrow> 0xD800 \<le> u \<and> u \<le> 0xDBFF"

definition low_surrogate :: "int32 \<Rightarrow> bool" where
  "low_surrogate u \<longleftrightarrow> 0xDC00 \<le> u \<and> u \<le> 0xDFFF"

fun wf_piece :: "piece \<Rightarrow> bool" where
  "wf_piece (Plain b) \<longleftrightarrow> b \<noteq> 0 \<and> b \<noteq> 0x22 \<and> b \<noteq> 0x5C"
| "wf_piece (Esc e) \<longleftrightarrow> e \<noteq> 0 \<and> e \<noteq> 0x75"
| "wf_piece (Uni h) \<longleftrightarrow> hex4 h \<and> \<not> high_surrogate (hexval h)"
| "wf_piece (Pair h l) \<longleftrightarrow> hex4 h \<and> hex4 l \<and> high_surrogate (hexval h)"

fun piece_text :: "piece \<Rightarrow> byte list" where
  "piece_text (Plain b) = [b]"
| "piece_text (Esc e) = [0x5C, e]"
| "piece_text (Uni h) = [0x5C, 0x75] @ h"
| "piece_text (Pair h l) = [0x5C, 0x75] @ h @ [0x5C, 0x75] @ l"

text \<open>The encoding of a code point in UTF-8, by its bits (RFC 3629).\<close>

definition utf8 :: "int32 \<Rightarrow> byte list" where
  "utf8 c =
     (let tail = (\<lambda>k. ucast (0x80 OR (drop_bit (6 * k) c AND 0x3F))) in
      if c < 0x80 then [ucast c]
      else if c < 0x800 then [ucast (0xC0 OR drop_bit 6 c), tail 0]
      else if c < 0x10000 then [ucast (0xE0 OR drop_bit 12 c), tail 1, tail 0]
      else [ucast (0xF0 OR drop_bit 18 c), tail 2, tail 1, tail 0])"

definition paired :: "int32 \<Rightarrow> int32 \<Rightarrow> int32" where
  "paired h l = 0x10000 OR push_bit 10 (h AND 0x3FF) OR (l AND 0x3FF)"

fun denotes :: "piece \<Rightarrow> byte list" where
  "denotes (Plain b) = [b]"
| "denotes (Esc e) =
     [if e = 0x62 then 0x08 else if e = 0x66 then 0x0C else if e = 0x6E then 0x0A else if e = 0x72 then 0x0D
      else if e = 0x74 then 0x09 else e]"
| "denotes (Uni h) = (if low_surrogate (hexval h) \<or> hexval h = 0 then [] else utf8 (hexval h))"
| "denotes (Pair h l) = (if low_surrogate (hexval l) then utf8 (paired (hexval h) (hexval l)) else [])"

definition literal :: "piece list \<Rightarrow> byte list" where
  "literal ps = concat (map piece_text ps)"

definition meaning :: "piece list \<Rightarrow> byte list" where
  "meaning ps = concat (map denotes ps)"

lemma literal_simps [simp]: "literal [] = []" "literal (p # ps) = piece_text p @ literal ps"
  by (simp_all add: literal_def)

lemma meaning_simps [simp]: "meaning [] = []" "meaning (p # ps) = denotes p @ meaning ps"
  by (simp_all add: meaning_def)

text \<open>\<open>sscanf\<close> on four hex digits.\<close>

definition sscanf_ok :: "sscanf4 \<Rightarrow> bool" where
  "sscanf_ok sx \<longleftrightarrow> (\<forall>h r. hex4 h \<longrightarrow> sx (h @ r) = Some (hexval h))"

section \<open>The measuring loop\<close>

fun piece_len :: "piece \<Rightarrow> nat" where
  "piece_len (Uni h) = 5"
| "piece_len (Pair h l) = 10"
| "piece_len p = 1"

lemma hex_value_plain: "hex_value c \<noteq> None \<Longrightarrow> c \<noteq> 0x22 \<and> c \<noteq> 0 \<and> c \<noteq> 0x5C"
  by (auto simp: hex_value_def split: if_splits)

lemma hex4E:
  assumes "hex4 h"
  obtains a b c d where "h = [a, b, c, d]" "\<forall>x\<in>{a, b, c, d}. hex_value x \<noteq> None"
proof -
  have "length h = Suc (Suc (Suc (Suc 0)))" using assms by (simp add: hex4_def)
  then obtain a b c d where "h = [a, b, c, d]" by (auto simp: length_Suc_conv)
  with assms that show thesis by (auto simp: hex4_def)
qed

lemma str_len_plain: "c \<noteq> 0x22 \<Longrightarrow> c \<noteq> 0 \<Longrightarrow> c \<noteq> 0x5C \<Longrightarrow> str_len (c # r) n = str_len r (n + 1)"
  by simp

lemma hex4_len:
  assumes "hex4 h"
  shows "str_len (h @ r) n = str_len r (4 + n)"
  using assms
proof (rule hex4E)
  fix a b c d assume h: "h = [a, b, c, d]" "\<forall>x\<in>{a, b, c, d}. hex_value x \<noteq> None"
  have "str_len (x # s) m = str_len s (m + 1)" if "x \<in> {a, b, c, d}" for x s m
  proof -
    have "hex_value x \<noteq> None" using h(2) that by blast
    then show ?thesis by (intro str_len_plain) (use hex_value_plain in blast)+
  qed
  then have "str_len (h @ r) n = str_len r (n + 1 + 1 + 1 + 1)" by (simp del: str_len.simps add: h(1))
  moreover have "n + 1 + 1 + 1 + 1 = 4 + n" by simp
  ultimately show ?thesis by (simp only:)
qed

lemma str_len_piece: "wf_piece p \<Longrightarrow> str_len (piece_text p @ r) n = str_len r (piece_len p + n)"
  by (cases p) (simp_all add: hex4_len)

lemma str_len_literal:
  "list_all wf_piece ps \<Longrightarrow> str_len (literal ps @ 0x22 # r) n = Some (sum_list (map piece_len ps) + n)"
  by (induction ps arbitrary: n) (simp_all add: str_len_piece)

section \<open>The copying loop\<close>

lemma tail_byte: "(ucast ((x OR 0x80) AND 0xBF) :: byte) = ucast (0x80 OR (x AND 0x3F))" for x :: int32
proof (rule bit_word_eqI)
  fix n assume "n < LENGTH(8)"
  then consider "n = 0" | "n = 1" | "n = 2" | "n = 3" | "n = 4" | "n = 5" | "n = 6" | "n = 7" by fastforce
  then show "bit (ucast ((x OR 0x80) AND 0xBF) :: byte) n = bit (ucast (0x80 OR (x AND 0x3F)) :: byte) n"
    by cases (simp_all add: bit_simps)
qed

lemma utf8_fill_steps:
  "utf8_fill len 2 uc acc = utf8_fill len (Suc 0) (drop_bit 6 uc) (ucast ((uc OR 0x80) AND 0xBF) # acc)"
  "utf8_fill len 3 uc acc = utf8_fill len 2 (drop_bit 6 uc) (ucast ((uc OR 0x80) AND 0xBF) # acc)"
  "utf8_fill len 4 uc acc = utf8_fill len 3 (drop_bit 6 uc) (ucast ((uc OR 0x80) AND 0xBF) # acc)"
proof -
  show "utf8_fill len 2 uc acc = utf8_fill len (Suc 0) (drop_bit 6 uc) (ucast ((uc OR 0x80) AND 0xBF) # acc)"
    unfolding numeral_2_eq_2 by (rule utf8_fill.simps(3))
  show "utf8_fill len 3 uc acc = utf8_fill len 2 (drop_bit 6 uc) (ucast ((uc OR 0x80) AND 0xBF) # acc)"
    unfolding numeral_2_eq_2 numeral_3_eq_3 by (rule utf8_fill.simps(3))
  have "(4 :: nat) = Suc (Suc 2)" by simp
  then show "utf8_fill len 4 uc acc = utf8_fill len 3 (drop_bit 6 uc) (ucast ((uc OR 0x80) AND 0xBF) # acc)"
    by (simp only: utf8_fill.simps(3) numeral_3_eq_3 numeral_2_eq_2)
qed

lemma firstByteMark_nth: "firstByteMark ! Suc 0 = 0" "firstByteMark ! 2 = 0xC0" "firstByteMark ! 3 = 0xE0"
  "firstByteMark ! 4 = 0xF0"
  by (simp_all add: firstByteMark_def)

lemma utf8_fill_eq: "fst (utf8_fill (utf8_len c) (utf8_len c) c []) = utf8 c"
  unfolding utf8_len_def utf8_def
  by (simp add: utf8_fill_steps firstByteMark_nth tail_byte Let_def drop_bit_drop_bit or.commute)

lemma length_utf8: "length (utf8 c) = utf8_len c"
  by (simp add: utf8_def utf8_len_def Let_def)

lemma emit_utf8_eq:
  "length out + utf8_len c \<le> cap \<Longrightarrow> \<exists>c'. emit_utf8 cap out c = Some (out @ utf8 c, c')"
  using utf8_fill_eq [of c] length_utf8 [of c]
  by (auto simp: emit_utf8_def put_def Let_def split: prod.split)

lemma utf8_len_le: "utf8_len c \<le> 4" "c < 0x10000 \<Longrightarrow> utf8_len c \<le> 3"
  by (simp_all add: utf8_len_def)

lemma utf8_len_bounds: "1 \<le> utf8_len c" "utf8_len c \<le> 4"
  by (simp_all add: utf8_len_def)

lemma length_denotes: "wf_piece p \<Longrightarrow> length (denotes p) \<le> piece_len p"
  using utf8_len_bounds(2) by (cases p) (auto simp: length_utf8 intro: order_trans [of _ 4])

text \<open>One piece: it is copied as what it denotes if that fits the buffer.\<close>

lemma copy_hex:
  assumes "hex4 h" and "sscanf_ok sx"
  shows "scan sx (h @ r) u = Some (hexval h)" "drop 4 (x # h @ r) = drop 3 (h @ r)" "length h = 4"
  using assms by (auto simp: scan_def sscanf_ok_def hex4_def)

lemma copy_piece:
  assumes "wf_piece p" and "sscanf_ok sx" and "length out + length (denotes p) \<le> cap"
  shows "\<exists>us'. copy_loop sx cap (piece_text p @ r) out us = copy_loop sx cap r (out @ denotes p) us'"
proof (cases p)
  case (Plain b)
  with assms show ?thesis by (intro exI [of _ us]) (simp add: put_def)
next
  case (Esc e)
  with assms show ?thesis by (intro exI [of _ us]) (simp add: put_def escape_def)
next
  case (Uni h)
  then obtain a b c d where h: "h = [a, b, c, d]" using assms(1) by (auto elim: hex4E)
  have v: "scan sx (a # b # c # d # r) u = Some (hexval h)" for u
    using copy_hex(1) [of h sx r u] assms(1,2) Uni h by simp
  show ?thesis
  proof (cases "low_surrogate (hexval h) \<or> hexval h = 0")
    case True
    then show ?thesis using v Uni h
      by (cases us) (auto simp: escape_def unicode_escape_def low_surrogate_def Let_def)
  next
    case False
    then obtain c' where c': "emit_utf8 cap out (hexval h) = Some (out @ utf8 (hexval h), c')"
      using emit_utf8_eq [of out "hexval h" cap] assms(3) Uni by (auto simp: length_utf8)
    then show ?thesis using v Uni h False assms(1)
      by (cases us) (auto simp: escape_def unicode_escape_def low_surrogate_def high_surrogate_def Let_def)
  qed
next
  case (Pair h l)
  then obtain a b c d where h: "h = [a, b, c, d]" using assms(1) by (auto elim: hex4E)
  obtain a' b' c' d' where l: "l = [a', b', c', d']" using assms(1) Pair by (auto elim: hex4E)
  obtain hv lv where hv: "hexval h = hv" "hexval l = lv" by blast
  have v: "scan sx (a # b # c # d # s) u = Some hv" for u s
    using copy_hex(1) [of h sx s u] assms(1,2) Pair hv unfolding h by simp
  have w: "scan sx (a' # b' # c' # d' # s) u = Some lv" for u s
    using copy_hex(1) [of l sx s u] assms(1,2) Pair hv unfolding l by simp
  have hs: "0xD800 \<le> hv" "hv \<le> 0xDBFF" "\<not> 0xDC00 \<le> hv" "hv \<noteq> 0"
    using assms(1) Pair hv order_trans [of "0xDC00" hv "0xDBFF"] by (auto simp: high_surrogate_def)
  have e: "escape sx cap (0x75 # h @ 0x5C # 0x75 # l @ r) out us =
      (if low_surrogate lv
       then map_option (\<lambda>(out, uc). (d' # r, out, Some uc, Some lv)) (emit_utf8 cap out (paired hv lv))
       else Some (d' # r, out, Some hv, Some lv))"
    unfolding escape_def unicode_escape_def h l low_surrogate_def paired_def
    by (cases us) (auto simp: v w hs not_le not_less Let_def)
  show ?thesis
  proof (cases "low_surrogate lv")
    case False
    with e show ?thesis by (auto simp: Pair hv)
  next
    case True
    then obtain c' where "emit_utf8 cap out (paired hv lv) = Some (out @ utf8 (paired hv lv), c')"
      using emit_utf8_eq [of out "paired hv lv" cap] assms(3) Pair hv by (auto simp: length_utf8)
    with True e show ?thesis by (auto simp: Pair hv)
  qed
qed

lemma copy_literal:
  assumes "sscanf_ok sx"
  shows "list_all wf_piece ps \<Longrightarrow> length out + length (meaning ps) \<le> cap \<Longrightarrow>
    copy_loop sx cap (literal ps @ 0x22 # r) out us = Some (0x22 # r, out @ meaning ps)"
proof (induction ps arbitrary: out us)
  case (Cons p ps)
  then obtain us' where "copy_loop sx cap (piece_text p @ literal ps @ 0x22 # r) out us =
      copy_loop sx cap (literal ps @ 0x22 # r) (out @ denotes p) us'"
    using copy_piece [OF _ assms, of p out cap "literal ps @ 0x22 # r" us] by auto
  with Cons show ?case by simp
qed simp

lemma length_meaning: "list_all wf_piece ps \<Longrightarrow> length (meaning ps) \<le> sum_list (map piece_len ps)"
  by (induction ps) (use length_denotes add_mono in fastforce)+

text \<open>A complete literal is read whole, inside its buffer, and gives what it denotes.\<close>

lemma parse_literal:
  assumes "sscanf_ok sx" and "list_all wf_piece ps" and "\<And>n. alloc n"
  shows "parse_string alloc sx (0x22 # literal ps @ 0x22 # r) = Done (meaning ps, r)"
  using assms length_meaning [OF assms(2)]
  by (simp add: parse_string_def str_len_literal copy_literal put_def)

section \<open>Printing\<close>

lemma hex_value_digit: "d < 16 \<Longrightarrow> hex_value (hex_digit d) = Some (word_of_nat d)"
proof -
  assume d: "d < 16"
  have u: "unat (word_of_nat n :: byte) = n" "ucast (word_of_nat n :: byte) = (word_of_nat n :: int32)" if "n < 256" for n
    using that by (simp_all add: unat_of_nat take_bit_nat_eq_self_iff unsigned_of_nat take_bit_nat_eq_self)
  show ?thesis
  proof (cases "d < 10")
    case True
    then show ?thesis using u [of "48 + d"]
      by (simp add: hex_digit_def hex_value_def word_le_nat_alt del: of_nat_add) simp
  next
    case False
    then show ?thesis using u [of "87 + d"] d
      by (simp add: hex_digit_def hex_value_def word_le_nat_alt del: of_nat_add) simp
  qed
qed

text \<open>How a byte of a string is printed.\<close>

lemma printed_control:
  assumes "t < (32 :: byte)"
  shows "hex4 [0x30, 0x30, hex_digit (unat t div 16), hex_digit (unat t mod 16)]"
    and "hexval [0x30, 0x30, hex_digit (unat t div 16), hex_digit (unat t mod 16)] = ucast t"
proof -
  have h: "hex_value 0x30 = Some 0" by (simp add: hex_value_def)
  have n: "unat t < 32" using assms by (simp add: word_less_nat_alt)
  then show "hex4 [0x30, 0x30, hex_digit (unat t div 16), hex_digit (unat t mod 16)]"
    by (simp add: hex4_def hex_value_digit h)
  have "16 * word_of_nat (unat t div 16) + word_of_nat (unat t mod 16) = (word_of_nat (16 * (unat t div 16) + unat t mod 16) :: int32)"
    by (simp only: of_nat_add of_nat_mult of_nat_numeral)
  also have "\<dots> = ucast t" by (simp add: mult_div_mod_eq)
  finally show "hexval [0x30, 0x30, hex_digit (unat t div 16), hex_digit (unat t mod 16)] = ucast t"
    using n by (simp add: hex_value_digit h)
qed

definition printed :: "byte \<Rightarrow> piece" where
  "printed t =
     (if t = 0x5C then Esc 0x5C else if t = 0x22 then Esc 0x22 else if t = 0x08 then Esc 0x62
      else if t = 0x0C then Esc 0x66 else if t = 0x0A then Esc 0x6E else if t = 0x0D then Esc 0x72
      else if t = 0x09 then Esc 0x74
      else if 31 < t then Plain t
      else Uni [0x30, 0x30, hex_digit (unat t div 16), hex_digit (unat t mod 16)])"

lemma ascii_point:
  assumes "c < 0x80"
  shows "\<not> high_surrogate c" "\<not> low_surrogate c" "utf8 c = [ucast c]"
  using assms order_le_less_trans [of "0xD800" c "0x80"] order_le_less_trans [of "0xDC00" c "0x80"]
  by (auto simp: high_surrogate_def low_surrogate_def utf8_def)

lemma byte_there_and_back: "ucast (ucast t :: int32) = (t :: byte)"
  by (rule bit_word_eqI) (auto simp: bit_simps)

lemma printed_piece:
  assumes "t \<noteq> 0"
  shows "wf_piece (printed t)" and "denotes (printed t) = [t]"
proof -
  have "wf_piece (printed t) \<and> denotes (printed t) = [t]"
  proof (cases "31 < t")
    case True
    then show ?thesis using assms by (auto simp: printed_def)
  next
    case False
    then have t: "t < 32" by (simp add: word_less_nat_alt)
    then have "unat t < 32" by (simp add: word_less_nat_alt)
    then have u: "unat (ucast t :: int32) = unat t" by (simp add: unsigned_ucast_eq take_bit_nat_eq_self)
    then have "(ucast t :: int32) < 0x80" using \<open>unat t < 32\<close> by (simp add: word_less_nat_alt)
    moreover have "(ucast t :: int32) \<noteq> 0" using u assms by (metis unsigned_0 unsigned_eq_0_iff)
    ultimately have "(ucast t :: int32) < 0x80" "(ucast t :: int32) \<noteq> 0" by simp_all
    then show ?thesis using False printed_control [OF t] assms ascii_point [of "ucast t"]
      by (auto simp: printed_def byte_there_and_back simp del: hex_number.simps)
  qed
  then show "wf_piece (printed t)" "denotes (printed t) = [t]" by simp_all
qed

lemma print_len_eq: "print_len s n = n + print_len s 0"
proof (induction s arbitrary: n)
  case (Cons t s)
  show ?case using Cons [of "n + 2"] Cons [of "Suc (Suc 0)"] Cons [of "n + 6"] Cons [of 6] Cons [of "n + 1"] Cons [of 1] by simp
qed simp

lemma print_len_printed: "print_len (t # s) 0 = length (piece_text (printed t)) + print_len s 0"
  using print_len_eq [of s "Suc (Suc 0)"] print_len_eq [of s 6] print_len_eq [of s 1]
  by (auto simp: printed_def needs_backslash_def word_less_nat_alt)

text \<open>The printed literal, byte by byte; the buffer keeps room for the quote and the 0 at the end.\<close>

lemma print_loop_eq:
  "length out + print_len s 0 < cap \<Longrightarrow> print_loop cap s out = Some (out @ literal (map printed s))"
proof (induction s arbitrary: out)
  case (Cons t s)
  have "length out + length (piece_text (printed t)) + print_len s 0 < cap"
    using Cons.prems print_len_printed [of t s] by simp
  then have "print_loop cap s (out @ piece_text (printed t)) = Some (out @ piece_text (printed t) @ literal (map printed s))"
    and "length out + length (piece_text (printed t)) < cap"
    using Cons.IH [of "out @ piece_text (printed t)"] by simp_all
  then show ?case
    by (simp add: printed_def [of t] put_def sprintf_u04x_def hex_digit_def [of 0] split: if_splits)
qed simp

definition quoted :: "byte list \<Rightarrow> byte list" where
  "quoted s = 0x22 # literal (map printed s) @ [0x22]"

lemma print_string_Some:
  assumes "\<And>n. alloc n"
  shows "print_string_ptr alloc (Some s) = Done (quoted s)"
proof -
  have "length ([0x22] @ literal (map printed s)) = 1 + print_len s 0"
    by (induction s) (simp_all add: print_len_printed del: print_len.simps(2))
  with print_loop_eq [of "[0x22]" s "print_len s 0 + 3"] assms show ?thesis
    by (simp add: print_string_ptr_def put_def quoted_def Let_def)
qed

lemma parse_quoted:
  assumes "sscanf_ok sx" and "0 \<notin> set s" and "\<And>n. alloc n"
  shows "parse_string alloc sx (quoted s @ r) = Done (s, r)"
proof -
  have "list_all wf_piece (map printed s)" "meaning (map printed s) = s"
    using assms(2) by (induction s) (auto simp: printed_piece)
  with parse_literal [OF assms(1), of "map printed s" alloc r] assms(3) show ?thesis by (simp add: quoted_def)
qed

section \<open>Escapes that are cut short, and surrogate pairs\<close>

lemma copy_plain_overflow:
  "list_all (\<lambda>z. z \<noteq> 0 \<and> z \<noteq> 0x22 \<and> z \<noteq> 0x5C) zs \<Longrightarrow> length out \<le> cap \<Longrightarrow> cap < length out + length zs \<Longrightarrow>
    copy_loop sx cap (zs @ r) out us = None"
  by (induction zs arbitrary: out) (auto simp: put_def)

lemma hex_len: "list_all (\<lambda>c. hex_value c \<noteq> None) h \<Longrightarrow> str_len (h @ 0x22 # r) n = Some (n + length h)"
proof (induction h arbitrary: n)
  case (Cons c h)
  then have "str_len ((c # h) @ 0x22 # r) n = str_len (h @ 0x22 # r) (n + 1)"
    using hex_value_plain [of c] by (simp add: str_len_plain del: str_len.simps)
  with Cons show ?case by simp
qed simp

lemma unicode_escape_plain:
  assumes "scan sx (tl p) (fst us) = Some v" and "5 \<le> length p"
    and "\<not> high_surrogate v" and "\<not> low_surrogate v" and "v \<noteq> 0"
  shows "unicode_escape sx cap p out us =
    map_option (\<lambda>(out, uc). (drop 4 p, out, Some uc, snd us)) (emit_utf8 cap out v)"
  using assms by (auto simp: unicode_escape_def high_surrogate_def low_surrogate_def Let_def)

text \<open>The code point of a surrogate pair (RFC 2781).\<close>

definition scalar :: "int32 \<Rightarrow> int32 \<Rightarrow> int32" where
  "scalar h l = 0x10000 + (push_bit 10 (h AND 0x3FF) + (l AND 0x3FF))"

lemma paired_scalar: "paired h l = scalar h l \<longleftrightarrow> \<not> bit h 6"
proof -
  let ?x = "push_bit 10 (h AND mask 10) OR (l AND mask 10)"
  have m: "(0x3FF :: int32) = mask 10" by (simp add: mask_eq_exp_minus_1)
  have k: "(0x10000 :: int32) = push_bit 16 1" by (simp add: push_bit_eq_mult)
  have one: "bit (push_bit 16 1 :: int32) n \<longleftrightarrow> n = 16" for n
    unfolding bit_push_bit_iff bit_1_iff by auto
  obtain x where x: "x = ?x" by blast
  have "push_bit 10 (h AND mask 10) + (l AND mask 10) = x"
    unfolding x by (rule disjunctive_add_eq_or) (rule bit_eqI, auto simp: bit_simps)
  then have s: "scalar h l = push_bit 16 1 + x" unfolding scalar_def m k by (simp only:)
  have p: "paired h l = push_bit 16 1 OR x" unfolding paired_def m k x by (simp only: or.assoc)
  have b: "bit x 16 = bit h 6" by (simp add: x bit_simps)
  show ?thesis
  proof (cases "bit h 6")
    case True
    have "bit (push_bit 16 1 OR x) n = bit x n" for n
      using b True by (cases "n = 16") (simp_all only: bit_or_iff one simp_thms)
    then have "push_bit 16 1 OR x = x" by (intro bit_eqI) simp
    moreover have "push_bit 16 1 + x \<noteq> x" by (simp flip: k)
    ultimately show ?thesis using s p True by simp
  next
    case False
    have "\<not> bit (push_bit 16 1 AND x) n" for n
      using b False by (cases "n = 16") (simp_all only: bit_and_iff one simp_thms)
    then have "push_bit 16 1 AND x = 0" by (intro bit_eqI) simp
    then have "push_bit 16 1 + x = push_bit 16 1 OR x" by (rule disjunctive_add_eq_or)
    with s p False show ?thesis by simp
  qed
qed

section \<open>Properties\<close>

text \<open>A \<open>sscanf\<close> for the examples: the hex digits at the front, four at most.\<close>

definition std_sscanf :: sscanf4 where
  "std_sscanf p =
     (let h = takeWhile (\<lambda>c. hex_value c \<noteq> None) (take 4 p) in if h = [] then None else Some (hexval h))"

lemma std_sscanf_ok: "sscanf_ok std_sscanf"
  unfolding sscanf_ok_def
proof (intro allI impI)
  fix h r assume "hex4 h"
  then have t: "take 4 (h @ r) = h" and w: "takeWhile (\<lambda>c. hex_value c \<noteq> None) h = h" and n: "h \<noteq> []"
    by (auto simp: hex4_def list_all_iff)
  show "std_sscanf (h @ r) = Some (hexval h)" unfolding std_sscanf_def Let_def t w using n by simp
qed

text \<open>
  Strings survive printing and parsing: for every C string, whatever bytes it holds (quotes,
  backslashes, control characters, UTF-8), \<open>print_string_ptr\<close> stays inside the buffer it
  measured, and \<open>parse_string\<close> of its output gives the string back, stays inside its own buffer,
  and stops right behind the closing quote.
\<close>

lemma json_string_roundtrip:
  assumes "sscanf_ok sx" and "0 \<notin> set s" and "\<And>n. alloc n"
  shows "\<exists>t. print_string_ptr alloc (Some s) = Done t \<and> parse_string alloc sx (t @ r) = Done (s, r)"
  using print_string_Some [where s = s and alloc = alloc, OF assms(3)] parse_quoted [where r = r and alloc = alloc, OF assms] by blast

text \<open>
  Every complete string literal is decoded in bounds: for any sequence of plain bytes,
  backslash escapes, four-digit escapes (written as UTF-8; low surrogates and 0 dropped) and
  surrogate pairs, the buffer of \<open>len + 1\<close> bytes suffices and the result is what the pieces denote.
\<close>

lemma json_literal_decoded:
  assumes "sscanf_ok sx" and "list_all wf_piece ps" and "\<And>n. alloc n"
  shows "parse_string alloc sx (0x22 # literal ps @ 0x22 # r) = Done (meaning ps, r)"
  using assms by (rule parse_literal)

text \<open>
  C38: a four-digit escape that the closing quote cuts short makes the parser write beyond its
  buffer.  The measuring loop stops at the quote, the copying loop jumps over it: with one to
  three hex digits and at least five ordinary bytes after the quote, the result is undefined.
\<close>

theorem short_unicode_escape_overflows:
  assumes "list_all (\<lambda>c. hex_value c \<noteq> None) h" and "h \<noteq> []" and "length h \<le> 3"
    and "sx (h @ 0x22 # zs @ 0 # r) = Some v" and "\<not> high_surrogate v" and "\<not> low_surrogate v" and "v \<noteq> 0"
    and "list_all (\<lambda>z. z \<noteq> 0 \<and> z \<noteq> 0x22 \<and> z \<noteq> 0x5C) zs" and "5 \<le> length zs" and "\<And>n. alloc n"
  shows "parse_string alloc sx (0x22 # 0x5C # 0x75 # h @ 0x22 # zs @ 0 # r) = Undef"
proof -
  let ?t = "h @ 0x22 # zs @ 0 # r" and ?cap = "length h + 2"
  have len: "str_len (0x5C # 0x75 # ?t) 0 = Some (1 + length h)"
    using hex_len [OF assms(1), of "zs @ 0 # r" 1] by simp
  have v: "scan sx ?t None = Some v" using assms(4) by (simp add: scan_def)
  have d: "drop 4 (0x75 # ?t) = drop (3 - length h) (0x22 # zs) @ 0 # r"
    using assms(3,9) by (cases "3 - length h") auto
  have "copy_loop sx ?cap (0x5C # 0x75 # ?t) [] (None, None) = None"
  proof (cases "emit_utf8 ?cap [] v")
    case None
    with v assms(5-7,9) show ?thesis by (simp add: escape_def unicode_escape_plain)
  next
    case (Some w)
    obtain out c where w: "w = (out, c)" by (cases w)
    with Some utf8_len_bounds(1) [of v] utf8_fill_eq [of v] length_utf8 [of v]
    have out: "1 \<le> length out" "length out \<le> ?cap"
      by (auto simp: emit_utf8_def put_def Let_def split: if_splits prod.splits)
    have "copy_loop sx ?cap (0x5C # 0x75 # ?t) [] (None, None) =
        copy_loop sx ?cap (drop (3 - length h) zs @ 0 # r) out (Some c, None)"
      using v assms(3,5-7,9) Some w d
      by (cases "3 - length h") (auto simp: escape_def unicode_escape_plain Cons_nth_drop_Suc [symmetric])
    also have "\<dots> = None"
    proof (rule copy_plain_overflow)
      show "list_all (\<lambda>z. z \<noteq> 0 \<and> z \<noteq> 0x22 \<and> z \<noteq> 0x5C) (drop (3 - length h) zs)"
        using assms(8) by (auto simp: list_all_iff dest: in_set_dropD)
      show "?cap < length out + length (drop (3 - length h) zs)"
        using out(1) assms(3,9) unfolding length_drop by arith
    qed (rule out(2))
    finally show ?thesis .
  qed
  with len assms(10) show ?thesis by (simp add: parse_string_def del: str_len.simps copy_loop.simps)
qed

theorem short_unicode_escape_overflows_witness:
  "parse_string (\<lambda>_. True) std_sscanf (0x22 # 0x5C # 0x75 # [0x34, 0x31] @ 0x22 # replicate 5 0x61 @ 0 # []) = Undef"
  by (rule short_unicode_escape_overflows [where v = "0x41"])
    (simp_all add: std_sscanf_def hex_value_def high_surrogate_def low_surrogate_def list_all_iff)



end
