(* ===== verification/CJson.thy ===== *)
theory CJson
  imports CJsonText
begin

text \<open>
  \<^verbatim>\<open>json/cJSON.c\<close>, the value half: items, \<open>parse_value\<close> with its number, array and object
  parsers, \<open>print_value\<close> with its printers, \<open>cJSON_Parse\<close> and \<open>cJSON_Print\<close>.

  An item is its record of fields and the list of its children, the chain of \<open>next\<close> pointers from
  \<open>child\<close>; \<open>prev\<close> is determined by it.  The arithmetic of \<open>double\<close> and the conversions of
  \<open>sprintf\<close> for it are the record \<open>dbl\<close>.  Signed integers wrap, as compiled with \<open>-O0\<close>.

  The parser's recursion is bounded by fuel: \<open>None\<close> means that it ran out; lemma \<open>parse_enough\<close> of
  \<open>CJsonProps\<close> shows that twice the length of the text plus two is always enough.
\<close>

section \<open>Items\<close>

record 'd dbl =
  d_of_int :: "int \<Rightarrow> 'd"
  d_add :: "'d \<Rightarrow> 'd \<Rightarrow> 'd"
  d_sub :: "'d \<Rightarrow> 'd \<Rightarrow> 'd"
  d_mul :: "'d \<Rightarrow> 'd \<Rightarrow> 'd"
  d_pow10 :: "'d \<Rightarrow> 'd"
  d_abs :: "'d \<Rightarrow> 'd"
  d_floor :: "'d \<Rightarrow> 'd"
  d_le :: "'d \<Rightarrow> 'd \<Rightarrow> bool"
  d_lt :: "'d \<Rightarrow> 'd \<Rightarrow> bool"
  d_epsilon :: 'd
  d_micro :: 'd
  d_to_int :: "'d \<Rightarrow> int32"
  d_fmt_0f :: "'d \<Rightarrow> byte list"
  d_fmt_e :: "'d \<Rightarrow> byte list"
  d_fmt_f :: "'d \<Rightarrow> byte list"

definition cJSON_False :: int where "cJSON_False = 0"
definition cJSON_True :: int where "cJSON_True = 1"
definition cJSON_NULL :: int where "cJSON_NULL = 2"
definition cJSON_Number :: int where "cJSON_Number = 3"
definition cJSON_String :: int where "cJSON_String = 4"
definition cJSON_Array :: int where "cJSON_Array = 5"
definition cJSON_Object :: int where "cJSON_Object = 6"
definition cJSON_IsReference :: int where "cJSON_IsReference = 256"

lemmas json_types = cJSON_False_def cJSON_True_def cJSON_NULL_def cJSON_Number_def cJSON_String_def
  cJSON_Array_def cJSON_Object_def

record 'd node =
  jtype :: int
  valuestring :: "byte list option"
  valueint :: int32
  valuedouble :: 'd
  valuelong :: int64
  jname :: "byte list option"

datatype 'd cJSON = Item (fields: "'d node") (children: "'d cJSON list")

definition sizeof_cJSON :: nat where
  "sizeof_cJSON = 72"

text \<open>\<open>cJSON_New_Item\<close>: all bytes 0.\<close>

definition zero_node :: "'d dbl \<Rightarrow> 'd node" where
  "zero_node D = \<lparr>jtype = 0, valuestring = None, valueint = 0, valuedouble = d_of_int D 0, valuelong = 0, jname = None\<rparr>"

definition cJSON_New_Item :: "(nat \<Rightarrow> bool) \<Rightarrow> 'd dbl \<Rightarrow> 'd node outcome" where
  "cJSON_New_Item alloc D = (if alloc sizeof_cJSON then Done (zero_node D) else Fail None)"

section \<open>Numbers\<close>

definition isdigit :: "byte \<Rightarrow> bool" where
  "isdigit c \<longleftrightarrow> 0x30 \<le> c \<and> c \<le> 0x39"

text \<open>\<open>while (*num>='0' && *num<='9')\<close> with the loop body \<open>f\<close>.\<close>

fun digits :: "('s \<Rightarrow> int \<Rightarrow> 's) \<Rightarrow> byte list \<Rightarrow> 's \<Rightarrow> ('s \<times> byte list) outcome" where
  "digits f [] s = Undef"
| "digits f (c # r) s = (if isdigit c then digits f r (f s (uint c - 0x30)) else Done (s, c # r))"

fun peek :: "byte list \<Rightarrow> (byte \<Rightarrow> byte list \<Rightarrow> 'a outcome) \<Rightarrow> 'a outcome" where
  "peek [] f = Undef"
| "peek (c # r) f = f c r"

definition number_sign :: "byte list \<Rightarrow> (int \<times> byte list) outcome" where
  "number_sign num = peek num (\<lambda>c r. Done (if c = 0x2D then (- 1, r) else (1, c # r)))"

definition number_zero :: "byte list \<Rightarrow> byte list outcome" where
  "number_zero num = peek num (\<lambda>c r. Done (if c = 0x30 then r else c # r))"

definition number_int :: "byte list \<Rightarrow> (int64 \<times> byte list) outcome" where
  "number_int num = peek num (\<lambda>c r.
     if 0x31 \<le> c \<and> c \<le> 0x39 then digits (\<lambda>m d. m * 10 + word_of_int d) (c # r) 0 else Done (0, c # r))"

text \<open>The fraction: \<open>n\<close> and \<open>scale\<close> are doubles.\<close>

definition number_frac :: "'d dbl \<Rightarrow> byte list \<Rightarrow> 'd \<Rightarrow> (('d \<times> 'd) \<times> byte list) outcome" where
  "number_frac D num n = peek num (\<lambda>c r.
     if c = 0x2E
     then peek r (\<lambda>c' r'.
       if isdigit c'
       then digits (\<lambda>(n, scale) d. (d_add D (d_mul D n (d_of_int D 10)) (d_of_int D d), d_sub D scale (d_of_int D 1)))
              r (n, d_of_int D 0)
       else Done ((n, d_of_int D 0), num))
     else Done ((n, d_of_int D 0), num))"

text \<open>The exponent: \<open>subscale * signsubscale\<close>.\<close>

definition number_exp :: "byte list \<Rightarrow> (int32 \<times> byte list) outcome" where
  "number_exp num = peek num (\<lambda>c r.
     if c = 0x65 \<or> c = 0x45
     then peek r (\<lambda>c' r'.
       let (sg, p) = (if c' = 0x2B then (1, r') else if c' = 0x2D then (- 1, r') else (1, r)) in
       and_then (digits (\<lambda>m d. m * 10 + word_of_int d) p 0) (\<lambda>(sub, p). Done (sub * sg, p)))
     else Done (0, num))"

definition parse_number :: "'d dbl \<Rightarrow> 'd node \<Rightarrow> byte list \<Rightarrow> ('d node \<times> byte list) outcome" where
  "parse_number D nd num =
     and_then (number_sign num) (\<lambda>(sg, num).
     and_then (number_zero num) (\<lambda>num.
     and_then (number_int num) (\<lambda>(m, num).
     and_then (number_frac D num (d_of_int D (sint m))) (\<lambda>((n, scale), num).
     and_then (number_exp num) (\<lambda>(ex, num).
       let n = d_mul D (d_mul D (d_of_int D sg) n) (d_pow10 D (d_add D scale (d_of_int D (sint ex)))) in
       Done (nd\<lparr>valuedouble := n, valueint := d_to_int D n, valuelong := m, jtype := cJSON_Number\<rparr>, num))))))"

text \<open>\<open>"%d"\<close>.\<close>

fun dec :: "nat \<Rightarrow> byte list" where
  "dec n = (if n < 10 then [word_of_nat (0x30 + n)] else dec (n div 10) @ [word_of_nat (0x30 + n mod 10)])"

declare dec.simps [simp del]

definition fmt_d :: "int \<Rightarrow> byte list" where
  "fmt_d i = (if i < 0 then 0x2D # dec (nat (- i)) else dec (nat i))"

text \<open>\<open>sprintf\<close> into a buffer of \<open>cap\<close> bytes.\<close>

definition sprintf :: "nat \<Rightarrow> byte list \<Rightarrow> byte list outcome" where
  "sprintf cap t = (if length t + 1 \<le> cap then Done t else Undef)"

definition print_number :: "(nat \<Rightarrow> bool) \<Rightarrow> 'd dbl \<Rightarrow> 'd node \<Rightarrow> byte list outcome" where
  "print_number alloc D nd =
     (let d = valuedouble nd in
      if d_le D (d_abs D (d_sub D (d_of_int D (sint (valueint nd))) d)) (d_epsilon D) \<and>
         d_le D d (d_of_int D 2147483647) \<and> d_le D (d_of_int D (- 2147483648)) d
      then (if alloc 21 then sprintf 21 (fmt_d (sint (valueint nd))) else Fail None)
      else (if \<not> alloc 64 then Fail None
            else if d_le D (d_abs D (d_sub D (d_floor D d) d)) (d_epsilon D) then sprintf 64 (d_fmt_0f D d)
            else if d_lt D (d_abs D d) (d_micro D) \<or> d_lt D (d_of_int D 1000000000) (d_abs D d)
            then sprintf 64 (d_fmt_e D d)
            else sprintf 64 (d_fmt_f D d)))"

section \<open>Parsing values\<close>

definition also_then :: "'a outcome option \<Rightarrow> ('a \<Rightarrow> 'b outcome option) \<Rightarrow> 'b outcome option" where
  "also_then r f =
     (case r of None \<Rightarrow> None | Some Undef \<Rightarrow> Some Undef | Some (Fail ep) \<Rightarrow> Some (Fail ep) | Some (Done x) \<Rightarrow> f x)"

lemma also_then_simps [simp]: "also_then None f = None" "also_then (Some Undef) f = Some Undef"
  "also_then (Some (Fail ep)) f = Some (Fail ep)" "also_then (Some (Done x)) f = f x"
  by (simp_all add: also_then_def)

text \<open>\<open>!strncmp(value, lit, strlen(lit))\<close>.\<close>

fun has_prefix :: "byte list \<Rightarrow> byte list \<Rightarrow> bool outcome" where
  "has_prefix v [] = Done True"
| "has_prefix [] (b # lit) = Undef"
| "has_prefix (a # v) (b # lit) = (if a = b then has_prefix v lit else Done False)"

definition lit_null :: "byte list" where "lit_null = [0x6E, 0x75, 0x6C, 0x6C]"
definition lit_false :: "byte list" where "lit_false = [0x66, 0x61, 0x6C, 0x73, 0x65]"
definition lit_true :: "byte list" where "lit_true = [0x74, 0x72, 0x75, 0x65]"

text \<open>The first three tests of \<open>parse_value\<close>; \<open>None\<close> when none of the words is there.\<close>

definition parse_word :: "'d node \<Rightarrow> byte list \<Rightarrow> ('d cJSON \<times> byte list) option outcome" where
  "parse_word nd value =
     and_then (has_prefix value lit_null) (\<lambda>b.
       if b then Done (Some (Item (nd\<lparr>jtype := cJSON_NULL\<rparr>) [], drop 4 value)) else
     and_then (has_prefix value lit_false) (\<lambda>b.
       if b then Done (Some (Item (nd\<lparr>jtype := cJSON_False\<rparr>) [], drop 5 value)) else
     and_then (has_prefix value lit_true) (\<lambda>b.
       if b then Done (Some (Item (nd\<lparr>jtype := cJSON_True, valueint := 1\<rparr>) [], drop 4 value)) else Done None)))"

text \<open>
  \<open>parse_array\<close> and \<open>parse_object\<close> are the cases for their opening brackets, up to the first child;
  \<open>parse_elements\<close> and \<open>parse_members\<close> are what they do for each child, from its creation to the
  comma or the closing bracket behind it.
\<close>

fun parse_value ::
    "(nat \<Rightarrow> bool) \<Rightarrow> sscanf4 \<Rightarrow> 'd dbl \<Rightarrow> nat \<Rightarrow> 'd node \<Rightarrow> byte list \<Rightarrow> ('d cJSON \<times> byte list) outcome option" and
  parse_elements ::
    "(nat \<Rightarrow> bool) \<Rightarrow> sscanf4 \<Rightarrow> 'd dbl \<Rightarrow> nat \<Rightarrow> 'd cJSON list \<Rightarrow> byte list \<Rightarrow> ('d cJSON list \<times> byte list) outcome option" and
  parse_members ::
    "(nat \<Rightarrow> bool) \<Rightarrow> sscanf4 \<Rightarrow> 'd dbl \<Rightarrow> nat \<Rightarrow> 'd cJSON list \<Rightarrow> byte list \<Rightarrow> ('d cJSON list \<times> byte list) outcome option"
where
  "parse_value alloc sx D 0 nd value = None"
| "parse_value alloc sx D (Suc fuel) nd value =
     also_then (Some (parse_word nd value)) (\<lambda>w. case w of Some x \<Rightarrow> Some (Done x) | None \<Rightarrow>
     (case value of
        [] \<Rightarrow> Some Undef
      | c # r \<Rightarrow>
          if c = 0x22
          then also_then (Some (parse_string alloc sx value)) (\<lambda>(s, p).
            Some (Done (Item (nd\<lparr>valuestring := Some s, jtype := cJSON_String\<rparr>) [], p)))
          else if c = 0x2D \<or> isdigit c
          then also_then (Some (parse_number D nd value)) (\<lambda>(nd, p). Some (Done (Item nd [], p)))
          else if c = 0x5B
          then also_then (Some (skip r)) (\<lambda>v.
            if hd v = 0x5D then Some (Done (Item (nd\<lparr>jtype := cJSON_Array\<rparr>) [], tl v))
            else also_then (parse_elements alloc sx D fuel [] v) (\<lambda>(cs, p).
              Some (Done (Item (nd\<lparr>jtype := cJSON_Array\<rparr>) cs, p))))
          else if c = 0x7B
          then also_then (Some (skip r)) (\<lambda>v.
            if hd v = 0x7D then Some (Done (Item (nd\<lparr>jtype := cJSON_Object\<rparr>) [], tl v))
            else also_then (parse_members alloc sx D fuel [] v) (\<lambda>(cs, p).
              Some (Done (Item (nd\<lparr>jtype := cJSON_Object\<rparr>) cs, p))))
          else Some (Fail (Some value))))"
| "parse_elements alloc sx D 0 cs value = None"
| "parse_elements alloc sx D (Suc fuel) cs value =
     also_then (Some (cJSON_New_Item alloc D)) (\<lambda>nd.
     also_then (Some (skip value)) (\<lambda>v.
     also_then (parse_value alloc sx D fuel nd v) (\<lambda>(item, v).
     also_then (Some (skip v)) (\<lambda>v.
       if hd v = 0x2C then parse_elements alloc sx D fuel (cs @ [item]) (tl v)
       else if hd v = 0x5D then Some (Done (cs @ [item], tl v))
       else Some (Fail (Some v))))))"
| "parse_members alloc sx D 0 cs value = None"
| "parse_members alloc sx D (Suc fuel) cs value =
     also_then (Some (cJSON_New_Item alloc D)) (\<lambda>nd.
     also_then (Some (skip value)) (\<lambda>v.
     also_then (Some (parse_string alloc sx v)) (\<lambda>(name, v).
     also_then (Some (skip v)) (\<lambda>v.
       if hd v \<noteq> 0x3A then Some (Fail (Some v))
       else
     also_then (Some (skip (tl v))) (\<lambda>v.
     also_then (parse_value alloc sx D fuel (nd\<lparr>jtype := cJSON_String, jname := Some name\<rparr>) v) (\<lambda>(item, v).
     also_then (Some (skip v)) (\<lambda>v.
       if hd v = 0x2C then parse_members alloc sx D fuel (cs @ [item]) (tl v)
       else if hd v = 0x7D then Some (Done (cs @ [item], tl v))
       else Some (Fail (Some v)))))))))"

text \<open>The two functions themselves, for any first character.\<close>

definition parse_array ::
  "(nat \<Rightarrow> bool) \<Rightarrow> sscanf4 \<Rightarrow> 'd dbl \<Rightarrow> nat \<Rightarrow> 'd node \<Rightarrow> byte list \<Rightarrow> ('d cJSON \<times> byte list) outcome option" where
  "parse_array alloc sx D fuel nd value =
     (case value of
        [] \<Rightarrow> Some Undef
      | c # r \<Rightarrow>
          if c \<noteq> 0x5B then Some (Fail (Some value))
          else also_then (Some (skip r)) (\<lambda>v.
            if hd v = 0x5D then Some (Done (Item (nd\<lparr>jtype := cJSON_Array\<rparr>) [], tl v))
            else also_then (parse_elements alloc sx D fuel [] v) (\<lambda>(cs, p).
              Some (Done (Item (nd\<lparr>jtype := cJSON_Array\<rparr>) cs, p)))))"

definition parse_object ::
  "(nat \<Rightarrow> bool) \<Rightarrow> sscanf4 \<Rightarrow> 'd dbl \<Rightarrow> nat \<Rightarrow> 'd node \<Rightarrow> byte list \<Rightarrow> ('d cJSON \<times> byte list) outcome option" where
  "parse_object alloc sx D fuel nd value =
     (case value of
        [] \<Rightarrow> Some Undef
      | c # r \<Rightarrow>
          if c \<noteq> 0x7B then Some (Fail (Some value))
          else also_then (Some (skip r)) (\<lambda>v.
            if hd v = 0x7D then Some (Done (Item (nd\<lparr>jtype := cJSON_Object\<rparr>) [], tl v))
            else also_then (parse_members alloc sx D fuel [] v) (\<lambda>(cs, p).
              Some (Done (Item (nd\<lparr>jtype := cJSON_Object\<rparr>) cs, p)))))"

definition parse_fuel :: "byte list \<Rightarrow> nat" where
  "parse_fuel v = 2 * length v + 2"

definition cJSON_Parse ::
  "(nat \<Rightarrow> bool) \<Rightarrow> sscanf4 \<Rightarrow> 'd dbl \<Rightarrow> byte list option \<Rightarrow> 'd cJSON outcome option" where
  "cJSON_Parse alloc sx D value =
     also_then (Some (cJSON_New_Item alloc D)) (\<lambda>nd.
       case value of
         None \<Rightarrow> Some (Fail None)
       | Some v \<Rightarrow>
           also_then (Some (skip v)) (\<lambda>v.
           also_then (parse_value alloc sx D (parse_fuel v) nd v) (\<lambda>(item, p). Some (Done item))))"

section \<open>Printing values\<close>

text \<open>The array printer stops at the first entry that fails, the object printer does not.\<close>

fun first_failure :: "'a outcome list \<Rightarrow> 'a list outcome" where
  "first_failure [] = Done []"
| "first_failure (r # rs) = and_then r (\<lambda>x. and_then (first_failure rs) (\<lambda>xs. Done (x # xs)))"

fun any_failure :: "'a outcome list \<Rightarrow> 'a list outcome" where
  "any_failure [] = Done []"
| "any_failure (r # rs) =
     (case (r, any_failure rs) of
        (Undef, _) \<Rightarrow> Undef
      | (_, Undef) \<Rightarrow> Undef
      | (Done x, Done xs) \<Rightarrow> Done (x # xs)
      | _ \<Rightarrow> Fail None)"

definition write_out :: "nat \<Rightarrow> byte list \<Rightarrow> byte list outcome" where
  "write_out cap out = (if length out + 1 \<le> cap then Done out else Undef)"

fun compose_array :: "bool \<Rightarrow> byte list list \<Rightarrow> byte list" where
  "compose_array fmt [] = []"
| "compose_array fmt [e] = e"
| "compose_array fmt (e # es) = e @ [0x2C] @ (if fmt then [0x20] else []) @ compose_array fmt es"

definition print_array ::
  "(nat \<Rightarrow> bool) \<Rightarrow> bool \<Rightarrow> byte list outcome list \<Rightarrow> byte list outcome" where
  "print_array alloc fmt rs =
     (if \<not> alloc (8 * length rs) then Fail None
      else and_then (first_failure rs) (\<lambda>es.
        let len = 5 + sum_list (map (\<lambda>e. length e + 2 + (if fmt then 1 else 0)) es) in
        if \<not> alloc len then Fail None
        else write_out len ([0x5B] @ compose_array fmt es @ [0x5D])))"

fun compose_object :: "bool \<Rightarrow> nat \<Rightarrow> (byte list \<times> byte list) list \<Rightarrow> byte list" where
  "compose_object fmt depth [] = []"
| "compose_object fmt depth ((k, e) # es) =
     (if fmt then replicate depth 0x09 else []) @ k @ [0x3A] @ (if fmt then [0x09] else []) @ e @
     (if es \<noteq> [] then [0x2C] else []) @ (if fmt then [0x0A] else []) @ compose_object fmt depth es"

text \<open>\<open>depth\<close> is the depth after \<open>depth++\<close>; \<open>rs\<close> are the printed names and values.\<close>

definition print_object ::
  "(nat \<Rightarrow> bool) \<Rightarrow> bool \<Rightarrow> nat \<Rightarrow> (byte list \<times> byte list) outcome list \<Rightarrow> byte list outcome" where
  "print_object alloc fmt depth rs =
     (if \<not> alloc (8 * length rs) then Fail None
      else and_then (any_failure rs) (\<lambda>es.
        let len = 7 + (if fmt then depth else 0) +
              sum_list (map (\<lambda>(k, e). length e + length k + 2 + (if fmt then 2 + depth else 0)) es) in
        if \<not> alloc len then Fail None
        else write_out len
          ([0x7B] @ (if fmt then [0x0A] else []) @ compose_object fmt depth es @
           (if fmt then replicate (depth - 1) 0x09 else []) @ [0x7D])))"

text \<open>A name is printed, then its value, and the entry fails if one of the two does.\<close>

definition pair_up :: "byte list outcome \<Rightarrow> byte list outcome \<Rightarrow> (byte list \<times> byte list) outcome" where
  "pair_up k e = and_then (any_failure [k, e]) (\<lambda>xs. Done (xs ! 0, xs ! 1))"

definition strdup_lit :: "(nat \<Rightarrow> bool) \<Rightarrow> byte list \<Rightarrow> byte list outcome" where
  "strdup_lit alloc s = (if alloc (length s + 1) then Done s else Fail None)"

fun print_value :: "(nat \<Rightarrow> bool) \<Rightarrow> 'd dbl \<Rightarrow> bool \<Rightarrow> nat \<Rightarrow> 'd cJSON \<Rightarrow> byte list outcome" where
  "print_value alloc D fmt depth (Item nd cs) =
     (let t = jtype nd AND 255 in
      if t = cJSON_NULL then strdup_lit alloc lit_null
      else if t = cJSON_False then strdup_lit alloc lit_false
      else if t = cJSON_True then strdup_lit alloc lit_true
      else if t = cJSON_Number then print_number alloc D nd
      else if t = cJSON_String then print_string_ptr alloc (valuestring nd)
      else if t = cJSON_Array then print_array alloc fmt (map (print_value alloc D fmt (depth + 1)) cs)
      else if t = cJSON_Object
      then print_object alloc fmt (depth + 1)
             (map (\<lambda>c. pair_up (print_string_ptr alloc (jname (fields c))) (print_value alloc D fmt (depth + 1) c)) cs)
      else Fail None)"

definition cJSON_Print :: "(nat \<Rightarrow> bool) \<Rightarrow> 'd dbl \<Rightarrow> 'd cJSON \<Rightarrow> byte list outcome" where
  "cJSON_Print alloc D item = print_value alloc D True 0 item"

definition cJSON_PrintUnformatted :: "(nat \<Rightarrow> bool) \<Rightarrow> 'd dbl \<Rightarrow> 'd cJSON \<Rightarrow> byte list outcome" where
  "cJSON_PrintUnformatted alloc D item = print_value alloc D False 0 item"

end
