(* ===== verification/CJsonProps.thy ===== *)
theory CJsonProps
  imports CJson
begin

text \<open>
  The JSON parser and printer of \<^verbatim>\<open>json/cJSON.c\<close>: the parser returns on every text, and what
  \<open>parse_value\<close> builds is printed by \<open>print_value\<close>, in either format and inside the buffers it
  allocates, as a text that parses back to the same item.
\<close>

section \<open>Consumption and fuel\<close>

lemma also_then_None_iff: "also_then r f = None \<longleftrightarrow> r = None \<or> (\<exists>x. r = Some (Done x) \<and> f x = None)"
  by (auto simp: also_then_def split: option.split outcome.split)

lemma also_then_Done_iff: "also_then r f = Some (Done y) \<longleftrightarrow> (\<exists>x. r = Some (Done x) \<and> f x = Some (Done y))"
  by (auto simp: also_then_def split: option.split outcome.split)

lemma skip_Done: "skip v = Done w \<Longrightarrow>
    w \<noteq> [] \<and> length w \<le> length v \<and> length (tl w) < length w \<and> (hd w = 0 \<or> 32 < hd w)"
  by (induction v) (auto simp: not_le split: if_splits)

lemma copy_loop_shorter: "copy_loop sx cap p out us = Some (q, out') \<Longrightarrow> q \<noteq> [] \<and> length q \<le> length p"
proof (induction "length p" arbitrary: p out us rule: less_induct)
  case less
  show ?case
  proof (cases p)
    case (Cons c r)
    show ?thesis
    proof (cases "c = 0x22 \<or> c = 0 \<or> c \<noteq> 0x5C")
      case True
      then show ?thesis using less.prems less.hyps [of r _ us] Cons by (auto split: if_splits option.splits intro: le_SucI)
    next
      case False
      then obtain x p' out2 us2 where e: "escape sx cap r out us = Some (x # p', out2, us2)"
        "copy_loop sx cap p' out2 us2 = Some (q, out')"
        using less.prems Cons by (auto split: option.splits list.splits)
      with escape_shorter [OF e(1)] less.hyps [OF _ e(2)] Cons show ?thesis by auto
    qed
  qed (use less.prems in simp)
qed

lemma parse_string_shorter: "parse_string alloc sx v = Done (s, p) \<Longrightarrow> length p < length v"
  by (auto simp: parse_string_def le_imp_less_Suc split: list.splits if_splits option.splits
      dest!: copy_loop_shorter intro: le_less_trans [OF diff_le_self])

lemma digits_shorter: "digits f v s = Done (t, p) \<Longrightarrow> length p \<le> length v"
  by (induction f v s rule: digits.induct) (auto split: if_splits)

lemma digits_eats: "digits f (c # r) s = Done (t, p) \<Longrightarrow> isdigit c \<Longrightarrow> length p \<le> length r"
  by (auto dest: digits_shorter)

lemma peek_Done_iff: "peek v f = Done x \<longleftrightarrow> (\<exists>c r. v = c # r \<and> f c r = Done x)"
  by (cases v) auto

lemma number_int_shorter: "number_int v = Done (m, p) \<Longrightarrow> length p \<le> length v"
  by (auto simp: number_int_def peek_Done_iff split: if_splits dest: digits_shorter)

lemma number_frac_shorter: "number_frac D v n = Done (ns, p) \<Longrightarrow> length p \<le> length v"
  by (auto simp: number_frac_def peek_Done_iff split: if_splits dest: digits_shorter)

lemma number_exp_shorter: "number_exp v = Done (m, p) \<Longrightarrow> length p \<le> length v"
  by (auto simp: number_exp_def peek_Done_iff and_then_Done_iff Let_def split: if_splits dest!: digits_shorter)

lemma parse_number_shorter:
  assumes "parse_number D nd v = Done (nd', p)" and "v = c # r" and "c = 0x2D \<or> isdigit c"
  shows "length p < length v"
proof -
  obtain sg v1 v2 m v3 n sc v4 ex where *: "number_sign v = Done (sg, v1)" "number_zero v1 = Done v2"
    "number_int v2 = Done (m, v3)" "number_frac D v3 (d_of_int D (sint m)) = Done ((n, sc), v4)" "number_exp v4 = Done (ex, p)"
    using assms(1) by (auto simp: parse_number_def and_then_Done_iff Let_def)
  have "length v3 < length v"
  proof (cases "c = 0x2D")
    case True
    then have "v1 = r" using *(1) assms(2) by (simp add: number_sign_def)
    moreover have "length v2 \<le> length v1" using *(2) by (auto simp: number_zero_def peek_Done_iff split: if_splits)
    ultimately show ?thesis using number_int_shorter [OF *(3)] assms(2) by simp
  next
    case False
    then have v1: "v1 = c # r" using *(1) assms(2) by (simp add: number_sign_def)
    show ?thesis
    proof (cases "c = 0x30")
      case True
      then have "v2 = r" using *(2) v1 by (simp add: number_zero_def)
      then show ?thesis using number_int_shorter [OF *(3)] assms(2) by simp
    next
      case z: False
      then have v2: "v2 = c # r" using *(2) v1 by (simp add: number_zero_def)
      have "0x31 \<le> c" using z False assms(3) by (auto simp: isdigit_def word_le_nat_alt word_unat_eq_iff)
      then have "digits (\<lambda>m d. m * 10 + word_of_int d) (c # r) 0 = Done (m, v3)"
        using *(3) v2 False assms(3) by (auto simp: number_int_def isdigit_def split: if_splits)
      then have "length v3 \<le> length r" by (rule digits_eats) (use False assms(3) in simp)
      then show ?thesis using assms(2) by simp
    qed
  qed
  with number_frac_shorter [OF *(4)] number_exp_shorter [OF *(5)] show ?thesis by simp
qed

lemma has_prefix_shorter: "has_prefix v lit = Done True \<Longrightarrow> length lit \<le> length v"
  by (induction v lit rule: has_prefix.induct) (auto split: if_splits)

lemma lit_lengths: "length lit_null = 4" "length lit_false = 5" "length lit_true = 4"
  by (simp_all add: lit_null_def lit_false_def lit_true_def)

lemma parse_word_shorter: "parse_word nd v = Done (Some (item, p)) \<Longrightarrow> length p < length v"
  by (auto simp: parse_word_def and_then_Done_iff lit_lengths split: if_splits dest!: has_prefix_shorter)

lemma hd_tl_length: "v \<noteq> [] \<Longrightarrow> length (tl v) < length v"
  by (cases v) simp_all

lemma parse_value_shorter:
  "parse_value alloc sx D fuel nd v = Some (Done (item, p)) \<Longrightarrow> length p < length v"
  "parse_elements alloc sx D fuel cs v = Some (Done (cs', p)) \<Longrightarrow> length p < length v"
  "parse_members alloc sx D fuel cs v = Some (Done (cs', p)) \<Longrightarrow> length p < length v"
proof (induction fuel arbitrary: nd v item p cs cs')
  case (Suc fuel)
  {
    case 1
    show ?case
    proof (cases "parse_word nd v")
      case w: (Done w)
      show ?thesis
      proof (cases w)
        case None
        with 1 w obtain c r where v: "v = c # r" by (cases v) auto
        have "length p < length v" if "skip r = Done v'" "p = tl v'" for v'
          using skip_Done [OF that(1)] that(2) v by auto
        moreover have "length p < length v" if "skip r = Done v'" "length p < length v'" for v'
          using skip_Done [OF that(1)] that(2) v by auto
        ultimately show ?thesis using 1 w None v Suc.IH(2,3) parse_string_shorter [of alloc sx v]
            parse_number_shorter [OF _ v]
          by (auto simp: also_then_Done_iff split: if_splits)
      qed (use 1 w parse_word_shorter in auto)
    qed (use 1 in simp_all)
  next
    case 2
    then obtain nd' v1 item v2 v3 where *: "skip v = Done v1" "parse_value alloc sx D fuel nd' v1 = Some (Done (item, v2))"
      "skip v2 = Done v3" "parse_elements alloc sx D fuel (cs @ [item]) (tl v3) = Some (Done (cs', p)) \<or> p = tl v3"
      by (auto simp: also_then_Done_iff split: if_splits)
    from *(4) Suc.IH(2) have "length p \<le> length (tl v3)" by (auto intro: less_imp_le simp del: length_tl)
    then show ?case using Suc.IH(1) [OF *(2)] skip_Done [OF *(1)] skip_Done [OF *(3)] by linarith
  next
    case 3
    then obtain nd' v1 k v2 v3 v4 item v5 v6 where *: "skip v = Done v1" "parse_string alloc sx v1 = Done (k, v2)"
      "skip v2 = Done v3" "skip (tl v3) = Done v4" "parse_value alloc sx D fuel nd' v4 = Some (Done (item, v5))"
      "skip v5 = Done v6" "parse_members alloc sx D fuel (cs @ [item]) (tl v6) = Some (Done (cs', p)) \<or> p = tl v6"
      by (auto simp: also_then_Done_iff split: if_splits)
    from *(7) Suc.IH(3) have "length p \<le> length (tl v6)" by (auto intro: less_imp_le simp del: length_tl)
    then show ?case using parse_string_shorter [OF *(2)] Suc.IH(1) [OF *(5)] skip_Done [OF *(1)] skip_Done [OF *(3)]
        skip_Done [OF *(4)] skip_Done [OF *(6)] by linarith
  }
qed simp_all

lemma parse_enough:
  "2 * length v + 1 \<le> fuel \<Longrightarrow> parse_value alloc sx D fuel nd v \<noteq> None"
  "2 * length v + 2 \<le> fuel \<Longrightarrow> parse_elements alloc sx D fuel cs v \<noteq> None"
  "2 * length v + 2 \<le> fuel \<Longrightarrow> parse_members alloc sx D fuel cs v \<noteq> None"
proof (induction fuel arbitrary: nd v cs)
  case (Suc fuel)
  {
    case 1
    have "parse_elements alloc sx D fuel [] v' \<noteq> None" "parse_members alloc sx D fuel [] v' \<noteq> None"
      if "skip r = Done v'" "v = c # r" for c r v'
      using skip_Done [OF that(1)] that(2) 1 Suc.IH(2,3) by auto
    then show ?case by (auto simp: also_then_None_iff simp del: not_None_eq split: option.splits list.splits if_splits)
  next
    case 2
    have "parse_value alloc sx D fuel nd v1 \<noteq> None" if "skip v = Done v1" for nd v1
      using skip_Done [OF that] 2 Suc.IH(1) by auto
    moreover have "parse_elements alloc sx D fuel cs (tl v3) \<noteq> None"
      if "skip v = Done v1" "parse_value alloc sx D fuel nd v1 = Some (Done (item, v2))" "skip v2 = Done v3" for nd v1 item v2 v3 cs
      using skip_Done [OF that(1)] parse_value_shorter(1) [OF that(2)] skip_Done [OF that(3)] 2 by (intro Suc.IH(2)) linarith
    ultimately show ?case by (auto simp: also_then_None_iff simp del: not_None_eq split: if_splits)
  next
    case 3
    have "parse_value alloc sx D fuel nd v4 \<noteq> None"
      if "skip v = Done v1" "parse_string alloc sx v1 = Done (k, v2)" "skip v2 = Done v3" "skip (tl v3) = Done v4" for nd v1 k v2 v3 v4
      using skip_Done [OF that(1)] parse_string_shorter [OF that(2)] skip_Done [OF that(3)] skip_Done [OF that(4)] 3
      by (intro Suc.IH(1)) linarith
    moreover have "parse_members alloc sx D fuel cs (tl v6) \<noteq> None"
      if "skip v = Done v1" "parse_string alloc sx v1 = Done (k, v2)" "skip v2 = Done v3" "skip (tl v3) = Done v4"
        "parse_value alloc sx D fuel nd v4 = Some (Done (item, v5))" "skip v5 = Done v6" for nd v1 k v2 v3 v4 item v5 v6 cs
      using skip_Done [OF that(1)] parse_string_shorter [OF that(2)] skip_Done [OF that(3)] skip_Done [OF that(4)]
        parse_value_shorter(1) [OF that(5)] skip_Done [OF that(6)] 3
      by (intro Suc.IH(3)) linarith
    ultimately show ?case by (auto simp: also_then_None_iff simp del: not_None_eq split: if_splits)
  }
qed simp_all

text \<open>More fuel never changes a result.\<close>

lemma also_then_mono: "also_then r f = Some y \<Longrightarrow> (\<And>x. r = Some (Done x) \<Longrightarrow> f x = Some y \<Longrightarrow> g x = Some y) \<Longrightarrow> also_then r g = Some y"
  by (auto simp: also_then_def split: option.splits outcome.splits)

lemma also_then_mono2: "also_then r f = Some y \<Longrightarrow> (\<And>z. r = Some z \<Longrightarrow> r' = Some z) \<Longrightarrow> (\<And>x. f x = Some y \<Longrightarrow> g x = Some y) \<Longrightarrow> also_then r' g = Some y"
  by (auto simp: also_then_def split: option.splits outcome.splits)

lemma parse_more_fuel:
  "parse_value alloc sx D fuel nd v = Some x \<Longrightarrow> parse_value alloc sx D (Suc fuel) nd v = Some x"
  "parse_elements alloc sx D fuel cs v = Some y \<Longrightarrow> parse_elements alloc sx D (Suc fuel) cs v = Some y"
  "parse_members alloc sx D fuel cs v = Some y \<Longrightarrow> parse_members alloc sx D (Suc fuel) cs v = Some y"
proof (induction fuel arbitrary: nd v x y cs)
  case (Suc fuel)
  {
    case 1
    from 1 show ?case
      unfolding parse_value.simps(2) [of _ _ _ "Suc fuel"] parse_value.simps(2) [of _ _ _ fuel]
      by (rule also_then_mono) (auto split: option.splits list.splits if_splits elim!: also_then_mono2 intro: Suc.IH simp del: parse_value.simps parse_elements.simps parse_members.simps)
  next
    case 2
    show ?case
      by (subst parse_elements.simps(2), rule also_then_mono2 [OF 2 [unfolded parse_elements.simps(2)]])
        (assumption | erule also_then_mono2 Suc.IH | clarsimp split: if_splits simp del: also_then_simps parse_value.simps parse_elements.simps parse_members.simps)+
  next
    case 3
    show ?case
      by (subst parse_members.simps(2), rule also_then_mono2 [OF 3 [unfolded parse_members.simps(2)]])
        (assumption | erule also_then_mono2 Suc.IH | clarsimp split: if_splits simp del: also_then_simps parse_value.simps parse_elements.simps parse_members.simps)+
  }
qed simp_all

lemma parse_plus_fuel:
  "parse_value alloc sx D fuel nd v = Some x \<Longrightarrow> parse_value alloc sx D (fuel + k) nd v = Some x"
  by (induction k) (simp_all add: parse_more_fuel(1) del: parse_value.simps)

section \<open>What the parser builds\<close>

definition number_end :: "byte \<Rightarrow> bool" where
  "number_end c \<longleftrightarrow> \<not> isdigit c \<and> c \<noteq> 0x2E \<and> c \<noteq> 0x65 \<and> c \<noteq> 0x45"

text \<open>A number that is printed as a text that parses back to it.\<close>

definition number_ok :: "'d dbl \<Rightarrow> 'd node \<Rightarrow> bool" where
  "number_ok D nd \<longleftrightarrow>
     nd = (zero_node D)\<lparr>valuedouble := valuedouble nd, valueint := valueint nd, valuelong := valuelong nd,
       jtype := cJSON_Number, jname := jname nd\<rparr> \<and>
     (\<exists>c t. print_number (\<lambda>_. True) D nd = Done (c # t) \<and> (c = 0x2D \<or> isdigit c) \<and>
       (\<forall>nd' e r. number_end e \<longrightarrow> parse_number D nd' (c # t @ e # r) =
         Done (nd'\<lparr>valuedouble := valuedouble nd, valueint := valueint nd, valuelong := valuelong nd,
           jtype := cJSON_Number\<rparr>, e # r)))"

definition name_ok :: "bool \<Rightarrow> byte list option \<Rightarrow> bool" where
  "name_ok named k = (case k of None \<Rightarrow> \<not> named | Some s \<Rightarrow> named \<and> 0 \<notin> set s)"

fun as_parsed :: "'d dbl \<Rightarrow> bool \<Rightarrow> 'd cJSON \<Rightarrow> bool" where
  "as_parsed D named (Item nd cs) \<longleftrightarrow>
     name_ok named (jname nd) \<and>
     (let z = (zero_node D)\<lparr>jname := jname nd\<rparr>; t = jtype nd in
      if t = cJSON_NULL \<or> t = cJSON_False then nd = z\<lparr>jtype := t\<rparr> \<and> cs = []
      else if t = cJSON_True then nd = z\<lparr>jtype := t, valueint := 1\<rparr> \<and> cs = []
      else if t = cJSON_Number then number_ok D nd \<and> cs = []
      else if t = cJSON_String
      then (case valuestring nd of None \<Rightarrow> False
            | Some s \<Rightarrow> 0 \<notin> set s \<and> nd = z\<lparr>valuestring := Some s, jtype := t\<rparr> \<and> cs = [])
      else if t = cJSON_Array then nd = z\<lparr>jtype := t\<rparr> \<and> list_all (as_parsed D False) cs
      else if t = cJSON_Object then nd = z\<lparr>jtype := t\<rparr> \<and> list_all (as_parsed D True) cs
      else False)"

section \<open>What the printer writes\<close>

fun render :: "'d dbl \<Rightarrow> bool \<Rightarrow> nat \<Rightarrow> 'd cJSON \<Rightarrow> byte list" where
  "render D fmt depth (Item nd cs) =
     (let t = jtype nd in
      if t = cJSON_NULL then lit_null else if t = cJSON_False then lit_false else if t = cJSON_True then lit_true
      else if t = cJSON_Number then (case print_number (\<lambda>_. True) D nd of Done s \<Rightarrow> s | _ \<Rightarrow> [])
      else if t = cJSON_String then quoted (the (valuestring nd))
      else if t = cJSON_Array then [0x5B] @ compose_array fmt (map (render D fmt (depth + 1)) cs) @ [0x5D]
      else [0x7B] @ (if fmt then [0x0A] else []) @
        compose_object fmt (depth + 1) (map (\<lambda>c. (quoted (the (jname (fields c))), render D fmt (depth + 1) c)) cs) @
        (if fmt then replicate depth 0x09 else []) @ [0x7D])"

lemma first_failure_Done: "first_failure (map Done xs) = Done xs"
  by (induction xs) simp_all

lemma any_failure_Done: "any_failure (map Done xs) = Done xs"
  by (induction xs) simp_all

lemma compose_array_length: "length (compose_array fmt es) \<le> sum_list (map (\<lambda>e. length e + 2 + (if fmt then 1 else 0)) es)"
  by (induction fmt es rule: compose_array.induct) auto

lemma compose_object_length:
  "length (compose_object fmt depth es) \<le>
     sum_list (map (\<lambda>(k, e). length e + length k + 2 + (if fmt then 2 + depth else 0)) es)"
  by (induction fmt depth es rule: compose_object.induct) auto

lemma print_array_Done:
  "rs = map Done es \<Longrightarrow> print_array (\<lambda>_. True) fmt rs = Done ([0x5B] @ compose_array fmt es @ [0x5D])"
  using compose_array_length [of fmt es] by (simp add: print_array_def first_failure_Done write_out_def)

lemma print_object_Done:
  "rs = map Done es \<Longrightarrow> print_object (\<lambda>_. True) fmt (depth + 1) rs =
    Done ([0x7B] @ (if fmt then [0x0A] else []) @ compose_object fmt (depth + 1) es @
      (if fmt then replicate depth 0x09 else []) @ [0x7D])"
  using compose_object_length [of fmt "depth + 1" es] by (cases fmt) (auto simp: print_object_def any_failure_Done write_out_def)

lemma as_parsed_name: "as_parsed D named c \<Longrightarrow> name_ok named (jname (fields c))"
  by (cases c) (simp only: as_parsed.simps cJSON.sel)

lemma name_ok_True: "name_ok True k \<longleftrightarrow> (\<exists>s. k = Some s \<and> 0 \<notin> set s)" "name_ok False k \<longleftrightarrow> k = None"
  by (auto simp: name_ok_def split: option.splits)

lemma print_render: "as_parsed D named item \<Longrightarrow> print_value (\<lambda>_. True) D fmt depth item = Done (render D fmt depth item)"
proof (induction item arbitrary: named depth)
  case (Item nd cs)
  have t: "jtype nd \<in> {0, 1, 2, 3, 4, 5, 6}" and "jtype nd AND 255 = jtype nd"
    using Item.prems by (auto simp: json_types Let_def split: if_splits)
  then show ?case
  proof (cases "jtype nd \<in> {5, 6}")
    case False
    with Item.prems t show ?thesis
      by (auto simp: json_types Let_def strdup_lit_def number_ok_def print_string_Some split: if_splits option.splits)
  next
    case True
    have a: "map (print_value (\<lambda>_. True) D fmt (depth + 1)) cs = map Done (map (render D fmt (depth + 1)) cs)"
      using Item.IH Item.prems True by (auto simp: json_types Let_def list_all_iff split: if_splits)
    have o: "map (\<lambda>c. pair_up (print_string_ptr (\<lambda>_. True) (jname (fields c))) (print_value (\<lambda>_. True) D fmt (depth + 1) c)) cs =
        map Done (map (\<lambda>c. (quoted (the (jname (fields c))), render D fmt (depth + 1) c)) cs)" if "jtype nd = 6"
    proof -
      have "as_parsed D True c" if "c \<in> set cs" for c
        using Item.prems that \<open>jtype nd = 6\<close> by (auto simp: json_types Let_def list_all_iff)
      then have "(\<exists>k. jname (fields c) = Some k) \<and> print_value (\<lambda>_. True) D fmt (depth + 1) c = Done (render D fmt (depth + 1) c)"
        if "c \<in> set cs" for c
        using that Item.IH as_parsed_name name_ok_True(1) by metis
      then have "pair_up (print_string_ptr (\<lambda>_. True) (jname (fields c))) (print_value (\<lambda>_. True) D fmt (depth + 1) c) =
          Done (quoted (the (jname (fields c))), render D fmt (depth + 1) c)" if "c \<in> set cs" for c
        using that by (force simp: pair_up_def print_string_Some)
      then show ?thesis by simp
    qed
    show ?thesis
    proof (cases "jtype nd = 5")
      case True
      then show ?thesis using print_array_Done [OF a] by (simp add: json_types Let_def)
    next
      case False
      then have "jtype nd = 6" using True by simp
      then show ?thesis using print_object_Done [OF o, of fmt depth] by (simp add: json_types Let_def)
    qed
  qed
qed

section \<open>Reading it back\<close>

definition blank :: "byte \<Rightarrow> bool" where
  "blank c \<longleftrightarrow> c \<noteq> 0 \<and> c \<le> 32"

lemma skip_blanks: "list_all blank ws \<Longrightarrow> skip (ws @ v) = skip v"
  by (induction ws) (auto simp: blank_def)

lemma skip_stop: "\<not> blank c \<Longrightarrow> skip (c # r) = Done (c # r)"
  by (auto simp: blank_def)

lemma blank_consts: "blank 0x20" "blank 0x0A" "blank 0x09" "\<not> blank 0x22" "\<not> blank 0x2C" "\<not> blank 0x3A" "\<not> blank 0x5B" "\<not> blank 0x5D"
  "\<not> blank 0x7B" "\<not> blank 0x7D"
  by (simp_all add: blank_def)

text \<open>How a rendered item starts.\<close>

lemma render_start:
  assumes "as_parsed D named item"
  shows "\<exists>c r. render D fmt depth item = c # r \<and> \<not> blank c \<and> c \<noteq> 0x5D \<and> c \<noteq> 0x7D"
proof (cases item)
  case (Item nd cs)
  with assms show ?thesis
    by (auto simp: json_types Let_def number_ok_def isdigit_def blank_def quoted_def lit_null_def lit_false_def lit_true_def
        word_le_nat_alt split: if_splits option.splits)
qed

lemma parse_word_None: "c \<noteq> 0x6E \<Longrightarrow> c \<noteq> 0x66 \<Longrightarrow> c \<noteq> 0x74 \<Longrightarrow> parse_word nd (c # r) = Done None"
  by (simp add: parse_word_def lit_null_def lit_false_def lit_true_def)

lemma parse_word_lits:
  "parse_word nd (lit_null @ r) = Done (Some (Item (nd\<lparr>jtype := cJSON_NULL\<rparr>) [], r))"
  "parse_word nd (lit_false @ r) = Done (Some (Item (nd\<lparr>jtype := cJSON_False\<rparr>) [], r))"
  "parse_word nd (lit_true @ r) = Done (Some (Item (nd\<lparr>jtype := cJSON_True, valueint := 1\<rparr>) [], r))"
  by (simp_all add: parse_word_def lit_null_def lit_false_def lit_true_def)

text \<open>An item reads back from its text, whatever follows that ends a number.\<close>

definition reads_back :: "sscanf4 \<Rightarrow> 'd dbl \<Rightarrow> (nat \<Rightarrow> 'd cJSON \<Rightarrow> byte list) \<Rightarrow> 'd cJSON \<Rightarrow> bool" where
  "reads_back sx D text item \<longleftrightarrow>
     (\<forall>fuel depth t e r. number_end e \<longrightarrow> 2 * length (text depth item @ e # r) + 1 \<le> fuel \<longrightarrow>
        parse_value (\<lambda>_. True) sx D fuel ((zero_node D)\<lparr>jtype := t, jname := jname (fields item)\<rparr>) (text depth item @ e # r) =
        Some (Done (item, e # r)))"

lemma New_Item [simp]: "cJSON_New_Item (\<lambda>_. True) D = Done (zero_node D)"
  by (simp add: cJSON_New_Item_def)

lemma number_end_consts: "number_end 0x2C" "number_end 0x5D" "number_end 0x7D" "number_end 0x0A" "number_end 0"
  by (simp_all add: number_end_def isdigit_def)

lemma elements_read_back:
  assumes "\<forall>c\<in>set cs. reads_back sx D text c \<and> jname (fields c) = None \<and>
      (\<exists>b r. text depth c = b # r \<and> \<not> blank b)"
    and "cs \<noteq> []" and "list_all blank ws"
    and "2 * length (ws @ compose_array fmt (map (text depth) cs) @ 0x5D # r) + 2 \<le> fuel"
  shows "parse_elements (\<lambda>_. True) sx D fuel acc (ws @ compose_array fmt (map (text depth) cs) @ 0x5D # r) =
    Some (Done (acc @ cs, r))"
  using assms
proof (induction cs arbitrary: fuel acc ws)
  case (Cons c cs)
  obtain f where f: "fuel = Suc f" using Cons.prems(4) by (cases fuel) simp_all
  obtain b t where b: "text depth c = b # t" "\<not> blank b" using Cons.prems(1) by auto
  have z: "(zero_node D)\<lparr>jtype := 0, jname := jname (fields c)\<rparr> = zero_node D"
    using Cons.prems(1) by (simp add: zero_node_def)
  have rb: "parse_value (\<lambda>_. True) sx D f (zero_node D) (text depth c @ e # v) = Some (Done (c, e # v))"
    if "number_end e" "2 * length (text depth c @ e # v) + 1 \<le> f" for e v
    using Cons.prems(1) that z unfolding reads_back_def by (metis list.set_intros(1))
  show ?case
  proof (cases cs)
    case Nil
    with Cons.prems(3,4) f b rb [of "0x5D" r] show ?thesis
      by (simp add: skip_blanks skip_stop blank_consts number_end_consts del: skip.simps)
  next
    case (Cons c' cs')
    let ?ws = "if fmt then [0x20] else []"
    let ?rest = "?ws @ compose_array fmt (map (text depth) cs) @ 0x5D # r"
    have eq: "compose_array fmt (map (text depth) (c # cs)) @ 0x5D # r = text depth c @ 0x2C # ?rest"
      using Cons by simp
    have "parse_elements (\<lambda>_. True) sx D f (acc @ [c]) ?rest = Some (Done ((acc @ [c]) @ cs, r))"
    proof (rule Cons.IH)
      show "list_all blank ?ws" by (simp add: blank_consts)
      show "2 * length ?rest + 2 \<le> f" using Cons.prems(4) f unfolding eq by simp
    qed (use Cons.prems(1) Cons in auto)
    moreover have "parse_value (\<lambda>_. True) sx D f (zero_node D) (text depth c @ 0x2C # ?rest) = Some (Done (c, 0x2C # ?rest))"
      by (rule rb) (use Cons.prems(4) f in \<open>simp_all only: eq number_end_consts\<close>, simp)
    ultimately show ?thesis using Cons.prems(3) f b unfolding eq
      by (simp add: skip_blanks skip_stop blank_consts del: skip.simps)
  qed
qed simp

lemma members_read_back:
  assumes "sscanf_ok sx"
    and "\<forall>c\<in>set cs. reads_back sx D text c \<and> (\<exists>k. jname (fields c) = Some k \<and> 0 \<notin> set k) \<and>
      (\<exists>b r. text depth c = b # r \<and> \<not> blank b)"
    and "cs \<noteq> []" and "list_all blank ws" and "tl_ws = (if fmt then replicate m 0x09 else [])"
    and "2 * length (ws @ compose_object fmt d (map (\<lambda>c. (quoted (the (jname (fields c))), text depth c)) cs) @
        tl_ws @ 0x7D # r) + 2 \<le> fuel"
  shows "parse_members (\<lambda>_. True) sx D fuel acc
      (ws @ compose_object fmt d (map (\<lambda>c. (quoted (the (jname (fields c))), text depth c)) cs) @ tl_ws @ 0x7D # r) =
    Some (Done (acc @ cs, r))"
  using assms(2-)
proof (induction cs arbitrary: fuel acc ws)
  case (Cons c cs)
  let ?obj = "\<lambda>cs. compose_object fmt d (map (\<lambda>c. (quoted (the (jname (fields c))), text depth c)) cs) @ tl_ws @ 0x7D # r"
  let ?tabs = "if fmt then replicate d 0x09 else [] :: byte list" and ?tab = "if fmt then [0x09] else [] :: byte list"
  let ?nl = "if fmt then [0x0A] else [] :: byte list"
  obtain f where f: "fuel = Suc f" using Cons.prems(5) by (cases fuel) simp_all
  obtain b t where b: "text depth c = b # t" "\<not> blank b" using Cons.prems(1) by auto
  obtain k where k: "jname (fields c) = Some k" "0 \<notin> set k" using Cons.prems(1) by auto
  have ws: "list_all blank (ws @ ?tabs)" "list_all blank ?tab" "list_all blank ?nl" "list_all blank tl_ws"
    using Cons.prems(3,4) by (auto simp: list_all_iff blank_consts)
  let ?fin = "(if cs \<noteq> [] then [0x2C] else []) @ ?nl @ ?obj cs"
  have eq: "ws @ ?obj (c # cs) = (ws @ ?tabs) @ quoted k @ 0x3A # ?tab @ text depth c @ ?fin"
    using k(1) by simp
  obtain e v where ev: "?fin = e # v" "number_end e"
    using Cons.prems(4) by (cases "cs = []"; cases fmt) (auto simp: number_end_consts)
  have q: "skip ((ws @ ?tabs) @ quoted k @ w) = Done (quoted k @ w)" for w
    using ws(1) by (simp only: skip_blanks) (simp add: quoted_def skip_stop blank_consts del: skip.simps)
  have s: "parse_string (\<lambda>_. True) sx (quoted k @ w) = Done (k, w)" for w
    by (rule parse_quoted [OF assms(1) k(2)]) simp
  have c1: "skip (0x3A # w) = Done (0x3A # w)" for w by (simp add: skip_stop blank_consts del: skip.simps)
  have v: "skip (?tab @ text depth c @ ?fin) = Done (text depth c @ ?fin)"
    using ws(2) b by (simp only: skip_blanks) (simp add: skip_stop del: skip.simps)
  have len: "length (text depth c @ ?fin) + 3 \<le> length (ws @ ?obj (c # cs))"
    unfolding eq by (simp add: quoted_def)
  have p: "parse_value (\<lambda>_. True) sx D f ((zero_node D)\<lparr>jtype := cJSON_String, jname := Some k\<rparr>) (text depth c @ ?fin) =
      Some (Done (c, ?fin))"
    using Cons.prems(1) k(1) ev(2) len Cons.prems(5) f unfolding ev(1) reads_back_def by auto
  have start: "parse_members (\<lambda>_. True) sx D fuel acc (ws @ ?obj (c # cs)) =
      also_then (Some (skip ?fin)) (\<lambda>v.
        if hd v = 0x2C then parse_members (\<lambda>_. True) sx D f (acc @ [c]) (tl v)
        else if hd v = 0x7D then Some (Done (acc @ [c], tl v)) else Some (Fail (Some v)))"
    unfolding eq f by (simp only: parse_members.simps New_Item also_then_simps q s c1 list.sel v p prod.case if_False simp_thms)
  show ?case
  proof (cases "cs = []")
    case True
    then have "skip ?fin = Done (0x7D # r)"
      using ws(3,4) by (simp add: skip_blanks skip_stop blank_consts del: skip.simps)
    with start True show ?thesis by simp
  next
    case False
    have e: "?fin = 0x2C # ?nl @ ?obj cs" using False by simp
    have "parse_members (\<lambda>_. True) sx D f (acc @ [c]) (?nl @ ?obj cs) = Some (Done ((acc @ [c]) @ cs, r))"
      by (rule Cons.IH [OF _ False ws(3) Cons.prems(4)]) (use Cons.prems(1,5) len f e in auto)
    moreover have "skip ?fin = Done ?fin" unfolding e by (simp add: skip_stop blank_consts del: skip.simps)
    ultimately show ?thesis using start e by simp
  qed
qed simp

end
