(* ===== verification/CJsonNumber.thy ===== *)
theory CJsonNumber
  imports CJsonProps
begin

text \<open>
  Numbers of \<^verbatim>\<open>json/cJSON.c\<close>: an \<open>int\<close> is printed by \<open>print_number\<close> within its 21 bytes and
  parsed back by \<open>parse_number\<close>, for any \<open>double\<close> arithmetic that is exact on such integers.
\<close>

text \<open>Doubles that hold the small integers exactly, as IEEE 754 binary64 does up to 2 ^ 53.\<close>

definition exact_ints :: "'d dbl \<Rightarrow> bool" where
  "exact_ints D \<longleftrightarrow>
     (\<forall>a b. \<bar>a\<bar> \<le> 2 ^ 31 \<and> \<bar>b\<bar> \<le> 2 ^ 31 \<longrightarrow>
        (d_le D (d_of_int D a) (d_of_int D b) \<longleftrightarrow> a \<le> b) \<and> d_to_int D (d_of_int D a) = word_of_int a) \<and>
     (\<forall>a s. \<bar>a\<bar> \<le> 2 ^ 31 \<and> \<bar>s\<bar> = 1 \<and> (0 < a \<or> s = 1) \<longrightarrow> d_mul D (d_of_int D s) (d_of_int D a) = d_of_int D (s * a)) \<and>
     (\<forall>a. \<bar>a\<bar> \<le> 2 ^ 31 \<longrightarrow>
        d_mul D (d_of_int D a) (d_pow10 D (d_add D (d_of_int D 0) (d_of_int D 0))) = d_of_int D a \<and>
        d_le D (d_abs D (d_sub D (d_of_int D a) (d_of_int D a))) (d_epsilon D))"

text \<open>The node that \<open>parse_number\<close> makes of an integer: \<open>valuelong\<close> holds its absolute value.\<close>

definition int_node :: "'d dbl \<Rightarrow> byte list option \<Rightarrow> int32 \<Rightarrow> 'd node" where
  "int_node D k i = (zero_node D)\<lparr>valuedouble := d_of_int D (sint i), valueint := i,
     valuelong := word_of_int \<bar>sint i\<bar>, jtype := cJSON_Number, jname := k\<rparr>"

lemma digit_byte:
  assumes "d < 10"
  shows "uint (word_of_nat (48 + d) :: byte) = 48 + int d" and "isdigit (word_of_nat (48 + d))"
proof -
  have "d \<in> {0, 1, 2, 3, 4, 5, 6, 7, 8, 9}" using assms by auto
  then have "uint (word_of_nat (48 + d) :: byte) = 48 + int d \<and> isdigit (word_of_nat (48 + d))"
    by (elim insertE emptyE) (simp_all add: isdigit_def)
  then show "uint (word_of_nat (48 + d) :: byte) = 48 + int d" and "isdigit (word_of_nat (48 + d))" by simp_all
qed

lemma digits_dec: "digits (\<lambda>m d. m * 10 + word_of_int d) (dec n @ v) (0 :: int64) = digits (\<lambda>m d. m * 10 + word_of_int d) v (word_of_nat n)"
proof (induction n arbitrary: v rule: less_induct)
  case (less n)
  have d: "isdigit (word_of_nat (48 + n mod 10))" "uint (word_of_nat (48 + n mod 10) :: byte) = 48 + int (n mod 10)"
    by (rule digit_byte, simp)+
  show ?case
  proof (cases "n < 10")
    case True
    with d show ?thesis by (simp add: dec.simps [of n] del: of_nat_add of_nat_mod)
  next
    case False
    then have "n div 10 < n" by simp
    have "word_of_nat (n div 10) * 10 + word_of_int (int (n mod 10)) = (word_of_nat (n div 10 * 10 + n mod 10) :: int64)"
      by (simp only: of_nat_add of_nat_mult of_nat_numeral of_int_of_nat_eq)
    then have "word_of_nat (n div 10) * 10 + word_of_int (int (n mod 10)) = (word_of_nat n :: int64)"
      by (simp only: div_mult_mod_eq)
    with less.IH [OF \<open>n div 10 < n\<close>, of "word_of_nat (48 + n mod 10) # v"] d False show ?thesis
      by (simp add: dec.simps [of n] del: of_nat_add of_nat_mod)
  qed
qed

lemma dec_start: "0 < n \<Longrightarrow> \<exists>c t. dec n = c # t \<and> 0x31 \<le> c \<and> c \<le> 0x39"
proof (induction n rule: less_induct)
  case (less n)
  show ?case
  proof (cases "n < 10")
    case True
    with less.prems show ?thesis by (simp add: dec.simps [of n] word_le_def digit_byte(1) del: of_nat_add)
  next
    case False
    then obtain c t where "dec (n div 10) = c # t" "0x31 \<le> c" "c \<le> 0x39"
      using less.IH [of "n div 10"] by (auto simp: div_greater_zero_iff)
    with False show ?thesis by (simp add: dec.simps [of n])
  qed
qed

lemma dec_length: "n < 10 ^ Suc k \<Longrightarrow> length (dec n) \<le> Suc k"
proof (induction k arbitrary: n)
  case 0
  then show ?case by (simp add: dec.simps [of n])
next
  case (Suc k)
  show ?case
  proof (cases "n < 10")
    case False
    have "n div 10 < 10 ^ Suc k" using Suc.prems by (simp add: less_mult_imp_div_less)
    with Suc.IH False show ?thesis by (simp add: dec.simps [of n])
  qed (simp add: dec.simps [of n])
qed

lemma number_tail:
  assumes "number_end e"
  shows "number_frac D (e # r) n = Done ((n, d_of_int D 0), e # r)" "number_exp (e # r) = Done (0, e # r)"
    "\<not> (0x31 \<le> e \<and> e \<le> 0x39)" "e \<noteq> 0x30"
  using assms by (auto simp: number_end_def number_frac_def number_exp_def isdigit_def word_le_def)

lemma number_int_dec:
  assumes "number_end e"
  shows "and_then (number_zero (dec n @ e # r)) number_int = Done (word_of_nat n, e # r)"
proof (cases "n = 0")
  case True
  then show ?thesis using number_tail(3) [OF assms] by (auto simp: number_zero_def number_int_def dec.simps [of 0])
next
  case False
  then obtain c t where c: "dec n = c # t" "0x31 \<le> c" "c \<le> 0x39" using dec_start [of n] by auto
  have "c \<noteq> 0x30" using c(2) by (auto simp: word_le_def)
  moreover have "\<not> isdigit e" using assms by (simp add: number_end_def)
  ultimately show ?thesis using c digits_dec [of n "e # r"] by (simp add: number_zero_def number_int_def del: digits.simps(2)) simp
qed

lemma exact_ints_facts:
  assumes "exact_ints D" and "\<bar>a\<bar> \<le> 2 ^ 31"
  shows "\<bar>s\<bar> = 1 \<Longrightarrow> 0 < a \<or> s = 1 \<Longrightarrow> d_mul D (d_of_int D s) (d_of_int D a) = d_of_int D (s * a)"
    and "d_mul D (d_of_int D a) (d_pow10 D (d_add D (d_of_int D 0) (d_of_int D 0))) = d_of_int D a"
    and "d_to_int D (d_of_int D a) = word_of_int a"
  using assms unfolding exact_ints_def by blast+

lemma digit_one: "0x31 \<le> c \<Longrightarrow> (0x30 :: byte) \<le> c"
  by (auto simp: word_le_def)

lemma number_ok_int:
  assumes "exact_ints D"
  shows "number_ok D (int_node D k i)"
proof -
  let ?a = "sint i" and ?n = "nat \<bar>sint i\<bar>"
  have r: "- (2 ^ 31) \<le> ?a" "?a < 2 ^ 31" using sint_range_size [of i] by (simp_all add: word_size)
  then have abs: "\<bar>?a\<bar> \<le> 2 ^ 31" by auto
  have n: "?n < 10 ^ Suc 9" using r by simp
  have len: "length (fmt_d ?a) + 1 \<le> 21" using dec_length [OF n] by (auto simp: fmt_d_def)
  have pr: "print_number (\<lambda>_. True) D (int_node D k i) = Done (fmt_d ?a)"
    using assms(1) r abs len by (simp add: print_number_def int_node_def zero_node_def exact_ints_def sprintf_def Let_def)
  have neg: "nat (- ?a) = ?n" if "?a < 0" using that by simp
  have pos: "nat ?a = ?n" if "0 \<le> ?a" using that by simp
  have ct: "\<exists>c t. fmt_d ?a = c # t \<and> (c = 0x2D \<or> isdigit c)"
  proof (cases "?a \<le> 0")
    case True
    then show ?thesis by (auto simp: fmt_d_def dec.simps [of 0] isdigit_def)
  next
    case False
    then have "0 < ?n" "fmt_d ?a = dec ?n" using pos by (simp_all add: fmt_d_def)
    with dec_start [of ?n] show ?thesis unfolding isdigit_def by (metis digit_one)
  qed
  have p: "parse_number D nd (fmt_d ?a @ e # v) = Done (nd\<lparr>valuedouble := d_of_int D ?a, valueint := i,
      valuelong := word_of_int \<bar>?a\<bar>, jtype := cJSON_Number\<rparr>, e # v)" if e: "number_end e" for nd e v
  proof -
    let ?sg = "if ?a < 0 then - 1 else 1 :: int"
    have sg: "number_sign (fmt_d ?a @ e # v) = Done (?sg, dec ?n @ e # v)"
    proof (cases "?a < 0")
      case True
      with neg show ?thesis by (simp add: fmt_d_def number_sign_def)
    next
      case False
      then have d: "fmt_d ?a = dec ?n" using pos by (simp add: fmt_d_def)
      have "dec ?n \<noteq> [] \<and> hd (dec ?n) \<noteq> 0x2D"
      proof (cases "?n = 0")
        case False
        then obtain c t where "dec ?n = c # t" "0x31 \<le> c" using dec_start [of ?n] by blast
        then show ?thesis by (auto simp: word_le_def)
      qed (simp add: dec.simps [of 0])
      then show ?thesis unfolding d using False by (cases "dec ?n") (simp_all add: number_sign_def)
    qed
    obtain w where zi: "number_zero (dec ?n @ e # v) = Done w" "number_int w = Done (word_of_nat ?n, e # v)"
      using number_int_dec [OF e, of ?n v] by (auto simp: and_then_Done_iff)
    have n64: "sint (word_of_nat ?n :: int64) = \<bar>?a\<bar>"
      using abs by (simp add: signed_of_int signed_take_bit_int_eq_self)
    have "\<bar>?sg\<bar> = 1" "0 < \<bar>?a\<bar> \<or> ?sg = 1" "?sg * \<bar>?a\<bar> = ?a" by simp_all
    then have m: "d_mul D (d_of_int D ?sg) (d_of_int D \<bar>?a\<bar>) = d_of_int D ?a"
      using exact_ints_facts(1) [OF assms, of "\<bar>?a\<bar>" ?sg] abs by (simp only: abs_abs)
    have q: "d_to_int D (d_of_int D ?a) = i" using exact_ints_facts(3) [OF assms abs] by simp
    show ?thesis
      by (simp only: parse_number_def Let_def sg zi number_tail(1,2) [OF e] n64 m q exact_ints_facts(2) [OF assms abs]
        and_then.simps prod.case signed_0) (simp add: zi)
  qed
  show ?thesis using pr ct p unfolding number_ok_def by (auto simp: int_node_def zero_node_def)
qed

section \<open>Properties\<close>

text \<open>An arithmetic for the examples, on the integers.\<close>

definition whole_dbl :: "int dbl" where
  "whole_dbl = \<lparr>d_of_int = (\<lambda>i. i), d_add = (+), d_sub = (-), d_mul = (*), d_pow10 = (\<lambda>k. 10 ^ nat k),
     d_abs = abs, d_floor = (\<lambda>i. i), d_le = (\<le>), d_lt = (<), d_epsilon = 0, d_micro = 0,
     d_to_int = word_of_int, d_fmt_0f = fmt_d, d_fmt_e = fmt_d, d_fmt_f = fmt_d\<rparr>"

lemma whole_dbl_exact: "exact_ints whole_dbl"
  by (auto simp: exact_ints_def whole_dbl_def)

text \<open>
  C40: every \<open>int\<close> survives printing and parsing as a JSON number: the text fits the 21 bytes of
  \<open>print_number\<close>, and \<open>parse_number\<close> recovers \<open>valuedouble\<close> and \<open>valueint\<close> and stops behind the
  last digit; but \<open>valuelong\<close> is the absolute value, the sign is not applied to it.
\<close>

theorem json_int_roundtrip:
  assumes "exact_ints D" and "number_end e"
  shows "\<exists>t. print_number (\<lambda>_. True) D (int_node D k i) = Done t \<and>
    parse_number D (zero_node D) (t @ e # r) =
      Done ((zero_node D)\<lparr>valuedouble := d_of_int D (sint i), valueint := i,
        valuelong := word_of_int \<bar>sint i\<bar>, jtype := cJSON_Number\<rparr>, e # r)"
proof -
  obtain c t where "print_number (\<lambda>_. True) D (int_node D k i) = Done (c # t)"
    "\<forall>nd' e r. number_end e \<longrightarrow> parse_number D nd' (c # t @ e # r) =
         Done (nd'\<lparr>valuedouble := d_of_int D (sint i), valueint := i, valuelong := word_of_int \<bar>sint i\<bar>,
           jtype := cJSON_Number\<rparr>, e # r)"
    using number_ok_int [OF assms(1), of k i] unfolding number_ok_def int_node_def by auto
  then show ?thesis using assms(2) by (intro exI [of _ "c # t"]) simp
qed

theorem json_int_roundtrip_witness:
  "\<exists>t. print_number (\<lambda>_. True) whole_dbl (int_node whole_dbl None (- 42)) = Done t \<and>
    parse_number whole_dbl (zero_node whole_dbl) (t @ 0x2C # []) =
      Done ((zero_node whole_dbl)\<lparr>valuedouble := d_of_int whole_dbl (sint (- 42 :: int32)), valueint := - 42,
        valuelong := word_of_int \<bar>sint (- 42 :: int32)\<bar>, jtype := cJSON_Number\<rparr>, 0x2C # [])"
  by (rule json_int_roundtrip [OF whole_dbl_exact number_end_consts(1)])

end
