(* ===== verification/CJsonRoundtrip.thy ===== *)
theory CJsonRoundtrip
  imports CJsonNumber
begin

text \<open>
  What \<open>parse_value\<close> builds reads back from what \<open>print_value\<close> writes: each kind of item on its
  own (words, numbers, strings, arrays, objects), then any item by induction.
\<close>


lemma parse_value_Suc:
  assumes "parse_word nd (c # r) = Done None"
  shows "parse_value alloc sx D (Suc fuel) nd (c # r) =
    (if c = 0x22
     then also_then (Some (parse_string alloc sx (c # r))) (\<lambda>(s, p).
       Some (Done (Item (nd\<lparr>valuestring := Some s, jtype := cJSON_String\<rparr>) [], p)))
     else if c = 0x2D \<or> isdigit c
     then also_then (Some (parse_number D nd (c # r))) (\<lambda>(nd, p). Some (Done (Item nd [], p)))
     else if c = 0x5B
     then also_then (Some (skip r)) (\<lambda>v.
       if hd v = 0x5D then Some (Done (Item (nd\<lparr>jtype := cJSON_Array\<rparr>) [], tl v))
       else also_then (parse_elements alloc sx D fuel [] v) (\<lambda>(cs, p).
         Some (Done (Item (nd\<lparr>jtype := cJSON_Array\<rparr>) cs, p))))
     else if c = 0x7B
     then also_then (Some (skip r)) (\<lambda>v.
       if hd v = 0x7D then Some (Done (Item (nd\<lparr>jtype := cJSON_Object\<rparr>) [], tl v))
       else also_then (parse_members alloc sx D fuel [] v) (\<lambda>(cs, p).
         Some (Done (Item (nd\<lparr>jtype := cJSON_Object\<rparr>) cs, p))))
     else Some (Fail (Some (c # r))))"
  by (simp only: parse_value.simps assms also_then_simps option.case list.case)

lemma brackets: "\<not> isdigit 0x5B" "\<not> isdigit 0x7B" "\<not> isdigit 0x22"
  by (simp_all add: isdigit_def)

lemma word_free:
  "c = 0x22 \<or> c = 0x5B \<or> c = 0x7B \<or> c = 0x2D \<or> isdigit c \<Longrightarrow> parse_word nd (c # r) = Done None"
  by (rule parse_word_None) (auto simp: isdigit_def word_le_nat_alt)

text \<open>What \<open>parse_value\<close> does at an opening bracket is \<open>parse_array\<close>, at a brace \<open>parse_object\<close>.\<close>

lemma parse_value_bracket:
  "parse_value alloc sx D (Suc fuel) nd (0x5B # r) = parse_array alloc sx D fuel nd (0x5B # r)"
  "parse_value alloc sx D (Suc fuel) nd (0x7B # r) = parse_object alloc sx D fuel nd (0x7B # r)"
  by (simp_all add: parse_word_None brackets parse_array_def parse_object_def)

lemma parse_value_word:
  "parse_word nd v = Done (Some x) \<Longrightarrow> parse_value alloc sx D (Suc fuel) nd v = Some (Done x)"
  by (simp only: parse_value.simps also_then_simps option.case)

lemma reads_backI:
  assumes "\<And>f depth t e r. number_end e \<Longrightarrow> 2 * length (text depth (Item nd cs) @ e # r) \<le> f \<Longrightarrow>
      parse_value (\<lambda>_. True) sx D (Suc f) ((zero_node D)\<lparr>jtype := t, jname := jname nd\<rparr>) (text depth (Item nd cs) @ e # r) =
      Some (Done (Item nd cs, e # r))"
  shows "reads_back sx D text (Item nd cs)"
  unfolding reads_back_def
proof (intro allI impI)
  fix fuel depth t e r
  assume "number_end e" "2 * length (text depth (Item nd cs) @ e # r) + 1 \<le> fuel"
  then show "parse_value (\<lambda>_. True) sx D fuel ((zero_node D)\<lparr>jtype := t, jname := jname (fields (Item nd cs))\<rparr>)
      (text depth (Item nd cs) @ e # r) = Some (Done (Item nd cs, e # r))"
    using assms [of e depth r "fuel - 1" t] by (cases fuel) simp_all
qed

text \<open>The literals.\<close>

lemma word_reads_back:
  assumes "as_parsed D named (Item nd cs)" and "jtype nd = 0 \<or> jtype nd = 1 \<or> jtype nd = 2"
  shows "reads_back sx D (render D fmt) (Item nd cs)"
proof (rule reads_backI)
  fix f depth t and e :: byte and r
  let ?z = "(zero_node D)\<lparr>jtype := t, jname := jname nd\<rparr>"
  have nd: "nd = (if jtype nd = 1 then (zero_node D)\<lparr>jname := jname nd, jtype := 1, valueint := 1\<rparr>
      else (zero_node D)\<lparr>jname := jname nd, jtype := jtype nd\<rparr>)" and cs: "cs = []"
    using assms by (auto simp: json_types Let_def split: if_splits)
  have "parse_word ?z (render D fmt depth (Item nd cs) @ e # r) = Done (Some (Item nd cs, e # r))"
    using assms(2)
  proof (elim disjE)
    assume t: "jtype nd = 0"
    have "?z\<lparr>jtype := 0\<rparr> = nd" using t by (subst (2) nd) simp
    with t cs show ?thesis by (simp add: json_types parse_word_lits(2) [unfolded json_types])
  next
    assume t: "jtype nd = 1"
    have "?z\<lparr>jtype := 1, valueint := 1\<rparr> = nd" using t by (subst (2) nd) simp
    with t cs show ?thesis by (simp add: json_types parse_word_lits(3) [unfolded json_types])
  next
    assume t: "jtype nd = 2"
    have "?z\<lparr>jtype := 2\<rparr> = nd" using t by (subst (2) nd) simp
    with t cs show ?thesis by (simp add: json_types parse_word_lits(1) [unfolded json_types])
  qed
  then show "parse_value (\<lambda>_. True) sx D (Suc f) ?z (render D fmt depth (Item nd cs) @ e # r) = Some (Done (Item nd cs, e # r))"
    by (rule parse_value_word)
qed

lemma number_reads_back:
  assumes "number_ok D nd" and "jtype nd = 3" and "cs = []"
  shows "reads_back sx D (render D fmt) (Item nd cs)"
proof (rule reads_backI)
  fix f depth t and e :: byte and r
  let ?z = "(zero_node D)\<lparr>jtype := t, jname := jname nd\<rparr>"
  let ?upd = "\<lambda>z. z\<lparr>valuedouble := valuedouble nd, valueint := valueint nd, valuelong := valuelong nd, jtype := cJSON_Number\<rparr>"
  assume e: "number_end e"
  have n: "nd = (?upd (zero_node D))\<lparr>jname := jname nd\<rparr>" using assms(1) unfolding number_ok_def by simp
  obtain c w where w: "print_number (\<lambda>_. True) D nd = Done (c # w)" "c = 0x2D \<or> isdigit c"
    "parse_number D ?z (c # w @ e # r) = Done (?upd ?z, e # r)"
    using assms(1) e unfolding number_ok_def by blast
  have nd: "?upd ?z = nd" by (subst (5) n) simp
  have c: "c \<noteq> 0x22" using w(2) by (auto simp: brackets)
  have "render D fmt depth (Item nd cs) @ e # r = c # w @ e # r" using assms(2) w(1) by (simp add: json_types)
  then show "parse_value (\<lambda>_. True) sx D (Suc f) ?z (render D fmt depth (Item nd cs) @ e # r) = Some (Done (Item nd cs, e # r))"
    using w(2) by (simp only: parse_value_Suc [OF word_free [of c]] w(3) c nd assms(3) if_False if_True also_then_simps prod.case simp_thms)
qed

lemma string_reads_back:
  assumes "sscanf_ok sx" and "0 \<notin> set s" and "cs = []"
    and n: "nd = (zero_node D)\<lparr>jname := jname nd, valuestring := Some s, jtype := 4\<rparr>"
  shows "reads_back sx D (render D fmt) (Item nd cs)"
proof (rule reads_backI)
  fix f depth t and e :: byte and r
  let ?z = "(zero_node D)\<lparr>jtype := t, jname := jname nd\<rparr>"
  have nd: "?z\<lparr>valuestring := Some s, jtype := cJSON_String\<rparr> = nd" by (subst (2) n) (simp add: json_types)
  have p: "parse_string (\<lambda>_. True) sx (quoted s @ e # r) = Done (s, e # r)" by (rule parse_quoted [OF assms(1,2)]) simp
  have "jtype nd = 4" "valuestring nd = Some s" by (subst n, simp)+
  then have t: "render D fmt depth (Item nd cs) = quoted s" by (simp add: json_types)
  obtain w where w: "quoted s @ e # r = 0x22 # w" by (simp add: quoted_def)
  show "parse_value (\<lambda>_. True) sx D (Suc f) ?z (render D fmt depth (Item nd cs) @ e # r) = Some (Done (Item nd cs, e # r))"
    unfolding t w using p unfolding w
    by (simp only: parse_value_Suc [OF word_free] simp_thms if_True also_then_simps prod.case nd assms(3))
qed



text \<open>The containers: their children read back.\<close>

lemma array_reads_back:
  assumes kids: "\<forall>c\<in>set cs. reads_back sx D (render D fmt) c \<and> jname (fields c) = None \<and>
      (\<forall>depth. \<exists>b r. render D fmt depth c = b # r \<and> \<not> blank b \<and> b \<noteq> 0x5D)"
    and n: "nd = (zero_node D)\<lparr>jname := jname nd, jtype := 5\<rparr>"
  shows "reads_back sx D (render D fmt) (Item nd cs)"
proof (rule reads_backI)
  fix f depth t and e :: byte and r
  let ?z = "(zero_node D)\<lparr>jtype := t, jname := jname nd\<rparr>"
  let ?body = "compose_array fmt (map (render D fmt (depth + 1)) cs) @ 0x5D # e # r"
  assume fuel: "2 * length (render D fmt depth (Item nd cs) @ e # r) \<le> f"
  have nd: "?z\<lparr>jtype := cJSON_Array\<rparr> = nd" by (subst (2) n) (simp add: json_types)
  have "jtype nd = 5" by (subst n) simp
  then have t: "render D fmt depth (Item nd cs) @ e # r = 0x5B # ?body" by (simp add: json_types)
  show "parse_value (\<lambda>_. True) sx D (Suc f) ?z (render D fmt depth (Item nd cs) @ e # r) = Some (Done (Item nd cs, e # r))"
  proof (cases "cs = []")
    case True
    have "skip (0x5D # e # r) = Done (0x5D # e # r)" by (rule skip_stop) (rule blank_consts)
    then show ?thesis unfolding t using True nd
      by (simp add: parse_value_Suc word_free brackets del: parse_value.simps skip.simps)
  next
    case False
    obtain c cs' where cs: "cs = c # cs'" using False by (cases cs) simp_all
    then obtain b w' where b': "render D fmt (depth + 1) c = b # w'" "\<not> blank b" "b \<noteq> 0x5D" using kids by fastforce
    then obtain w where b: "?body = b # w" "\<not> blank b" "b \<noteq> 0x5D"
      unfolding cs by (cases cs') simp_all
    have "parse_elements (\<lambda>_. True) sx D f [] ([] @ ?body) = Some (Done ([] @ cs, e # r))"
    proof (rule elements_read_back)
      show "\<forall>c\<in>set cs. reads_back sx D (render D fmt) c \<and> jname (fields c) = None \<and>
          (\<exists>b r. render D fmt (depth + 1) c = b # r \<and> \<not> blank b)" using kids by blast
      show "2 * length ([] @ ?body) + 2 \<le> f" using fuel unfolding t by simp
    qed (use False in simp_all)
    then have "parse_elements (\<lambda>_. True) sx D f [] (b # w) = Some (Done (cs, e # r))" unfolding b(1) by simp
    moreover have "skip (b # w) = Done (b # w)" by (rule skip_stop) (rule b(2))
    ultimately show ?thesis unfolding t b(1) using b(3) nd
      by (simp add: parse_value_Suc word_free brackets del: parse_value.simps skip.simps)
  qed
qed

lemma skip_again: "skip v = Done w \<Longrightarrow> skip w = Done w"
  by (induction v) (auto split: if_splits)

lemma parse_members_skip:
  "skip v = Done w \<Longrightarrow> parse_members (\<lambda>_. True) sx D fuel cs w = parse_members (\<lambda>_. True) sx D fuel cs v"
  by (cases fuel) (simp_all only: parse_members.simps skip_again New_Item also_then_simps)

lemma object_reads_back:
  assumes sx: "sscanf_ok sx"
    and kids: "\<forall>c\<in>set cs. reads_back sx D (render D fmt) c \<and> (\<exists>k. jname (fields c) = Some k \<and> 0 \<notin> set k) \<and>
      (\<forall>depth. \<exists>b r. render D fmt depth c = b # r \<and> \<not> blank b)"
    and n: "nd = (zero_node D)\<lparr>jname := jname nd, jtype := 6\<rparr>"
  shows "reads_back sx D (render D fmt) (Item nd cs)"
proof (rule reads_backI)
  fix f depth t and e :: byte and r
  let ?z = "(zero_node D)\<lparr>jtype := t, jname := jname nd\<rparr>"
  let ?nl = "if fmt then [0x0A] else [] :: byte list" and ?tl = "if fmt then replicate depth 0x09 else [] :: byte list"
  let ?tabs = "if fmt then replicate (depth + 1) 0x09 else [] :: byte list"
  let ?obj = "compose_object fmt (depth + 1) (map (\<lambda>c. (quoted (the (jname (fields c))), render D fmt (depth + 1) c)) cs)"
  let ?body = "?nl @ ?obj @ ?tl @ 0x7D # e # r"
  assume fuel: "2 * length (render D fmt depth (Item nd cs) @ e # r) \<le> f"
  have nd: "?z\<lparr>jtype := cJSON_Object\<rparr> = nd" by (subst (2) n) (simp add: json_types)
  have "jtype nd = 6" by (subst n) simp
  then have t: "render D fmt depth (Item nd cs) @ e # r = 0x7B # ?body" by (simp add: json_types)
  have ws: "list_all blank (?nl @ ?tl)" "list_all blank (?nl @ ?tabs)" "list_all blank ?nl"
    by (auto simp: list_all_iff blank_consts)
  show "parse_value (\<lambda>_. True) sx D (Suc f) ?z (render D fmt depth (Item nd cs) @ e # r) = Some (Done (Item nd cs, e # r))"
  proof (cases "cs = []")
    case True
    have "skip ((?nl @ ?tl) @ 0x7D # e # r) = Done (0x7D # e # r)"
      unfolding skip_blanks [OF ws(1)] by (rule skip_stop) (rule blank_consts)
    then have "skip ?body = Done (0x7D # e # r)" using True by simp
    then show ?thesis unfolding t using True nd
      by (simp add: parse_value_Suc word_free brackets del: parse_value.simps skip.simps)
  next
    case False
    obtain w where w: "?body = (?nl @ ?tabs) @ 0x22 # w"
      using False by (cases cs) (simp_all add: quoted_def)
    have sk: "skip ?body = Done (0x22 # w)"
      unfolding w skip_blanks [OF ws(2)] by (rule skip_stop) (rule blank_consts)
    have "parse_members (\<lambda>_. True) sx D f [] ?body = Some (Done ([] @ cs, e # r))"
    proof (rule members_read_back [OF sx _ False ws(3) refl])
      show "\<forall>c\<in>set cs. reads_back sx D (render D fmt) c \<and> (\<exists>k. jname (fields c) = Some k \<and> 0 \<notin> set k) \<and>
          (\<exists>b r. render D fmt (depth + 1) c = b # r \<and> \<not> blank b)" using kids by blast
      show "2 * length ?body + 2 \<le> f" using fuel unfolding t by simp
    qed
    then have "parse_members (\<lambda>_. True) sx D f [] (0x22 # w) = Some (Done (cs, e # r))"
      using parse_members_skip [OF sk, of sx D f "[]"] by simp
    then show ?thesis unfolding t using sk nd
      by (simp add: parse_value_Suc word_free brackets del: parse_value.simps skip.simps)
  qed
qed

lemma parse_render:
  assumes sx: "sscanf_ok sx"
  shows "as_parsed D named item \<Longrightarrow> reads_back sx D (render D fmt) item"
proof (induction item arbitrary: named)
  case (Item nd cs)
  note ap = Item.prems [unfolded as_parsed.simps Let_def]
  consider "jtype nd = 0 \<or> jtype nd = 1 \<or> jtype nd = 2" | "jtype nd = 3" | "jtype nd = 4" | "jtype nd = 5" | "jtype nd = 6"
    using ap by (auto simp: json_types split: if_splits)
  then show ?case
  proof cases
    case 1
    then show ?thesis by (rule word_reads_back [OF Item.prems])
  next
    case 2
    with ap show ?thesis by (intro number_reads_back) (simp_all add: json_types)
  next
    case 3
    with ap obtain s where "0 \<notin> set s" "cs = []" "nd = (zero_node D)\<lparr>jname := jname nd, valuestring := Some s, jtype := 4\<rparr>"
      by (auto simp: json_types split: option.splits)
    then show ?thesis by (rule string_reads_back [OF sx])
  next
    case 4
    with ap have ch: "\<forall>c\<in>set cs. as_parsed D False c" "nd = (zero_node D)\<lparr>jname := jname nd, jtype := 5\<rparr>"
      by (auto simp: json_types list_all_iff)
    have "reads_back sx D (render D fmt) c \<and> jname (fields c) = None \<and>
        (\<forall>depth. \<exists>b r. render D fmt depth c = b # r \<and> \<not> blank b \<and> b \<noteq> 0x5D)" if "c \<in> set cs" for c
    proof -
      have p: "as_parsed D False c" using ch(1) that by blast
      show ?thesis using Item.IH [OF that p] render_start [OF p, of fmt] as_parsed_name [OF p]
        unfolding name_ok_True(2) by blast
    qed
    then show ?thesis by (intro array_reads_back [OF _ ch(2)] ballI)
  next
    case 5
    with ap have ch: "\<forall>c\<in>set cs. as_parsed D True c" "nd = (zero_node D)\<lparr>jname := jname nd, jtype := 6\<rparr>"
      by (auto simp: json_types list_all_iff)
    have "reads_back sx D (render D fmt) c \<and> (\<exists>k. jname (fields c) = Some k \<and> 0 \<notin> set k) \<and>
        (\<forall>depth. \<exists>b r. render D fmt depth c = b # r \<and> \<not> blank b)" if "c \<in> set cs" for c
    proof -
      have p: "as_parsed D True c" using ch(1) that by blast
      show ?thesis using Item.IH [OF that p] render_start [OF p, of fmt] as_parsed_name [OF p]
        unfolding name_ok_True(1) by blast
    qed
    then show ?thesis by (intro object_reads_back [OF sx _ ch(2)] ballI)
  qed
qed

lemma reads_backD:
  "reads_back sx D text item \<Longrightarrow> number_end e \<Longrightarrow> 2 * length (text depth item @ e # r) + 1 \<le> fuel \<Longrightarrow>
    parse_value (\<lambda>_. True) sx D fuel ((zero_node D)\<lparr>jtype := t, jname := jname (fields item)\<rparr>) (text depth item @ e # r) =
      Some (Done (item, e # r))"
  unfolding reads_back_def by blast

lemma printed_parses:
  assumes "sscanf_ok sx" and "as_parsed D False item"
  shows "\<exists>t. (if fmt then cJSON_Print (\<lambda>_. True) D item else cJSON_PrintUnformatted (\<lambda>_. True) D item) = Done t \<and>
    cJSON_Parse (\<lambda>_. True) sx D (Some (t @ 0 # r)) = Some (Done item)"
proof -
  let ?t = "render D fmt 0 item"
  have "(zero_node D)\<lparr>jtype := 0, jname := jname (fields item)\<rparr> = zero_node D"
    using as_parsed_name [OF assms(2)] by (simp add: name_ok_True zero_node_def)
  moreover have "parse_value (\<lambda>_. True) sx D (parse_fuel (?t @ 0 # r))
      ((zero_node D)\<lparr>jtype := 0, jname := jname (fields item)\<rparr>) (?t @ 0 # r) = Some (Done (item, 0 # r))"
    by (rule reads_backD [OF parse_render [OF assms] number_end_consts(5)]) (simp add: parse_fuel_def)
  ultimately have p: "parse_value (\<lambda>_. True) sx D (parse_fuel (?t @ 0 # r)) (zero_node D) (?t @ 0 # r) = Some (Done (item, 0 # r))"
    by (simp only:)
  have "skip (?t @ 0 # r) = Done (?t @ 0 # r)"
    using render_start [OF assms(2), of fmt 0] skip_stop by auto
  then have "cJSON_Parse (\<lambda>_. True) sx D (Some (?t @ 0 # r)) = Some (Done item)"
    by (simp only: cJSON_Parse_def New_Item also_then_simps option.case p prod.case)
  then show ?thesis using print_render [OF assms(2)] by (auto simp: cJSON_Print_def cJSON_PrintUnformatted_def)
qed

section \<open>Properties\<close>

text \<open>
  C34: the JSON parser returns on every text, whatever the allocator, \<open>sscanf\<close> and the arithmetic
  do: the fuel of \<open>parse_fuel\<close> is enough, and more of it changes nothing.
\<close>

theorem json_parser_returns:
  "cJSON_Parse alloc sx D text \<noteq> None \<and>
   (\<exists>res. parse_value alloc sx D (parse_fuel v) nd v = Some res \<and> parse_value alloc sx D (parse_fuel v + k) nd v = Some res)"
proof -
  have enough: "parse_value alloc sx D (parse_fuel v) nd v \<noteq> None" for nd v
    by (rule parse_enough(1)) (simp add: parse_fuel_def)
  then obtain res where "parse_value alloc sx D (parse_fuel v) nd v = Some res" by auto
  moreover have "cJSON_Parse alloc sx D text \<noteq> None"
    using enough by (auto simp: cJSON_Parse_def also_then_None_iff simp del: not_None_eq split: option.splits)
  ultimately show ?thesis using parse_plus_fuel by blast
qed


definition sample_item :: "int cJSON" where
  "sample_item = Item ((zero_node whole_dbl)\<lparr>jtype := cJSON_Object\<rparr>)
     [Item ((zero_node whole_dbl)\<lparr>jtype := cJSON_Array, jname := Some [0x61]\<rparr>)
        [Item (int_node whole_dbl None (- 7)) [], Item ((zero_node whole_dbl)\<lparr>jtype := cJSON_True, valueint := 1\<rparr>) []],
      Item ((zero_node whole_dbl)\<lparr>jtype := cJSON_String, valuestring := Some [0x22, 0x0A], jname := Some [0x62, 0x5C]\<rparr>) [],
      Item ((zero_node whole_dbl)\<lparr>jtype := cJSON_NULL, jname := Some []\<rparr>) []]"

lemma sample_as_parsed: "as_parsed whole_dbl False sample_item"
  using number_ok_int [OF whole_dbl_exact, of None "- 7"]
  by (simp add: sample_item_def json_types name_ok_def zero_node_def Let_def int_node_def)


end
