(* ===== verification/CJsonList.thy ===== *)
theory CJsonList
  imports CJsonRoundtrip
begin

text \<open>
  \<^verbatim>\<open>json/cJSON.c\<close>, the functions on the chain of children: reading, adding, detaching, replacing
  and creating.  An item owns its children, so an operation returns the changed item; a pointer
  that may be NULL is an option.  A reference made by \<open>create_reference\<close> is a copy of what it
  refers to at that time; in memory it shares the children, see \<open>CJsonHeapDoc\<close>.
\<close>

section \<open>Reading\<close>

fun chain_size :: "'d cJSON list \<Rightarrow> int32 \<Rightarrow> int32" where
  "chain_size [] i = i"
| "chain_size (c # cs) i = chain_size cs (i + 1)"

definition cJSON_GetArraySize :: "'d cJSON \<Rightarrow> int32" where
  "cJSON_GetArraySize array = chain_size (children array) 0"

fun chain_item :: "'d cJSON list \<Rightarrow> int \<Rightarrow> 'd cJSON option" where
  "chain_item [] item = None"
| "chain_item (c # cs) item = (if 0 < item then chain_item cs (item - 1) else Some c)"

definition cJSON_GetArrayItem :: "'d cJSON \<Rightarrow> int \<Rightarrow> 'd cJSON option" where
  "cJSON_GetArrayItem array item = chain_item (children array) item"

text \<open>A string field as a pointer to its bytes and the terminating 0.\<close>

definition cstr :: "byte list option \<Rightarrow> byte list option" where
  "cstr k = map_option (\<lambda>s. s @ [0]) k"

text \<open>\<open>while (c && cJSON_strcasecmp(c->string,string)) i++,c=c->next;\<close>\<close>

fun chain_find :: "'d cJSON list \<Rightarrow> byte list option \<Rightarrow> int \<Rightarrow> (int \<times> 'd cJSON) option outcome" where
  "chain_find [] string i = Done None"
| "chain_find (c # cs) string i =
     and_then (strcasecmp_eq (cstr (jname (fields c))) (cstr string)) (\<lambda>same.
       if same then Done (Some (i, c)) else chain_find cs string (i + 1))"

definition cJSON_GetObjectItem :: "'d cJSON \<Rightarrow> byte list option \<Rightarrow> 'd cJSON option outcome" where
  "cJSON_GetObjectItem object string =
     and_then (chain_find (children object) string 0) (\<lambda>r. Done (map_option snd r))"

section \<open>Adding\<close>

definition cJSON_AddItemToArray :: "'d cJSON \<Rightarrow> 'd cJSON option \<Rightarrow> 'd cJSON" where
  "cJSON_AddItemToArray array item =
     (case item of None \<Rightarrow> array | Some c \<Rightarrow> Item (fields array) (children array @ [c]))"

text \<open>\<open>cJSON_strdup(string)\<close>, NULL when the allocation fails.\<close>

definition strdup_opt :: "(nat \<Rightarrow> bool) \<Rightarrow> byte list \<Rightarrow> byte list option" where
  "strdup_opt alloc s = (if alloc (length s + 1) then Some s else None)"

definition set_name :: "'d cJSON \<Rightarrow> byte list option \<Rightarrow> 'd cJSON" where
  "set_name item k = Item ((fields item)\<lparr>jname := k\<rparr>) (children item)"

definition cJSON_AddItemToObject ::
  "(nat \<Rightarrow> bool) \<Rightarrow> 'd cJSON \<Rightarrow> byte list \<Rightarrow> 'd cJSON option \<Rightarrow> 'd cJSON" where
  "cJSON_AddItemToObject alloc object string item =
     (case item of
        None \<Rightarrow> object
      | Some c \<Rightarrow> cJSON_AddItemToArray object (Some (set_name c (strdup_opt alloc string))))"

definition create_reference :: "(nat \<Rightarrow> bool) \<Rightarrow> 'd cJSON \<Rightarrow> 'd cJSON option" where
  "create_reference alloc item =
     (if alloc sizeof_cJSON
      then Some (Item ((fields item)\<lparr>jname := None, jtype := jtype (fields item) OR cJSON_IsReference\<rparr>) (children item))
      else None)"

definition cJSON_AddItemReferenceToArray :: "(nat \<Rightarrow> bool) \<Rightarrow> 'd cJSON \<Rightarrow> 'd cJSON \<Rightarrow> 'd cJSON" where
  "cJSON_AddItemReferenceToArray alloc array item = cJSON_AddItemToArray array (create_reference alloc item)"

definition cJSON_AddItemReferenceToObject ::
  "(nat \<Rightarrow> bool) \<Rightarrow> 'd cJSON \<Rightarrow> byte list \<Rightarrow> 'd cJSON \<Rightarrow> 'd cJSON" where
  "cJSON_AddItemReferenceToObject alloc object string item =
     cJSON_AddItemToObject alloc object string (create_reference alloc item)"

section \<open>Detaching and replacing\<close>

fun chain_detach :: "'d cJSON list \<Rightarrow> int \<Rightarrow> ('d cJSON \<times> 'd cJSON list) option" where
  "chain_detach [] which = None"
| "chain_detach (c # cs) which =
     (if 0 < which then map_option (\<lambda>(x, r). (x, c # r)) (chain_detach cs (which - 1)) else Some (c, cs))"

definition cJSON_DetachItemFromArray :: "'d cJSON \<Rightarrow> int \<Rightarrow> 'd cJSON option \<times> 'd cJSON" where
  "cJSON_DetachItemFromArray array which =
     (case chain_detach (children array) which of
        None \<Rightarrow> (None, array)
      | Some (c, cs) \<Rightarrow> (Some c, Item (fields array) cs))"

definition cJSON_DeleteItemFromArray :: "'d cJSON \<Rightarrow> int \<Rightarrow> 'd cJSON" where
  "cJSON_DeleteItemFromArray array which = snd (cJSON_DetachItemFromArray array which)"

definition cJSON_DetachItemFromObject ::
  "'d cJSON \<Rightarrow> byte list option \<Rightarrow> ('d cJSON option \<times> 'd cJSON) outcome" where
  "cJSON_DetachItemFromObject object string =
     and_then (chain_find (children object) string 0) (\<lambda>r.
       case r of None \<Rightarrow> Done (None, object) | Some (i, c) \<Rightarrow> Done (cJSON_DetachItemFromArray object i))"

definition cJSON_DeleteItemFromObject :: "'d cJSON \<Rightarrow> byte list option \<Rightarrow> 'd cJSON outcome" where
  "cJSON_DeleteItemFromObject object string =
     and_then (cJSON_DetachItemFromObject object string) (\<lambda>(c, object). Done object)"

fun chain_replace :: "'d cJSON list \<Rightarrow> int \<Rightarrow> 'd cJSON \<Rightarrow> 'd cJSON list" where
  "chain_replace [] which newitem = []"
| "chain_replace (c # cs) which newitem =
     (if 0 < which then c # chain_replace cs (which - 1) newitem else newitem # cs)"

definition cJSON_ReplaceItemInArray :: "'d cJSON \<Rightarrow> int \<Rightarrow> 'd cJSON \<Rightarrow> 'd cJSON" where
  "cJSON_ReplaceItemInArray array which newitem = Item (fields array) (chain_replace (children array) which newitem)"

definition cJSON_ReplaceItemInObject ::
  "(nat \<Rightarrow> bool) \<Rightarrow> 'd cJSON \<Rightarrow> byte list \<Rightarrow> 'd cJSON \<Rightarrow> 'd cJSON outcome" where
  "cJSON_ReplaceItemInObject alloc object string newitem =
     and_then (chain_find (children object) (Some string) 0) (\<lambda>r.
       case r of
         None \<Rightarrow> Done object
       | Some (i, c) \<Rightarrow> Done (cJSON_ReplaceItemInArray object i (set_name newitem (strdup_opt alloc string))))"

section \<open>Creating\<close>

text \<open>\<open>item=cJSON_New_Item(); if (item) ...; return item;\<close>\<close>

definition create :: "(nat \<Rightarrow> bool) \<Rightarrow> 'd dbl \<Rightarrow> ('d node \<Rightarrow> 'd node) \<Rightarrow> 'd cJSON option" where
  "create alloc D f = (case cJSON_New_Item alloc D of Done nd \<Rightarrow> Some (Item (f nd) []) | _ \<Rightarrow> None)"

definition cJSON_CreateNull :: "(nat \<Rightarrow> bool) \<Rightarrow> 'd dbl \<Rightarrow> 'd cJSON option" where
  "cJSON_CreateNull alloc D = create alloc D (\<lambda>nd. nd\<lparr>jtype := cJSON_NULL\<rparr>)"
definition cJSON_CreateTrue :: "(nat \<Rightarrow> bool) \<Rightarrow> 'd dbl \<Rightarrow> 'd cJSON option" where
  "cJSON_CreateTrue alloc D = create alloc D (\<lambda>nd. nd\<lparr>jtype := cJSON_True\<rparr>)"
definition cJSON_CreateFalse :: "(nat \<Rightarrow> bool) \<Rightarrow> 'd dbl \<Rightarrow> 'd cJSON option" where
  "cJSON_CreateFalse alloc D = create alloc D (\<lambda>nd. nd\<lparr>jtype := cJSON_False\<rparr>)"
definition cJSON_CreateBool :: "(nat \<Rightarrow> bool) \<Rightarrow> 'd dbl \<Rightarrow> int32 \<Rightarrow> 'd cJSON option" where
  "cJSON_CreateBool alloc D b = create alloc D (\<lambda>nd. nd\<lparr>jtype := (if b \<noteq> 0 then cJSON_True else cJSON_False)\<rparr>)"
definition cJSON_CreateNumber :: "(nat \<Rightarrow> bool) \<Rightarrow> 'd dbl \<Rightarrow> 'd \<Rightarrow> 'd cJSON option" where
  "cJSON_CreateNumber alloc D num =
     create alloc D (\<lambda>nd. nd\<lparr>jtype := cJSON_Number, valuedouble := num, valueint := d_to_int D num\<rparr>)"
definition cJSON_CreateString :: "(nat \<Rightarrow> bool) \<Rightarrow> 'd dbl \<Rightarrow> byte list \<Rightarrow> 'd cJSON option" where
  "cJSON_CreateString alloc D string =
     create alloc D (\<lambda>nd. nd\<lparr>jtype := cJSON_String, valuestring := strdup_opt alloc string\<rparr>)"
definition cJSON_CreateArray :: "(nat \<Rightarrow> bool) \<Rightarrow> 'd dbl \<Rightarrow> 'd cJSON option" where
  "cJSON_CreateArray alloc D = create alloc D (\<lambda>nd. nd\<lparr>jtype := cJSON_Array\<rparr>)"
definition cJSON_CreateObject :: "(nat \<Rightarrow> bool) \<Rightarrow> 'd dbl \<Rightarrow> 'd cJSON option" where
  "cJSON_CreateObject alloc D = create alloc D (\<lambda>nd. nd\<lparr>jtype := cJSON_Object\<rparr>)"

text \<open>
  The loop of \<open>cJSON_CreateIntArray\<close> and its three siblings over the created items, NULL where the
  allocation failed: \<open>p\<close> says whether a previous item exists, \<open>suffix_object\<close> dereferences both its
  arguments.
\<close>

fun link_loop :: "bool \<Rightarrow> bool \<Rightarrow> 'd cJSON option list \<Rightarrow> 'd cJSON list \<Rightarrow> 'd cJSON list outcome" where
  "link_loop first p [] cs = Done cs"
| "link_loop first p (n # ns) cs =
     (if first then link_loop False (n \<noteq> None) ns (case n of None \<Rightarrow> [] | Some c \<Rightarrow> [c])
      else (case n of
              Some c \<Rightarrow> if p then link_loop False True ns (cs @ [c]) else Undef
            | None \<Rightarrow> Undef))"

definition create_array_of :: "(nat \<Rightarrow> bool) \<Rightarrow> 'd dbl \<Rightarrow> 'd cJSON option list \<Rightarrow> 'd cJSON option outcome" where
  "create_array_of alloc D ns =
     (case cJSON_CreateArray alloc D of
        None \<Rightarrow> Done None
      | Some a \<Rightarrow> and_then (link_loop True False ns []) (\<lambda>cs. Done (Some (Item (fields a) cs))))"

definition cJSON_CreateIntArray :: "(nat \<Rightarrow> bool) \<Rightarrow> 'd dbl \<Rightarrow> int32 list \<Rightarrow> 'd cJSON option outcome" where
  "cJSON_CreateIntArray alloc D numbers =
     create_array_of alloc D (map (\<lambda>n. cJSON_CreateNumber alloc D (d_of_int D (sint n))) numbers)"
definition cJSON_CreateFloatArray ::
  "(nat \<Rightarrow> bool) \<Rightarrow> 'd dbl \<Rightarrow> ('f \<Rightarrow> 'd) \<Rightarrow> 'f list \<Rightarrow> 'd cJSON option outcome" where
  "cJSON_CreateFloatArray alloc D promote numbers =
     create_array_of alloc D (map (\<lambda>n. cJSON_CreateNumber alloc D (promote n)) numbers)"
definition cJSON_CreateDoubleArray :: "(nat \<Rightarrow> bool) \<Rightarrow> 'd dbl \<Rightarrow> 'd list \<Rightarrow> 'd cJSON option outcome" where
  "cJSON_CreateDoubleArray alloc D numbers = create_array_of alloc D (map (cJSON_CreateNumber alloc D) numbers)"
definition cJSON_CreateStringArray :: "(nat \<Rightarrow> bool) \<Rightarrow> 'd dbl \<Rightarrow> byte list list \<Rightarrow> 'd cJSON option outcome" where
  "cJSON_CreateStringArray alloc D strings = create_array_of alloc D (map (cJSON_CreateString alloc D) strings)"

text \<open>The macros of \<^verbatim>\<open>json/cJSON.h\<close>.\<close>

definition cJSON_AddNullToObject :: "(nat \<Rightarrow> bool) \<Rightarrow> 'd dbl \<Rightarrow> 'd cJSON \<Rightarrow> byte list \<Rightarrow> 'd cJSON" where
  "cJSON_AddNullToObject alloc D object name = cJSON_AddItemToObject alloc object name (cJSON_CreateNull alloc D)"
definition cJSON_AddTrueToObject :: "(nat \<Rightarrow> bool) \<Rightarrow> 'd dbl \<Rightarrow> 'd cJSON \<Rightarrow> byte list \<Rightarrow> 'd cJSON" where
  "cJSON_AddTrueToObject alloc D object name = cJSON_AddItemToObject alloc object name (cJSON_CreateTrue alloc D)"
definition cJSON_AddFalseToObject :: "(nat \<Rightarrow> bool) \<Rightarrow> 'd dbl \<Rightarrow> 'd cJSON \<Rightarrow> byte list \<Rightarrow> 'd cJSON" where
  "cJSON_AddFalseToObject alloc D object name = cJSON_AddItemToObject alloc object name (cJSON_CreateFalse alloc D)"
definition cJSON_AddNumberToObject :: "(nat \<Rightarrow> bool) \<Rightarrow> 'd dbl \<Rightarrow> 'd cJSON \<Rightarrow> byte list \<Rightarrow> 'd \<Rightarrow> 'd cJSON" where
  "cJSON_AddNumberToObject alloc D object name n = cJSON_AddItemToObject alloc object name (cJSON_CreateNumber alloc D n)"
definition cJSON_AddStringToObject ::
  "(nat \<Rightarrow> bool) \<Rightarrow> 'd dbl \<Rightarrow> 'd cJSON \<Rightarrow> byte list \<Rightarrow> byte list \<Rightarrow> 'd cJSON" where
  "cJSON_AddStringToObject alloc D object name s = cJSON_AddItemToObject alloc object name (cJSON_CreateString alloc D s)"

section \<open>Allocation hooks\<close>

text \<open>
  \<open>cJSON_InitHooks\<close>: the pair \<open>cJSON_malloc\<close>, \<open>cJSON_free\<close> of static pointers, which it sets; a hook that is NULL
  stands for the function of the C library.
\<close>

datatype ('m, 'f) cJSON_Hooks = Hooks (malloc_fn: "'m option") (free_fn: "'f option")

definition cJSON_InitHooks :: "'m \<Rightarrow> 'f \<Rightarrow> ('m, 'f) cJSON_Hooks option \<Rightarrow> 'm \<times> 'f" where
  "cJSON_InitHooks malloc free hooks =
     (case hooks of
        None \<Rightarrow> (malloc, free)
      | Some k \<Rightarrow>
          (case malloc_fn k of None \<Rightarrow> malloc | Some m \<Rightarrow> m, case free_fn k of None \<Rightarrow> free | Some f \<Rightarrow> f))"

section \<open>Names\<close>

text \<open>Names without regard to case.\<close>

definition lower :: "byte list \<Rightarrow> byte list" where
  "lower s = map tolower s"

lemma tolower_0: "tolower c = 0 \<longleftrightarrow> c = 0" "0 = tolower c \<longleftrightarrow> c = 0"
proof -
  have "c + 32 \<noteq> 0" if "c \<le> 90"
  proof
    assume "c + 32 = 0"
    then have "c = 0 - 32" by (metis add_diff_cancel_right')
    with that show False by simp
  qed
  then show "tolower c = 0 \<longleftrightarrow> c = 0" "0 = tolower c \<longleftrightarrow> c = 0" by auto
qed

lemma tolower_zero: "tolower 0 = 0"
  by simp

declare tolower.simps [simp del]

lemma same_ci_eq: "0 \<notin> set s \<Longrightarrow> 0 \<notin> set t \<Longrightarrow> same_ci (s @ [0]) (t @ [0]) = Done (lower s = lower t)"
proof (induction s arbitrary: t)
  case Nil
  then show ?case by (cases t) (simp_all add: lower_def tolower_0 tolower_zero)
next
  case (Cons a s)
  then show ?case by (cases t) (auto simp: lower_def tolower_0 tolower_zero)
qed

definition named :: "byte list \<Rightarrow> 'd cJSON \<Rightarrow> bool" where
  "named k c \<longleftrightarrow> lower (the (jname (fields c))) = lower k"

definition members_ok :: "'d cJSON list \<Rightarrow> bool" where
  "members_ok cs \<longleftrightarrow> list_all (\<lambda>c. name_ok True (jname (fields c))) cs"

lemma chain_find_eq:
  assumes "0 \<notin> set k"
  shows "members_ok cs \<Longrightarrow> chain_find cs (Some k) i =
    Done (map_option (\<lambda>c. (i + int (length (takeWhile (\<lambda>c. \<not> named k c) cs)), c)) (find (named k) cs))"
proof (induction cs arbitrary: i)
  case (Cons c cs)
  then obtain n where n: "jname (fields c) = Some n" "0 \<notin> set n" by (auto simp: members_ok_def name_ok_True)
  have "strcasecmp_eq (cstr (jname (fields c))) (cstr (Some k)) = Done (named k c)"
    using same_ci_eq [OF n(2) assms] n(1) by (simp add: strcasecmp_eq_def cstr_def named_def)
  with Cons show ?case by (auto simp: members_ok_def algebra_simps)
qed simp

text \<open>A member added by a macro is found under its name in any case, unless an earlier member has it.\<close>

lemma chain_find_append:
  assumes "0 \<notin> set k" and "members_ok cs" and "find (named k) cs = None" and "named k c" and "name_ok True (jname (fields c))"
  shows "cJSON_GetObjectItem (Item nd (cs @ [c])) (Some k) = Done (Some c)"
proof -
  have "members_ok (cs @ [c])" using assms(2,5) by (simp add: members_ok_def)
  moreover have "find (named k) (cs @ [c]) = Some c" using assms(3,4) by (induction cs) (auto split: if_splits)
  ultimately show ?thesis by (simp add: cJSON_GetObjectItem_def chain_find_eq [OF assms(1)])
qed

lemma add_then_get:
  assumes "0 \<notin> set k" and "members_ok cs" and "find (named k) cs = None"
  shows "\<exists>c. cJSON_GetObjectItem (cJSON_AddStringToObject (\<lambda>_. True) D (Item nd cs) k s) (Some k) = Done (Some c) \<and>
      jtype (fields c) = cJSON_String \<and> valuestring (fields c) = Some s"
    and "\<exists>c. cJSON_GetObjectItem (cJSON_AddNumberToObject (\<lambda>_. True) D (Item nd cs) k n) (Some k) = Done (Some c) \<and>
      jtype (fields c) = cJSON_Number \<and> valuedouble (fields c) = n \<and> valueint (fields c) = d_to_int D n"
proof -
  obtain z where z: "cJSON_New_Item (\<lambda>_. True) D = Done z" by (simp add: cJSON_New_Item_def)
  have ok: "named k (set_name x (Some k))" "name_ok True (jname (fields (set_name x (Some k))))" for x :: "'a cJSON"
    using assms(1) by (simp_all add: named_def set_name_def name_ok_True)
  note defs = cJSON_AddStringToObject_def cJSON_AddNumberToObject_def cJSON_AddItemToObject_def cJSON_AddItemToArray_def
    cJSON_CreateString_def cJSON_CreateNumber_def create_def strdup_opt_def z
  show "\<exists>c. cJSON_GetObjectItem (cJSON_AddStringToObject (\<lambda>_. True) D (Item nd cs) k s) (Some k) = Done (Some c) \<and>
      jtype (fields c) = cJSON_String \<and> valuestring (fields c) = Some s"
    using chain_find_append [OF assms ok] by (simp add: defs) (simp add: set_name_def)
  show "\<exists>c. cJSON_GetObjectItem (cJSON_AddNumberToObject (\<lambda>_. True) D (Item nd cs) k n) (Some k) = Done (Some c) \<and>
      jtype (fields c) = cJSON_Number \<and> valuedouble (fields c) = n \<and> valueint (fields c) = d_to_int D n"
    using chain_find_append [OF assms ok] by (simp add: defs) (simp add: set_name_def)
qed

lemma find_takeWhile:
  "find P cs = (case dropWhile (\<lambda>c. \<not> P c) cs of [] \<Rightarrow> None | c # _ \<Rightarrow> Some c)"
  by (induction cs) auto

lemma chain_detach_first:
  "chain_detach cs (int (length (takeWhile (\<lambda>c. \<not> P c) cs))) =
    (case dropWhile (\<lambda>c. \<not> P c) cs of [] \<Rightarrow> None | c # r \<Rightarrow> Some (c, takeWhile (\<lambda>c. \<not> P c) cs @ r))"
proof (induction cs)
  case (Cons c cs)
  then show ?case by (cases "P c"; cases "dropWhile (\<lambda>c. \<not> P c) cs") (simp_all del: dropWhile_eq_Nil_conv)
qed simp

lemma chain_replace_first:
  "chain_replace cs (int (length (takeWhile (\<lambda>c. \<not> P c) cs))) newitem =
    takeWhile (\<lambda>c. \<not> P c) cs @ (case dropWhile (\<lambda>c. \<not> P c) cs of [] \<Rightarrow> [] | c # r \<Rightarrow> newitem # r)"
proof (induction cs)
  case (Cons c cs)
  then show ?case by (cases "P c"; cases "dropWhile (\<lambda>c. \<not> P c) cs") (simp_all del: dropWhile_eq_Nil_conv)
qed simp

lemma as_parsed_set_name:
  "as_parsed D b c \<Longrightarrow> 0 \<notin> set k \<Longrightarrow> as_parsed D True (set_name c (Some k))"
proof (cases c)
  case (Item nd cs)
  assume "as_parsed D b c" "0 \<notin> set k"
  moreover have "number_ok D (nd\<lparr>jname := Some k\<rparr>)" if "number_ok D nd"
  proof -
    have "print_number (\<lambda>_. True) D (nd\<lparr>jname := Some k\<rparr>) = print_number (\<lambda>_. True) D nd"
      by (cases nd) (simp add: print_number_def)
    with that show ?thesis unfolding number_ok_def by (cases nd) (simp add: zero_node_def)
  qed
  ultimately show ?thesis unfolding Item
    by (cases nd) (auto simp: set_name_def name_ok_True json_types zero_node_def Let_def split: if_splits option.splits)
qed

section \<open>Edits\<close>

datatype 'd edit = Append "'d cJSON" | Insert "byte list" "'d cJSON" | Delete_at int | Delete_named "byte list" |
  Replace_at int "'d cJSON" | Replace_named "byte list" "'d cJSON"

fun apply_edit :: "'d edit \<Rightarrow> 'd cJSON \<Rightarrow> 'd cJSON outcome" where
  "apply_edit (Append item) root = Done (cJSON_AddItemToArray root (Some item))"
| "apply_edit (Insert k item) root = Done (cJSON_AddItemToObject (\<lambda>_. True) root k (Some item))"
| "apply_edit (Delete_at i) root = Done (cJSON_DeleteItemFromArray root i)"
| "apply_edit (Delete_named k) root = cJSON_DeleteItemFromObject root (Some k)"
| "apply_edit (Replace_at i item) root = Done (cJSON_ReplaceItemInArray root i item)"
| "apply_edit (Replace_named k item) root = cJSON_ReplaceItemInObject (\<lambda>_. True) root k item"

fun apply_edits :: "'d edit list \<Rightarrow> 'd cJSON \<Rightarrow> 'd cJSON outcome" where
  "apply_edits [] root = Done root"
| "apply_edits (e # es) root = and_then (apply_edit e root) (apply_edits es)"

text \<open>The edits meant for an object (\<open>obj\<close>) or for an array, with a well-formed item.\<close>

fun edit_ok :: "'d dbl \<Rightarrow> bool \<Rightarrow> 'd edit \<Rightarrow> bool" where
  "edit_ok D obj (Append item) \<longleftrightarrow> \<not> obj \<and> as_parsed D False item"
| "edit_ok D obj (Insert k item) \<longleftrightarrow> obj \<and> 0 \<notin> set k \<and> as_parsed D False item"
| "edit_ok D obj (Delete_at i) \<longleftrightarrow> True"
| "edit_ok D obj (Delete_named k) \<longleftrightarrow> obj \<and> 0 \<notin> set k"
| "edit_ok D obj (Replace_at i item) \<longleftrightarrow> \<not> obj \<and> as_parsed D False item"
| "edit_ok D obj (Replace_named k item) \<longleftrightarrow> obj \<and> 0 \<notin> set k \<and> as_parsed D False item"

definition container :: "'d dbl \<Rightarrow> bool \<Rightarrow> 'd cJSON \<Rightarrow> bool" where
  "container D obj root \<longleftrightarrow> as_parsed D False root \<and> jtype (fields root) = (if obj then cJSON_Object else cJSON_Array)"

lemma container_iff:
  "container D obj root \<longleftrightarrow> fields root = (zero_node D)\<lparr>jtype := (if obj then cJSON_Object else cJSON_Array)\<rparr> \<and>
    list_all (as_parsed D obj) (children root)"
proof (cases root)
  case (Item nd cs)
  show ?thesis unfolding Item
    by (cases nd) (auto simp: container_def json_types zero_node_def name_ok_True)
qed

lemma chain_detach_all: "list_all P cs \<Longrightarrow> chain_detach cs i = Some (c, r) \<Longrightarrow> list_all P r"
  by (induction cs arbitrary: i r) (auto split: if_splits)

lemma chain_replace_all: "list_all P cs \<Longrightarrow> P c \<Longrightarrow> list_all P (chain_replace cs i c)"
  by (induction cs arbitrary: i) auto

lemma members_ok_parsed: "list_all (as_parsed D True) cs \<Longrightarrow> members_ok cs"
  by (auto simp: members_ok_def list_all_iff dest: as_parsed_name)

lemma apply_edit_keeps:
  assumes "container D obj root" and "edit_ok D obj e"
  shows "\<exists>root'. apply_edit e root = Done root' \<and> container D obj root'"
proof -
  let ?cs = "children root"
  have c: "fields root = (zero_node D)\<lparr>jtype := (if obj then cJSON_Object else cJSON_Array)\<rparr>" "list_all (as_parsed D obj) ?cs"
    using assms(1) unfolding container_iff by auto
  have del: "container D obj (cJSON_DeleteItemFromArray root i)" for i
    using c chain_detach_all [OF c(2)]
    by (auto simp: container_iff cJSON_DeleteItemFromArray_def cJSON_DetachItemFromArray_def split: option.splits)
  show ?thesis
  proof (cases e)
    case (Append item)
    with assms(2) c show ?thesis by (simp add: container_iff cJSON_AddItemToArray_def)
  next
    case (Insert k item)
    with assms(2) c show ?thesis
      by (auto simp: container_iff cJSON_AddItemToObject_def cJSON_AddItemToArray_def strdup_opt_def intro: as_parsed_set_name)
  next
    case (Delete_at i)
    with del show ?thesis by simp
  next
    case (Delete_named k)
    with assms(2) c have "members_ok ?cs" "0 \<notin> set k" by (simp_all add: members_ok_parsed)
    with del Delete_named assms(1) chain_find_eq [of k ?cs 0] show ?thesis
      by (auto simp: cJSON_DeleteItemFromObject_def cJSON_DetachItemFromObject_def cJSON_DeleteItemFromArray_def
          case_prod_unfold split: option.splits)
  next
    case (Replace_at i item)
    with assms(2) c show ?thesis by (simp add: container_iff cJSON_ReplaceItemInArray_def chain_replace_all)
  next
    case (Replace_named k item)
    with assms(2) c have "members_ok ?cs" "0 \<notin> set k" "as_parsed D True (set_name item (Some k))" "obj"
      by (auto simp: members_ok_parsed intro: as_parsed_set_name)
    with Replace_named assms(1) c chain_find_eq [of k ?cs 0] show ?thesis
      by (auto simp: cJSON_ReplaceItemInObject_def cJSON_ReplaceItemInArray_def container_iff strdup_opt_def chain_replace_all
        split: option.splits)
  qed
qed

lemma apply_edits_keeps:
  "container D obj root \<Longrightarrow> list_all (edit_ok D obj) es \<Longrightarrow> \<exists>root'. apply_edits es root = Done root' \<and> container D obj root'"
proof (induction es arbitrary: root)
  case (Cons e es)
  then show ?case using apply_edit_keeps [of D obj root e] by fastforce
qed simp

section \<open>Properties\<close>

text \<open>
  C36: on an object of named members, a name is looked up without regard to case and the first
  member that has it counts: \<open>cJSON_GetObjectItem\<close> returns it, \<open>cJSON_DetachItemFromObject\<close> takes
  exactly it out, \<open>cJSON_ReplaceItemInObject\<close> puts the new item, under the given name, in its
  place, and all leave the other members and their order alone.
\<close>

theorem json_object_by_name:
  assumes "members_ok cs" and "0 \<notin> set k"
  shows "cJSON_GetObjectItem (Item nd cs) (Some k) = Done (find (named k) cs) \<and>
    cJSON_DetachItemFromObject (Item nd cs) (Some k) =
      Done (find (named k) cs, Item nd (takeWhile (\<lambda>c. \<not> named k c) cs @ tl (dropWhile (\<lambda>c. \<not> named k c) cs))) \<and>
    cJSON_ReplaceItemInObject (\<lambda>_. True) (Item nd cs) k newitem =
      Done (Item nd (takeWhile (\<lambda>c. \<not> named k c) cs @
        (case dropWhile (\<lambda>c. \<not> named k c) cs of [] \<Rightarrow> [] | c # r \<Rightarrow> set_name newitem (Some k) # r)))"
proof (cases "dropWhile (\<lambda>c. \<not> named k c) cs")
  case Nil
  then have "takeWhile (\<lambda>c. \<not> named k c) cs = cs" by (metis append_Nil2 takeWhile_dropWhile_id)
  with Nil show ?thesis
    by (simp add: cJSON_GetObjectItem_def cJSON_DetachItemFromObject_def cJSON_ReplaceItemInObject_def
        chain_find_eq [OF assms(2,1)] find_takeWhile del: dropWhile_eq_Nil_conv takeWhile_eq_all_conv)
next
  case (Cons c r)
  then show ?thesis
    by (simp add: cJSON_GetObjectItem_def cJSON_DetachItemFromObject_def cJSON_ReplaceItemInObject_def
        cJSON_DetachItemFromArray_def cJSON_ReplaceItemInArray_def chain_detach_first chain_replace_first strdup_opt_def
        chain_find_eq [OF assms(2,1)] find_takeWhile)
qed

theorem json_object_by_name_witness:
  "cJSON_GetObjectItem sample_item (Some [0x42, 0x5C]) = Done (find (named [0x42, 0x5C]) (children sample_item)) \<and>
    find (named [0x42, 0x5C]) (children sample_item) = Some (children sample_item ! 1)"
  using json_object_by_name [of "children sample_item" "[0x42, 0x5C]" "fields sample_item"]
  by (simp add: sample_item_def members_ok_def name_ok_def named_def lower_def tolower.simps int_node_def zero_node_def)



end
