(* ===== verification/CJsonHeap.thy ===== *)
theory CJsonHeap
  imports CJsonList
begin

text \<open>
  The memory of \<^verbatim>\<open>json/cJSON.c\<close>: items as cells of a heap, linked by \<open>next\<close>, \<open>prev\<close> and
  \<open>child\<close>, with strings in blocks of their own.  Here the functions on chains are the pointer programs of the
  source; \<open>None\<close> is a dereference of memory that is not live, or a second free.  A heap and the addresses of the items
  in it (\<open>ptree\<close>) show an item of \<open>CJson\<close> (\<open>view\<close>); the lemmas show that the pointer programs compute what the functions of
  \<open>CJsonList\<close> compute, and that \<open>cJSON_Delete\<close> frees what the item owns, once, and nothing else.
\<close>

section \<open>Cells\<close>

type_synonym addr = nat

record 'd cell =
  cnext :: "addr option"
  cprev :: "addr option"
  cchild :: "addr option"
  ctype :: int
  cvalue :: "addr option"
  cint :: int32
  cdouble :: 'd
  clong :: int64
  cname :: "addr option"

record 'd heap =
  cells :: "addr \<Rightarrow> 'd cell option"
  strs :: "addr \<Rightarrow> byte list option"

definition is_ref :: "'d cell \<Rightarrow> bool" where
  "is_ref c \<longleftrightarrow> ctype c AND cJSON_IsReference \<noteq> 0"

definition upd :: "addr \<Rightarrow> ('d cell \<Rightarrow> 'd cell) \<Rightarrow> 'd heap \<Rightarrow> 'd heap option" where
  "upd a f h = (case cells h a of None \<Rightarrow> None | Some c \<Rightarrow> Some (h\<lparr>cells := (cells h)(a \<mapsto> f c)\<rparr>))"

text \<open>\<open>cJSON_free\<close>: the block must be live.\<close>

definition cJSON_free :: "addr \<Rightarrow> 'd heap \<Rightarrow> 'd heap option" where
  "cJSON_free a h =
     (if cells h a \<noteq> None then Some (h\<lparr>cells := (cells h)(a := None)\<rparr>)
      else if strs h a \<noteq> None then Some (h\<lparr>strs := (strs h)(a := None)\<rparr>)
      else None)"

definition free_if :: "addr option \<Rightarrow> 'd heap \<Rightarrow> 'd heap option" where
  "free_if p h = (case p of None \<Rightarrow> Some h | Some a \<Rightarrow> cJSON_free a h)"

section \<open>The pointer programs\<close>

partial_function (option) cJSON_Delete :: "addr option \<Rightarrow> 'd heap \<Rightarrow> 'd heap option" where
  "cJSON_Delete p h =
     (case p of None \<Rightarrow> Some h
      | Some a \<Rightarrow> do {
          c \<leftarrow> cells h a;
          let nxt = cnext c;
          h \<leftarrow> (if \<not> is_ref c \<and> cchild c \<noteq> None then cJSON_Delete (cchild c) h else Some h);
          c \<leftarrow> cells h a;
          h \<leftarrow> (if \<not> is_ref c then free_if (cvalue c) h else Some h);
          c \<leftarrow> cells h a;
          h \<leftarrow> free_if (cname c) h;
          h \<leftarrow> cJSON_free a h;
          cJSON_Delete nxt h
        })"

definition suffix_object :: "addr \<Rightarrow> addr \<Rightarrow> 'd heap \<Rightarrow> 'd heap option" where
  "suffix_object p item h = do {
     h \<leftarrow> upd p (\<lambda>c. c\<lparr>cnext := Some item\<rparr>) h;
     upd item (\<lambda>c. c\<lparr>cprev := Some p\<rparr>) h
   }"

text \<open>\<open>while (c && c->next) c=c->next;\<close>\<close>

partial_function (option) last_child :: "addr \<Rightarrow> 'd heap \<Rightarrow> addr option" where
  "last_child a h = do {
     c \<leftarrow> cells h a;
     (case cnext c of None \<Rightarrow> Some a | Some b \<Rightarrow> last_child b h)
   }"

definition h_AddItemToArray :: "addr \<Rightarrow> addr option \<Rightarrow> 'd heap \<Rightarrow> 'd heap option" where
  "h_AddItemToArray array item h = do {
     arr \<leftarrow> cells h array;
     (case item of None \<Rightarrow> Some h
      | Some i \<Rightarrow>
         (case cchild arr of None \<Rightarrow> upd array (\<lambda>c. c\<lparr>cchild := Some i\<rparr>) h
          | Some c \<Rightarrow> do { l \<leftarrow> last_child c h; suffix_object l i h }))
   }"

text \<open>\<open>while (c && which>0) c=c->next,which--;\<close>\<close>

partial_function (option) nth_child :: "addr option \<Rightarrow> int \<Rightarrow> 'd heap \<Rightarrow> addr option option" where
  "nth_child p which h =
     (case p of None \<Rightarrow> Some None
      | Some a \<Rightarrow>
         if 0 < which then do { c \<leftarrow> cells h a; nth_child (cnext c) (which - 1) h } else Some (Some a))"

definition h_GetArrayItem :: "addr \<Rightarrow> int \<Rightarrow> 'd heap \<Rightarrow> addr option option" where
  "h_GetArrayItem array item h = do { arr \<leftarrow> cells h array; nth_child (cchild arr) item h }"

partial_function (option) count_children :: "addr option \<Rightarrow> int32 \<Rightarrow> 'd heap \<Rightarrow> int32 option" where
  "count_children p i h =
     (case p of None \<Rightarrow> Some i | Some a \<Rightarrow> do { c \<leftarrow> cells h a; count_children (cnext c) (i + 1) h })"

definition h_GetArraySize :: "addr \<Rightarrow> 'd heap \<Rightarrow> int32 option" where
  "h_GetArraySize array h = do { arr \<leftarrow> cells h array; count_children (cchild arr) 0 h }"

definition h_DetachItemFromArray :: "addr \<Rightarrow> int \<Rightarrow> 'd heap \<Rightarrow> (addr option \<times> 'd heap) option" where
  "h_DetachItemFromArray array which h = do {
     arr \<leftarrow> cells h array;
     r \<leftarrow> nth_child (cchild arr) which h;
     (case r of None \<Rightarrow> Some (None, h)
      | Some c \<Rightarrow> do {
          x \<leftarrow> cells h c;
          h \<leftarrow> (case cprev x of None \<Rightarrow> Some h | Some p \<Rightarrow> upd p (\<lambda>y. y\<lparr>cnext := cnext x\<rparr>) h);
          x \<leftarrow> cells h c;
          h \<leftarrow> (case cnext x of None \<Rightarrow> Some h | Some n \<Rightarrow> upd n (\<lambda>y. y\<lparr>cprev := cprev x\<rparr>) h);
          arr \<leftarrow> cells h array;
          x \<leftarrow> cells h c;
          h \<leftarrow> (if Some c = cchild arr then upd array (\<lambda>y. y\<lparr>cchild := cnext x\<rparr>) h else Some h);
          h \<leftarrow> upd c (\<lambda>y. y\<lparr>cnext := None, cprev := None\<rparr>) h;
          Some (Some c, h)
        })
   }"

definition h_DeleteItemFromArray :: "addr \<Rightarrow> int \<Rightarrow> 'd heap \<Rightarrow> 'd heap option" where
  "h_DeleteItemFromArray array which h = do {
     (c, h) \<leftarrow> h_DetachItemFromArray array which h;
     cJSON_Delete c h
   }"

definition h_ReplaceItemInArray :: "addr \<Rightarrow> int \<Rightarrow> addr \<Rightarrow> 'd heap \<Rightarrow> 'd heap option" where
  "h_ReplaceItemInArray array which newitem h = do {
     arr \<leftarrow> cells h array;
     r \<leftarrow> nth_child (cchild arr) which h;
     (case r of None \<Rightarrow> Some h
      | Some c \<Rightarrow> do {
          x \<leftarrow> cells h c;
          h \<leftarrow> upd newitem (\<lambda>y. y\<lparr>cnext := cnext x\<rparr>) h;
          x \<leftarrow> cells h c;
          h \<leftarrow> upd newitem (\<lambda>y. y\<lparr>cprev := cprev x\<rparr>) h;
          y \<leftarrow> cells h newitem;
          h \<leftarrow> (case cnext y of None \<Rightarrow> Some h | Some n \<Rightarrow> upd n (\<lambda>z. z\<lparr>cprev := Some newitem\<rparr>) h);
          arr \<leftarrow> cells h array;
          h \<leftarrow> (if Some c = cchild arr then upd array (\<lambda>z. z\<lparr>cchild := Some newitem\<rparr>) h
               else do {
                 y \<leftarrow> cells h newitem;
                 p \<leftarrow> cprev y;
                 upd p (\<lambda>z. z\<lparr>cnext := Some newitem\<rparr>) h
               });
          h \<leftarrow> upd c (\<lambda>z. z\<lparr>cprev := None, cnext := None\<rparr>) h;
          cJSON_Delete (Some c) h
        })
   }"

section \<open>Chains in the heap\<close>

text \<open>The addresses of an item and of its children.\<close>

datatype ptree = PNode (root_of: addr) (kids_of: "ptree list")

definition first :: "ptree list \<Rightarrow> addr option \<Rightarrow> addr option" where
  "first ts q = (case ts of [] \<Rightarrow> q | t # _ \<Rightarrow> Some (root_of t))"

definition final :: "addr option \<Rightarrow> ptree list \<Rightarrow> addr option" where
  "final p ts = (if ts = [] then p else Some (root_of (last ts)))"

lemma first_simps [simp]: "first [] q = q" "first (t # ts) q = Some (root_of t)"
  "first (ts @ us) q = first ts (first us q)"
  by (simp_all add: first_def split: list.split)

lemma final_simps [simp]: "final p [] = p" "final p (t # ts) = final (Some (root_of t)) ts"
  "final p (ts @ us) = final (final p ts) us"
  by (simp_all add: final_def)

text \<open>
  A segment of siblings: \<open>p\<close> before its first item, \<open>q\<close> after its last.  A reference has no children of its own.
\<close>

fun chain :: "'d heap \<Rightarrow> addr option \<Rightarrow> ptree list \<Rightarrow> addr option \<Rightarrow> bool" where
  "chain h p [] q \<longleftrightarrow> True"
| "chain h p (PNode a ks # ts) q \<longleftrightarrow>
     (case cells h a of None \<Rightarrow> False
      | Some c \<Rightarrow> cprev c = p \<and> cnext c = first ts q \<and> (if is_ref c then ks = [] else cchild c = first ks None) \<and>
          chain h None ks None \<and> chain h (Some a) ts q)"

fun addrs :: "ptree list \<Rightarrow> addr list" where
  "addrs [] = []"
| "addrs (PNode a ks # ts) = a # addrs ks @ addrs ts"

text \<open>The strings an item owns: its name, and its value unless it is a reference.\<close>

definition own_strs :: "'d heap \<Rightarrow> addr \<Rightarrow> addr list" where
  "own_strs h a =
     (case cells h a of None \<Rightarrow> []
      | Some c \<Rightarrow> (if is_ref c then [] else (case cvalue c of None \<Rightarrow> [] | Some s \<Rightarrow> [s])) @
          (case cname c of None \<Rightarrow> [] | Some s \<Rightarrow> [s]))"

fun owned :: "'d heap \<Rightarrow> ptree list \<Rightarrow> addr list" where
  "owned h [] = []"
| "owned h (PNode a ks # ts) = a # own_strs h a @ owned h ks @ owned h ts"

definition live_strs :: "'d heap \<Rightarrow> ptree list \<Rightarrow> bool" where
  "live_strs h ts \<longleftrightarrow> (\<forall>a\<in>set (addrs ts). \<forall>s\<in>set (own_strs h a). cells h s = None \<and> strs h s \<noteq> None)"

text \<open>The heap without some blocks.\<close>

definition without :: "'d heap \<Rightarrow> addr set \<Rightarrow> 'd heap" where
  "without h S = h\<lparr>cells := cells h |` (- S), strs := strs h |` (- S)\<rparr>"

lemma chain_append: "chain h p (ts @ us) q \<longleftrightarrow> chain h p ts (first us q) \<and> chain h (final p ts) us q"
  by (induction h p ts q rule: chain.induct) (auto split: option.splits)

lemma addrs_append [simp]: "addrs (ts @ us) = addrs ts @ addrs us"
  by (induction ts rule: addrs.induct) simp_all

lemma owned_append [simp]: "owned h (ts @ us) = owned h ts @ owned h us"
  by (induction h ts rule: owned.induct) simp_all

lemma addrs_owned: "set (addrs ts) \<subseteq> set (owned h ts)"
  by (induction h ts rule: owned.induct) auto

lemma distinct_addrs: "distinct (owned h ts) \<Longrightarrow> distinct (addrs ts)"
proof (induction h ts rule: owned.induct)
  case (2 h a ks ts)
  then show ?case using addrs_owned [of ks h] addrs_owned [of ts h] by auto
qed simp

lemma own_strs_owned: "a \<in> set (addrs ts) \<Longrightarrow> set (own_strs h a) \<subseteq> set (owned h ts)"
  by (induction h ts rule: owned.induct) auto

lemma live_strs_Cons: "live_strs h (PNode a ks # ts) \<longleftrightarrow>
    (\<forall>s\<in>set (own_strs h a). cells h s = None \<and> strs h s \<noteq> None) \<and> live_strs h ks \<and> live_strs h ts"
  by (auto simp: live_strs_def)

lemma live_strs_append: "live_strs h (ts @ us) \<longleftrightarrow> live_strs h ts \<and> live_strs h us"
  by (auto simp: live_strs_def)

text \<open>What a chain is depends only on its own blocks.\<close>

lemma chain_cong: "(\<And>a. a \<in> set (addrs ts) \<Longrightarrow> cells g a = cells h a) \<Longrightarrow> chain g p ts q = chain h p ts q"
  by (induction h p ts q rule: chain.induct) (auto split: option.splits)

lemma owned_cong: "(\<And>a. a \<in> set (addrs ts) \<Longrightarrow> cells g a = cells h a) \<Longrightarrow> owned g ts = owned h ts"
  by (induction h ts rule: owned.induct) (auto simp: own_strs_def split: option.splits)

section \<open>Deleting\<close>

text \<open>A block is an item or a string.\<close>

definition heap_ok :: "'d heap \<Rightarrow> bool" where
  "heap_ok h \<longleftrightarrow> (\<forall>a. cells h a = None \<or> strs h a = None)"

lemma without_sel [simp]: "cells (without h S) a = (if a \<in> S then None else cells h a)"
  "strs (without h S) a = (if a \<in> S then None else strs h a)"
  by (simp_all add: without_def restrict_map_def)

lemma heap_eqI: "(\<And>a. cells g a = cells h a) \<Longrightarrow> (\<And>a. strs g a = strs h a) \<Longrightarrow> g = h" for g h :: "'d heap"
  by (cases g; cases h) auto

lemma without_without [simp]: "without (without h S) T = without h (S \<union> T)"
  by (rule heap_eqI) auto

lemma without_empty [simp]: "without h {} = h"
  by (rule heap_eqI) auto

lemma heap_ok_without: "heap_ok h \<Longrightarrow> heap_ok (without h S)"
  by (auto simp: heap_ok_def)

lemma free_cell: "heap_ok h \<Longrightarrow> cells h a \<noteq> None \<Longrightarrow> cJSON_free a h = Some (without h {a})"
proof -
  assume "heap_ok h" and a: "cells h a \<noteq> None"
  then have "cells h a = None \<or> strs h a = None" by (simp add: heap_ok_def)
  with a show ?thesis unfolding cJSON_free_def by (auto intro!: heap_eqI)
qed

lemma free_if_str:
  "(\<And>s. p = Some s \<Longrightarrow> cells h s = None \<and> strs h s \<noteq> None) \<Longrightarrow> free_if p h = Some (without h (set_option p))"
  by (cases p) (auto simp: free_if_def cJSON_free_def intro!: heap_eqI)

lemma delete_None [simp]: "cJSON_Delete None h = Some h"
  by (simp add: cJSON_Delete.simps)

lemma live_strs_without:
  assumes "live_strs h ts" and "S \<inter> set (owned h ts) = {}"
  shows "live_strs (without h S) ts"
  unfolding live_strs_def
proof (intro ballI)
  fix a s assume a: "a \<in> set (addrs ts)" "s \<in> set (own_strs (without h S) a)"
  have "a \<notin> S" using a(1) addrs_owned [of ts h] assms(2) by auto
  then have s: "s \<in> set (own_strs h a)" using a(2) by (simp add: own_strs_def)
  then have "s \<notin> S" using own_strs_owned [OF a(1), of h] assms(2) by auto
  then show "cells (without h S) s = None \<and> strs (without h S) s \<noteq> None"
    using assms(1) a(1) s by (auto simp: live_strs_def)
qed

text \<open>What the turn of the loop for one item does, once its children are gone.\<close>

lemma delete_item:
  assumes ok: "heap_ok h" and c: "cells h a = Some c"
    and strs: "\<And>s. s \<in> set (own_strs h a) \<Longrightarrow> cells h s = None \<and> strs h s \<noteq> None" and d: "distinct (own_strs h a)"
  shows "do { h \<leftarrow> (if \<not> is_ref c then free_if (cvalue c) h else Some h); c \<leftarrow> cells h a;
      h \<leftarrow> free_if (cname c) h; cJSON_free a h } = Some (without h (insert a (set (own_strs h a))))"
proof -
  let ?v = "if is_ref c then None else cvalue c"
  have own: "set (own_strs h a) = set_option ?v \<union> set_option (cname c)" "set_option ?v \<inter> set_option (cname c) = {}"
    using c d by (auto simp: own_strs_def split: option.splits)
  have v: "(if \<not> is_ref c then free_if (cvalue c) h else Some h) = Some (without h (set_option ?v))"
    using free_if_str [of ?v h] strs own(1) by (auto simp: free_if_def)
  have a: "a \<notin> set_option ?v \<union> set_option (cname c)" using strs own(1) c by auto
  have n: "free_if (cname c) (without h (set_option ?v)) = Some (without h (set_option ?v \<union> set_option (cname c)))"
  proof -
    have "s \<notin> set_option ?v \<and> cells h s = None \<and> strs h s \<noteq> None" if "cname c = Some s" for s
      using that own strs [of s] by auto
    then show ?thesis using free_if_str [of "cname c" "without h (set_option ?v)"] by simp
  qed
  have "cJSON_free a (without h (set_option ?v \<union> set_option (cname c))) =
      Some (without h (insert a (set_option ?v \<union> set_option (cname c))))"
    using free_cell [where a = a, OF heap_ok_without [OF ok, of "set_option ?v \<union> set_option (cname c)"]] a c by simp
  then show ?thesis using v n a c own(1) by simp
qed

lemma delete_chain:
  assumes "heap_ok h" and "chain h p ts None" and "distinct (owned h ts)" and "live_strs h ts"
  shows "cJSON_Delete (first ts None) h = Some (without h (set (owned h ts)))"
  using assms
proof (induction ts arbitrary: h p rule: addrs.induct)
  case (2 a ks ts)
  obtain c where c: "cells h a = Some c" "cnext c = first ts None" "if is_ref c then ks = [] else cchild c = first ks None"
    "chain h None ks None" "chain h (Some a) ts None"
    using "2.prems"(2) by (auto split: option.splits)
  have d: "distinct (owned h ks)" "distinct (owned h ts)" "distinct (own_strs h a)" "a \<notin> set (owned h ks)"
    "set (own_strs h a) \<inter> set (owned h ks) = {}"
    "(insert a (set (own_strs h a) \<union> set (owned h ks))) \<inter> set (owned h ts) = {}"
    using "2.prems"(3) by auto
  have live: "live_strs h ks" "live_strs h ts" "\<forall>s\<in>set (own_strs h a). cells h s = None \<and> strs h s \<noteq> None"
    using "2.prems"(4) by (auto simp: live_strs_Cons)
  let ?h1 = "without h (set (owned h ks))"
  have kids: "(if \<not> is_ref c \<and> cchild c \<noteq> None then cJSON_Delete (cchild c) h else Some h) = Some ?h1"
  proof (cases "ks = []")
    case True
    then show ?thesis using c(3) by auto
  next
    case False
    then have "\<not> is_ref c" "cchild c = first ks None" using c(3) by (auto split: if_splits)
    moreover have "first ks None \<noteq> None" using False by (cases ks) auto
    ultimately show ?thesis using "2.IH"(1) [OF "2.prems"(1) c(4) d(1) live(1)] by simp
  qed
  have c1: "cells ?h1 a = Some c" using c(1) d(4) by simp
  have own1: "own_strs ?h1 a = own_strs h a" using c(1) d(4) by (simp add: own_strs_def)
  let ?S = "insert a (set (own_strs h a) \<union> set (owned h ks))"
  have item: "do { h \<leftarrow> (if \<not> is_ref c then free_if (cvalue c) ?h1 else Some ?h1); c \<leftarrow> cells h a;
      h \<leftarrow> free_if (cname c) h; cJSON_free a h } = Some (without h ?S)"
  proof -
    have "do { h \<leftarrow> (if \<not> is_ref c then free_if (cvalue c) ?h1 else Some ?h1); c \<leftarrow> cells h a;
        h \<leftarrow> free_if (cname c) h; cJSON_free a h } = Some (without ?h1 (insert a (set (own_strs ?h1 a))))"
      by (rule delete_item [OF heap_ok_without [OF "2.prems"(1)] c1]) (use own1 live(3) d(3,5) in auto)
    then show ?thesis by (simp add: own1 Un_commute)
  qed
  have rest: "cJSON_Delete (first ts None) (without h ?S) = Some (without (without h ?S) (set (owned (without h ?S) ts)))"
  proof (rule "2.IH"(2) [OF heap_ok_without [OF "2.prems"(1)]])
    have eq: "cells (without h ?S) x = cells h x" if "x \<in> set (addrs ts)" for x
      using that addrs_owned [of ts h] d(6) by auto
    show "chain (without h ?S) (Some a) ts None" using c(5) chain_cong [OF eq] by blast
    show "distinct (owned (without h ?S) ts)" using d(2) owned_cong [OF eq] by simp
    show "live_strs (without h ?S) ts" by (rule live_strs_without [OF live(2) d(6)])
  qed
  have eq: "owned (without h ?S) ts = owned h ts"
    by (rule owned_cong) (use addrs_owned [of ts h] d(6) in auto)
  have "cJSON_Delete (Some a) h = do { h \<leftarrow> (do { h \<leftarrow> (if \<not> is_ref c then free_if (cvalue c) ?h1 else Some ?h1); c \<leftarrow> cells h a;
      h \<leftarrow> free_if (cname c) h; cJSON_free a h }); cJSON_Delete (cnext c) h }"
    using c(1) kids c1 by (subst cJSON_Delete.simps) (simp add: Let_def)
  also have "\<dots> = Some (without h (set (owned h (PNode a ks # ts))))"
    unfolding item using rest by (simp add: c(2) eq Un_ac insert_commute)
  finally show ?case by simp
qed simp

end
