(* ===== verification/CJsonHeapOps.thy ===== *)
theory CJsonHeapOps
  imports CJsonHeap
begin

text \<open>
  What the pointer programs of \<open>CJsonHeap\<close> do to a chain: what a heap shows as an item, heaps that differ in links
  only, and for adding, detaching and replacing an item the heap that results, its chains and what it leaves as it was.
\<close>

section \<open>What the heap shows\<close>

definition fields_at :: "'d heap \<Rightarrow> addr \<Rightarrow> 'd node" where
  "fields_at h a =
     (let c = the (cells h a)
      in \<lparr>jtype = ctype c, valuestring = Option.bind (cvalue c) (strs h), valueint = cint c,
         valuedouble = cdouble c, valuelong = clong c, jname = Option.bind (cname c) (strs h)\<rparr>)"

fun view :: "'d heap \<Rightarrow> ptree \<Rightarrow> 'd cJSON" where
  "view h (PNode a ks) = Item (fields_at h a) (map (view h) ks)"

text \<open>A heap that differs in links only.\<close>

definition content :: "'d cell \<Rightarrow> 'd cell" where
  "content c = c\<lparr>cnext := None, cprev := None, cchild := None\<rparr>"

definition relinked :: "'d heap \<Rightarrow> 'd heap \<Rightarrow> bool" where
  "relinked g h \<longleftrightarrow> strs g = strs h \<and> (\<forall>a. map_option content (cells g a) = map_option content (cells h a))"

lemma content_simps [simp]: "content (c\<lparr>cnext := x\<rparr>) = content c" "content (c\<lparr>cprev := x\<rparr>) = content c"
  "content (c\<lparr>cchild := x\<rparr>) = content c"
  by (simp_all add: content_def)

lemma is_ref_simps [simp]: "is_ref (c\<lparr>cnext := x\<rparr>) = is_ref c" "is_ref (c\<lparr>cprev := x\<rparr>) = is_ref c"
  "is_ref (c\<lparr>cchild := x\<rparr>) = is_ref c"
  by (simp_all add: is_ref_def)

lemma relinked_refl [simp]: "relinked h h"
  by (simp add: relinked_def)

lemma relinked_trans: "relinked f g \<Longrightarrow> relinked g h \<Longrightarrow> relinked f h"
  by (simp add: relinked_def)

lemma content_eqD: "content c = content d \<Longrightarrow>
    is_ref c = is_ref d \<and> ctype c = ctype d \<and> cvalue c = cvalue d \<and> cint c = cint d \<and> cdouble c = cdouble d \<and>
    clong c = clong d \<and> cname c = cname d"
  by (cases c; cases d) (simp add: content_def is_ref_def)

lemma relinked_cell:
  assumes "relinked g h"
  obtains "cells g a = None" "cells h a = None"
  | c d where "cells g a = Some c" "cells h a = Some d" "content c = content d"
  using assms unfolding relinked_def by (cases "cells g a"; cases "cells h a") (metis option.map(1,2) option.inject option.distinct(1))+

lemma relinked_strs: "relinked g h \<Longrightarrow> strs g = strs h"
  by (simp add: relinked_def)

lemma relinked_own: "relinked g h \<Longrightarrow> own_strs g a = own_strs h a"
  by (rule relinked_cell [of g h a]) (auto simp: own_strs_def dest: content_eqD)

lemma relinked_owned: "relinked g h \<Longrightarrow> owned g ts = owned h ts"
  by (induction h ts rule: owned.induct) (simp_all add: relinked_own)

lemma relinked_None: "relinked g h \<Longrightarrow> cells g a = None \<longleftrightarrow> cells h a = None"
  by (rule relinked_cell [of g h a]) auto

lemma relinked_ok: "relinked g h \<Longrightarrow> heap_ok g = heap_ok h"
  by (simp add: heap_ok_def relinked_None relinked_strs)

lemma relinked_live: "relinked g h \<Longrightarrow> live_strs g ts = live_strs h ts"
  by (simp add: live_strs_def relinked_own relinked_None relinked_strs)

lemma relinked_fields: "relinked g h \<Longrightarrow> cells h a \<noteq> None \<Longrightarrow> fields_at g a = fields_at h a"
  by (rule relinked_cell [of g h a]) (auto simp: fields_at_def relinked_strs dest: content_eqD)

lemma relinked_view:
  assumes "relinked g h" and "\<forall>a\<in>set (addrs [t]). cells h a \<noteq> None"
  shows "view g t = view h t"
  using assms(2)
proof (induction t)
  case (PNode a ks)
  have "view g k = view h k" if k: "k \<in> set ks" for k
  proof -
    from k obtain us vs where "ks = us @ k # vs" by (auto simp: in_set_conv_decomp)
    then have "set (addrs [k]) \<subseteq> set (addrs ks)" by (cases k) auto
    then show ?thesis using PNode.IH [OF k] PNode.prems by auto
  qed
  then show ?case using relinked_fields [OF assms(1), of a] PNode.prems by simp
qed

lemma chain_cells: "chain h p ts q \<Longrightarrow> a \<in> set (addrs ts) \<Longrightarrow> cells h a \<noteq> None"
  by (induction h p ts q rule: chain.induct) (auto split: option.splits)

section \<open>Setting links\<close>

definition put :: "addr \<Rightarrow> ('d cell \<Rightarrow> 'd cell) \<Rightarrow> 'd heap \<Rightarrow> 'd heap" where
  "put a f h = h\<lparr>cells := (cells h)(a := map_option f (cells h a))\<rparr>"

definition set_next :: "addr option \<Rightarrow> addr option \<Rightarrow> 'd heap \<Rightarrow> 'd heap" where
  "set_next x q h = (case x of None \<Rightarrow> h | Some a \<Rightarrow> put a (\<lambda>c. c\<lparr>cnext := q\<rparr>) h)"

definition set_prev :: "addr option \<Rightarrow> addr option \<Rightarrow> 'd heap \<Rightarrow> 'd heap" where
  "set_prev x p h = (case x of None \<Rightarrow> h | Some a \<Rightarrow> put a (\<lambda>c. c\<lparr>cprev := p\<rparr>) h)"

lemma put_sel [simp]: "cells (put a f h) b = (if b = a then map_option f (cells h a) else cells h b)" "strs (put a f h) = strs h"
  by (simp_all add: put_def)

lemma upd_put: "cells h a \<noteq> None \<Longrightarrow> upd a f h = Some (put a f h)"
  by (auto simp: upd_def put_def split: option.split)

lemma set_next_sel [simp]: "strs (set_next x q h) = strs h"
  "cells (set_next x q h) a = (if x = Some a then map_option (\<lambda>c. c\<lparr>cnext := q\<rparr>) (cells h a) else cells h a)"
  by (auto simp: set_next_def split: option.split)

lemma set_prev_sel [simp]: "strs (set_prev x q h) = strs h"
  "cells (set_prev x q h) a = (if x = Some a then map_option (\<lambda>c. c\<lparr>cprev := q\<rparr>) (cells h a) else cells h a)"
  by (auto simp: set_prev_def split: option.split)

lemma relinked_put: "(\<And>c. content (f c) = content c) \<Longrightarrow> relinked (put a f h) h"
  by (auto simp: relinked_def option.map_comp comp_def)

lemma relinked_links: "relinked (set_next x q h) h" "relinked (set_prev x q h) h"
  "relinked (put a (\<lambda>c. c\<lparr>cchild := r\<rparr>) h) h" "relinked (put a (\<lambda>c. c\<lparr>cnext := r, cprev := s\<rparr>) h) h"
  by (auto simp: relinked_def option.map_comp comp_def)

lemma upd_set_next: "(\<And>a. x = Some a \<Longrightarrow> cells h a \<noteq> None) \<Longrightarrow>
    (case x of None \<Rightarrow> Some h | Some a \<Rightarrow> upd a (\<lambda>c. c\<lparr>cnext := q\<rparr>) h) = Some (set_next x q h)"
  by (auto simp: set_next_def upd_put split: option.split)

lemma upd_set_prev: "(\<And>a. x = Some a \<Longrightarrow> cells h a \<noteq> None) \<Longrightarrow>
    (case x of None \<Rightarrow> Some h | Some a \<Rightarrow> upd a (\<lambda>c. c\<lparr>cprev := q\<rparr>) h) = Some (set_prev x q h)"
  by (auto simp: set_prev_def upd_put split: option.split)

lemma chain_outside:
  assumes "chain h p ts q" and "\<And>a. a \<in> set (addrs ts) \<Longrightarrow> cells g a = cells h a"
  shows "chain g p ts q"
  using assms chain_cong by blast

lemma chain_set_out:
  assumes "b \<notin> set (addrs ts)"
  shows "chain (set_next (Some b) x h) p ts q = chain h p ts q" "chain (set_prev (Some b) x h) p ts q = chain h p ts q"
    "chain (put b f h) p ts q = chain h p ts q"
  by (rule chain_cong; use assms in auto)+

text \<open>Relinking the two ends of a chain.\<close>

lemma final_in: "ts \<noteq> [] \<Longrightarrow> \<exists>a. final p ts = Some a \<and> a \<in> set (addrs ts)"
  by (cases ts rule: rev_cases, simp, cases "last ts") auto

lemma first_in: "ts \<noteq> [] \<Longrightarrow> \<exists>a. first ts q = Some a \<and> a \<in> set (addrs ts)"
  by (cases ts rule: addrs.cases) auto

lemma chain_set_next:
  assumes "chain h None ts q" and "distinct (addrs ts)"
  shows "chain (set_next (final None ts) q' h) None ts q'"
proof (cases ts rule: rev_cases)
  case (snoc us t)
  obtain b bs where t: "t = PNode b bs" by (cases t)
  have c: "chain h None us (Some b)" "chain h (final None us) [PNode b bs] q" "b \<notin> set (addrs us)" "b \<notin> set (addrs bs)"
    using assms by (auto simp: snoc t chain_append)
  then show ?thesis
    using c(2) by (auto simp: snoc t chain_append chain_set_out(1) [OF c(3)] chain_set_out(1) [OF c(4)] split: option.splits)
qed (simp add: set_next_def)

lemma chain_set_prev:
  assumes "chain h p ts q" and "distinct (addrs ts)" and "q = None"
  shows "chain (set_prev (first ts None) p' h) p' ts q"
proof (cases ts rule: addrs.cases)
  case (2 b bs us)
  have c: "b \<notin> set (addrs us)" "b \<notin> set (addrs bs)" using assms(2) by (auto simp: 2)
  then show ?thesis
    using assms(1) by (auto simp: 2 chain_set_out(2) [OF c(1)] chain_set_out(2) [OF c(2)] split: option.splits)
qed simp

section \<open>The operations on a chain\<close>

text \<open>An item at \<open>a\<close> that is no reference, with children \<open>ks\<close>.\<close>

definition array_at :: "'d heap \<Rightarrow> addr option \<Rightarrow> addr \<Rightarrow> ptree list \<Rightarrow> addr option \<Rightarrow> bool" where
  "array_at h p a ks q \<longleftrightarrow>
     (\<exists>c. cells h a = Some c \<and> \<not> is_ref c \<and> cprev c = p \<and> cnext c = q \<and> cchild c = first ks None) \<and>
     chain h None ks None \<and> a \<notin> set (addrs ks) \<and> distinct (addrs ks)"

lemma array_at_chain: "array_at h p a ks q \<Longrightarrow> chain h p [PNode a ks] q"
  by (auto simp: array_at_def)

lemma array_atI: "chain h p [PNode a ks] q \<Longrightarrow> cells h a = Some c \<Longrightarrow> \<not> is_ref c \<Longrightarrow> distinct (addrs [PNode a ks]) \<Longrightarrow>
    array_at h p a ks q"
  by (auto simp: array_at_def)

lemma last_child_chain:
  "chain h p (t # ts) None \<Longrightarrow> last_child (root_of t) h = final p (t # ts)"
proof (induction ts arbitrary: p t)
  case Nil
  then show ?case by (cases t) (auto simp: last_child.simps split: option.splits)
next
  case (Cons u ts)
  obtain a as where t: "t = PNode a as" by (cases t)
  have "chain h (Some a) (u # ts) None" using Cons.prems unfolding t by (simp split: option.splits)
  then have "last_child (root_of u) h = final (Some a) (u # ts)" by (rule Cons.IH)
  then show ?case
    using Cons.prems by (subst last_child.simps) (auto simp: t split: option.splits)
qed

lemma nth_child_chain:
  "chain h p ts None \<Longrightarrow>
    nth_child (first ts None) w h = Some (if nat w < length ts then Some (root_of (ts ! nat w)) else None)"
proof (induction ts arbitrary: p w rule: addrs.induct)
  case (2 a ks ts)
  obtain c where c: "cells h a = Some c" "cnext c = first ts None" "chain h (Some a) ts None"
    using "2.prems" by (auto split: option.splits)
  show ?case
  proof (cases "0 < w")
    case True
    then have "nat w = Suc (nat (w - 1))" by simp
    then show ?thesis
      using c "2.IH"(2) [OF c(3), of "w - 1"] True by (subst nth_child.simps) simp
  qed (subst nth_child.simps, simp)
qed (simp add: nth_child.simps)

lemma count_chain: "chain h p ts None \<Longrightarrow> count_children (first ts None) i h = Some (i + of_nat (length ts))"
proof (induction ts arbitrary: p i rule: addrs.induct)
  case (2 a ks ts)
  obtain c where c: "cells h a = Some c" "cnext c = first ts None" "chain h (Some a) ts None"
    using "2.prems" by (auto split: option.splits)
  show ?case using c "2.IH"(2) [OF c(3)] by (subst count_children.simps) (simp add: algebra_simps)
qed (simp add: count_children.simps)

lemma root_in: "root_of t \<in> set (addrs [t])"
  by (cases t) simp

text \<open>\<open>cJSON_AddItemToArray\<close>: the item becomes the last of the chain.\<close>

lemma add_item:
  assumes A: "array_at h p a ks q" and t: "chain h None [t] None" and d: "distinct (a # addrs (ks @ [t]))"
  obtains g where "h_AddItemToArray a (Some (root_of t)) h = Some g" "relinked g h" "array_at g p a (ks @ [t]) q"
    "\<forall>x. x \<notin> set (a # addrs (ks @ [t])) \<longrightarrow> cells g x = cells h x"
proof -
  obtain c where c: "cells h a = Some c" "\<not> is_ref c" "cprev c = p" "cnext c = q" "cchild c = first ks None"
    and ks: "chain h None ks None" using A by (auto simp: array_at_def)
  have nt: "a \<notin> set (addrs [t])" "a \<notin> set (addrs ks)" using d by auto
  show thesis
  proof (cases ks)
    case Nil
    let ?g = "put a (\<lambda>c. c\<lparr>cchild := Some (root_of t)\<rparr>) h"
    have "chain ?g None [t] None" using t chain_set_out(3) [OF nt(1)] by blast
    then show thesis
      using c d Nil
      by (intro that [of ?g]) (auto simp: h_AddItemToArray_def upd_put relinked_links array_at_def)
  next
    case (Cons k ks')
    obtain l where l: "final None ks = Some l" "l \<in> set (addrs ks)" using final_in [of ks None] Cons by auto
    let ?i = "root_of t"
    let ?h1 = "set_next (Some l) (Some ?i) h"
    let ?g = "set_prev (Some ?i) (Some l) ?h1"
    have i: "?i \<in> set (addrs [t])" by (rule root_in)
    have out: "l \<notin> set (addrs [t])" "?i \<notin> set (addrs ks)" "a \<noteq> l" "a \<noteq> ?i" using d l(2) i by auto
    have "chain ?h1 None ks (Some ?i)" using chain_set_next [OF ks, of "Some ?i"] d l(1) by simp
    then have 1: "chain ?g None ks (Some ?i)" by (simp add: chain_set_out(2) [OF out(2)])
    have "chain ?h1 None [t] None" using t by (simp add: chain_set_out(1) [OF out(1)])
    then have 2: "chain ?g (Some l) [t] None" using chain_set_prev [of ?h1 None "[t]" None "Some l"] d by simp
    have lc: "last_child (root_of k) h = Some l"
      using last_child_chain [of h None k ks'] ks l(1) by (simp add: Cons)
    have live: "cells h l \<noteq> None" "cells h ?i \<noteq> None" using chain_cells [OF ks l(2)] chain_cells [OF t i] by auto
    have "suffix_object l ?i h = Some ?g"
      using live by (simp add: suffix_object_def upd_put set_next_def set_prev_def)
    then have "h_AddItemToArray a (Some ?i) h = Some ?g"
      using c lc by (simp add: h_AddItemToArray_def Cons)
    moreover have "relinked ?g h" by (rule relinked_trans [OF relinked_links(2) relinked_links(1)])
    moreover have "chain ?g None (ks @ [t]) None" using 1 2 l(1) by (simp add: chain_append)
    then have "array_at ?g p a (ks @ [t]) q" using c out d by (auto simp: array_at_def Cons)
    ultimately show thesis using l(2) i by (intro that [of ?g]) auto
  qed
qed

text \<open>A child of an array in the middle of its chain.\<close>

lemma split_child:
  assumes A: "array_at h p a (us @ PNode b bs # vs) q"
  obtains c x where "cells h a = Some c" "\<not> is_ref c" "cprev c = p" "cnext c = q" "cchild c = first us (Some b)"
    "cells h b = Some x" "cprev x = final None us" "cnext x = first vs None"
    "chain h None us (Some b)" "chain h (final None us) [PNode b bs] (first vs None)" "chain h (Some b) vs None"
    "a \<noteq> b" "a \<notin> set (addrs us)" "a \<notin> set (addrs vs)" "a \<notin> set (addrs bs)" "b \<notin> set (addrs us)" "b \<notin> set (addrs vs)"
    "b \<notin> set (addrs bs)" "distinct (addrs us)" "distinct (addrs vs)" "set (addrs us) \<inter> set (addrs vs) = {}"
    "set (addrs bs) \<inter> (set (addrs us) \<union> set (addrs vs)) = {}"
proof -
  obtain c where c: "cells h a = Some c" "\<not> is_ref c" "cprev c = p" "cnext c = q" "cchild c = first us (Some b)"
    using A by (auto simp: array_at_def)
  have ch: "chain h None us (Some b)" "chain h (final None us) (PNode b bs # vs) None"
    and d: "a \<notin> set (addrs (us @ PNode b bs # vs))" "distinct (addrs (us @ PNode b bs # vs))"
    using A by (auto simp: array_at_def chain_append)
  obtain x where x: "cells h b = Some x" "cprev x = final None us" "cnext x = first vs None"
    using ch(2) by (auto split: option.splits)
  show thesis
    by (rule that [OF c x ch(1)]) (use ch(2) d in \<open>auto split: option.splits\<close>)
qed

lemma final_cases: "final None us = None \<and> us = [] \<or> (\<exists>l. final None us = Some l \<and> l \<in> set (addrs us))"
  by (cases "us = []") (auto dest: final_in [of us None])

lemma first_cases: "first vs None = None \<and> vs = [] \<or> (\<exists>n. first vs None = Some n \<and> n \<in> set (addrs vs))"
  by (cases "vs = []") (auto dest: first_in [of vs None])

lemma final_out: "b \<notin> set (addrs us) \<Longrightarrow> final None us \<noteq> Some b"
  using final_cases [of us] by auto

lemma first_out: "b \<notin> set (addrs vs) \<Longrightarrow> first vs None \<noteq> Some b"
  using first_cases [of vs] by auto

lemma chain_ends_out:
  assumes "set (addrs us) \<inter> set (addrs ts) = {}"
  shows "chain (set_next (final None us) x h) p ts q = chain h p ts q" "chain (set_prev (first us None) x h) p ts q = chain h p ts q"
  using assms final_cases [of us] first_cases [of us]
  by (auto simp: chain_set_out set_next_def set_prev_def split: option.splits) (metis chain_set_out(3) disjoint_iff)+

text \<open>The two ends of a gap joined.\<close>

definition joined :: "ptree list \<Rightarrow> ptree list \<Rightarrow> 'd heap \<Rightarrow> 'd heap" where
  "joined us vs h = set_prev (first vs None) (final None us) (set_next (final None us) (first vs None) h)"

lemma joined_chain:
  assumes "chain h None us (Some b)" and "chain h (Some b) vs None" and "distinct (addrs us)" and "distinct (addrs vs)"
    and "set (addrs us) \<inter> set (addrs vs) = {}"
  shows "chain (joined us vs h) None (us @ vs) None"
proof -
  let ?h1 = "set_next (final None us) (first vs None) h"
  have "chain ?h1 None us (first vs None)" by (rule chain_set_next [OF assms(1,3)])
  then have 1: "chain (joined us vs h) None us (first vs None)"
    unfolding joined_def by (subst chain_ends_out(2)) (use assms(5) in auto)
  have "chain ?h1 (Some b) vs None" by (subst chain_ends_out(1)) (use assms(2,5) in auto)
  then have "chain (joined us vs h) (final None us) vs None"
    unfolding joined_def by (rule chain_set_prev [OF _ assms(4) refl])
  with 1 show ?thesis by (simp add: chain_append)
qed

lemma joined_cells: "a \<notin> set (addrs us) \<Longrightarrow> a \<notin> set (addrs vs) \<Longrightarrow> cells (joined us vs h) a = cells h a"
  using final_out [of a us] first_out [of a vs] by (simp add: joined_def)

lemma joined_relinked: "relinked (joined us vs h) h"
  unfolding joined_def by (rule relinked_trans [OF relinked_links(2) relinked_links(1)])

text \<open>\<open>cJSON_DetachItemFromArray\<close> takes the item out of the chain and leaves it on its own.\<close>

lemma detach_item:
  assumes A: "array_at h p a ks q" and w: "nat w < length ks"
  obtains g where "h_DetachItemFromArray a w h = Some (Some (root_of (ks ! nat w)), g)" "relinked g h"
    "array_at g p a (take (nat w) ks @ drop (Suc (nat w)) ks) q" "chain g None [ks ! nat w] None"
    "\<forall>x. x \<notin> set (a # addrs ks) \<longrightarrow> cells g x = cells h x"
proof -
  define us vs where "us = take (nat w) ks" and "vs = drop (Suc (nat w)) ks"
  obtain b bs where t: "ks ! nat w = PNode b bs" by (cases "ks ! nat w")
  have ks: "ks = us @ PNode b bs # vs" unfolding us_def vs_def t [symmetric] by (rule id_take_nth_drop [OF w])
  obtain c x where f: "cells h a = Some c" "\<not> is_ref c" "cprev c = p" "cnext c = q" "cchild c = first us (Some b)"
    "cells h b = Some x" "cprev x = final None us" "cnext x = first vs None"
    "chain h None us (Some b)" "chain h (final None us) [PNode b bs] (first vs None)" "chain h (Some b) vs None"
    "a \<noteq> b" "a \<notin> set (addrs us)" "a \<notin> set (addrs vs)" "a \<notin> set (addrs bs)" "b \<notin> set (addrs us)" "b \<notin> set (addrs vs)"
    "b \<notin> set (addrs bs)" "distinct (addrs us)" "distinct (addrs vs)" "set (addrs us) \<inter> set (addrs vs) = {}"
    "set (addrs bs) \<inter> (set (addrs us) \<union> set (addrs vs)) = {}"
    by (rule split_child [OF A [unfolded ks]])
  define h1 j k where "h1 = set_next (final None us) (first vs None) h" and "j = joined us vs h"
    and "k = (if us = [] then put a (\<lambda>y. y\<lparr>cchild := first vs None\<rparr>) j else j)"
  let ?g = "put b (\<lambda>y. y\<lparr>cnext := None, cprev := None\<rparr>) k"
  have j: "cells j a = Some c" "cells j b = Some x" using f joined_cells [of _ us vs h] by (auto simp: j_def)
  have k: "cells k b = Some x" "relinked k j" using j f(12) by (auto simp: k_def relinked_links)
  have live: "\<And>l. final None us = Some l \<Longrightarrow> cells h l \<noteq> None" "\<And>n. first vs None = Some n \<Longrightarrow> cells h1 n \<noteq> None"
    using chain_cells [OF f(9)] chain_cells [OF f(11)] final_cases [of us] first_cases [of vs] by (auto simp: h1_def)
  have b1: "cells h1 b = Some x" using f(6) final_out [OF f(16)] by (simp add: h1_def)
  have nth: "nth_child (cchild c) w h = Some (Some b)"
    using nth_child_chain [of h None ks w] A w t f(1) by (simp add: array_at_def)
  have e1: "(case final None us of None \<Rightarrow> Some h | Some l \<Rightarrow> upd l (\<lambda>y. y\<lparr>cnext := cnext x\<rparr>) h) = Some h1"
    unfolding h1_def f(8) by (rule upd_set_next) (rule live(1))
  have e2: "(case first vs None of None \<Rightarrow> Some h1 | Some n \<Rightarrow> upd n (\<lambda>y. y\<lparr>cprev := cprev x\<rparr>) h1) = Some j"
    unfolding f(7) j_def joined_def h1_def [symmetric] by (rule upd_set_prev) (rule live(2))
  have fst: "Some b = cchild c \<longleftrightarrow> us = []"
    using f(5,16) by (cases us rule: addrs.cases) auto
  have e3: "(if Some b = cchild c then upd a (\<lambda>y. y\<lparr>cchild := cnext x\<rparr>) j else Some j) = Some k"
    unfolding f(8) fst k_def using j(1) by (simp add: upd_put)
  have run: "h_DetachItemFromArray a w h = Some (Some b, ?g)"
    unfolding h_DetachItemFromArray_def by (simp add: f(1,6-8) nth e1 b1 e2 j e3 upd_put k(1))
  have rel: "relinked ?g h"
    by (rule relinked_trans [OF relinked_links(4) relinked_trans [OF k(2)]]) (simp add: j_def joined_relinked)
  have "chain j None (us @ vs) None" unfolding j_def by (rule joined_chain [OF f(9,11,19,20,21)])
  then have ch: "chain ?g None (us @ vs) None" using f(13,14,16,17) by (auto simp: chain_set_out(3) k_def)
  have arr: "array_at ?g p a (us @ vs) q"
    using ch f j by (cases us rule: addrs.cases) (auto simp: array_at_def k_def)
  have "cells ?g y = cells h y" if y: "y \<in> set (addrs bs)" for y
  proof -
    have "y \<notin> set (addrs us)" "y \<notin> set (addrs vs)" "y \<noteq> a" "y \<noteq> b" using y f(15,18,22) by auto
    then show ?thesis using joined_cells [of y us vs h] by (auto simp: k_def j_def)
  qed
  then have "chain ?g None bs None" using chain_outside [of h None bs None ?g] f(10) by (auto split: option.splits)
  then have alone: "chain ?g None [PNode b bs] None"
    using f(6,10,12) k(1) by (auto split: option.splits)
  have "cells ?g y = cells h y" if "y \<notin> set (a # addrs ks)" for y
    using that joined_cells [of y us vs h] by (auto simp: ks k_def j_def)
  then show thesis
    using run rel arr alone unfolding us_def vs_def t by (intro that [of ?g]) (simp_all add: us_def vs_def t)
qed

text \<open>\<open>cJSON_ReplaceItemInArray\<close> links the new item in and the old one out, up to the call of \<open>cJSON_Delete\<close>.\<close>

definition relink_replaced :: "addr \<Rightarrow> addr \<Rightarrow> addr \<Rightarrow> ptree list \<Rightarrow> ptree list \<Rightarrow> 'd heap \<Rightarrow> 'd heap" where
  "relink_replaced a n b us vs h =
     (let h = put n (\<lambda>y. y\<lparr>cprev := final None us\<rparr>) (put n (\<lambda>y. y\<lparr>cnext := first vs None\<rparr>) h);
          h = set_prev (first vs None) (Some n) h;
          h = (if us = [] then put a (\<lambda>y. y\<lparr>cchild := Some n\<rparr>) h else set_next (final None us) (Some n) h)
      in put b (\<lambda>y. y\<lparr>cprev := None, cnext := None\<rparr>) h)"

lemma relinked_put_swap: "relinked (put a (\<lambda>c. c\<lparr>cprev := r, cnext := s\<rparr>) h) h" "relinked (put a (\<lambda>c. c\<lparr>cprev := r\<rparr>) h) h"
  "relinked (put a (\<lambda>c. c\<lparr>cnext := r\<rparr>) h) h"
  by (auto simp: relinked_def option.map_comp comp_def)

lemma replaced_relinked: "relinked (relink_replaced a n b us vs h) h"
  unfolding relink_replaced_def Let_def
  by (auto intro!: relinked_trans [OF relinked_put_swap(1)] relinked_trans [OF relinked_links(3)]
      relinked_trans [OF relinked_links(1)] relinked_trans [OF relinked_links(2)] relinked_trans [OF relinked_put_swap(2)]
      relinked_put_swap(3))

lemma replace_item:
  assumes A: "array_at h p a ks q" and w: "nat w < length ks" and t: "chain h None [t] None"
    and d: "distinct (a # addrs (ks @ [t]))"
  obtains g where "h_ReplaceItemInArray a w (root_of t) h = cJSON_Delete (Some (root_of (ks ! nat w))) g" "relinked g h"
    "array_at g p a (take (nat w) ks @ t # drop (Suc (nat w)) ks) q" "chain g None [ks ! nat w] None"
    "\<forall>x. x \<notin> set (a # addrs (ks @ [t])) \<longrightarrow> cells g x = cells h x"
proof -
  define us vs where "us = take (nat w) ks" and "vs = drop (Suc (nat w)) ks"
  obtain b bs where b: "ks ! nat w = PNode b bs" by (cases "ks ! nat w")
  obtain n ns where n: "t = PNode n ns" by (cases t)
  have ks: "ks = us @ PNode b bs # vs" unfolding us_def vs_def b [symmetric] by (rule id_take_nth_drop [OF w])
  obtain c x where f: "cells h a = Some c" "\<not> is_ref c" "cprev c = p" "cnext c = q" "cchild c = first us (Some b)"
    "cells h b = Some x" "cprev x = final None us" "cnext x = first vs None"
    "chain h None us (Some b)" "chain h (final None us) [PNode b bs] (first vs None)" "chain h (Some b) vs None"
    "a \<noteq> b" "a \<notin> set (addrs us)" "a \<notin> set (addrs vs)" "a \<notin> set (addrs bs)" "b \<notin> set (addrs us)" "b \<notin> set (addrs vs)"
    "b \<notin> set (addrs bs)" "distinct (addrs us)" "distinct (addrs vs)" "set (addrs us) \<inter> set (addrs vs) = {}"
    "set (addrs bs) \<inter> (set (addrs us) \<union> set (addrs vs)) = {}"
    by (rule split_child [OF A [unfolded ks]])
  have dn: "n \<noteq> a" "n \<noteq> b" "n \<notin> set (addrs us)" "n \<notin> set (addrs vs)" "n \<notin> set (addrs bs)" "n \<notin> set (addrs ns)"
    "a \<notin> set (addrs ns)" "b \<notin> set (addrs ns)" "set (addrs ns) \<inter> set (addrs us) = {}" "set (addrs ns) \<inter> set (addrs vs) = {}"
    using d by (auto simp: ks n)
  obtain y where y: "cells h n = Some y" "if is_ref y then ns = [] else cchild y = first ns None" "chain h None ns None"
    using t by (auto simp: n split: option.splits)
  define h1 h2 h3 h4 g where "h1 = put n (\<lambda>y. y\<lparr>cnext := first vs None\<rparr>) h"
    and "h2 = put n (\<lambda>y. y\<lparr>cprev := final None us\<rparr>) h1" and "h3 = set_prev (first vs None) (Some n) h2"
    and "h4 = (if us = [] then put a (\<lambda>y. y\<lparr>cchild := Some n\<rparr>) h3 else set_next (final None us) (Some n) h3)"
    and "g = put b (\<lambda>y. y\<lparr>cprev := None, cnext := None\<rparr>) h4"
  have g: "g = relink_replaced a n b us vs h" by (simp add: relink_replaced_def g_def h4_def h3_def h2_def h1_def)
  have fo: "final None us \<noteq> Some n" "final None us \<noteq> Some b" "final None us \<noteq> Some a"
    "first vs None \<noteq> Some n" "first vs None \<noteq> Some b" "first vs None \<noteq> Some a"
    using final_out dn(3,4) f(13,14,16,17) first_out by auto
  have c1: "cells h1 n = Some (y\<lparr>cnext := first vs None\<rparr>)" "cells h1 b = Some x"
    using y(1) f(6) dn(2) by (auto simp: h1_def)
  have c2: "cells h2 n = Some (y\<lparr>cnext := first vs None, cprev := final None us\<rparr>)" using c1 by (simp add: h2_def)
  have c3: "cells h3 n = Some (y\<lparr>cnext := first vs None, cprev := final None us\<rparr>)" "cells h3 a = Some c" "cells h3 b = Some x"
    using c2 fo f(1,6) dn(1,2) by (auto simp: h3_def h2_def h1_def)
  have c4: "cells h4 b = Some x" using c3(3) fo f(12) by (auto simp: h4_def)
  have live: "\<And>l. final None us = Some l \<Longrightarrow> cells h3 l \<noteq> None" "\<And>m. first vs None = Some m \<Longrightarrow> cells h2 m \<noteq> None"
    using chain_cells [OF f(9)] chain_cells [OF f(11)] final_cases [of us] first_cases [of vs] by (auto simp: h3_def h2_def h1_def)
  have nth: "nth_child (cchild c) w h = Some (Some b)"
    using nth_child_chain [of h None ks w] A w b f(1) by (simp add: array_at_def)
  have e1: "upd n (\<lambda>y. y\<lparr>cnext := first vs None\<rparr>) h = Some h1" "upd n (\<lambda>y. y\<lparr>cprev := cprev x\<rparr>) h1 = Some h2"
    "upd b (\<lambda>z. z\<lparr>cprev := None, cnext := None\<rparr>) h4 = Some g"
    using y(1) c1 c4 f(7) by (simp_all add: upd_put h1_def h2_def g_def)
  have e3: "(case first vs None of None \<Rightarrow> Some h2 | Some m \<Rightarrow> upd m (\<lambda>z. z\<lparr>cprev := Some n\<rparr>) h2) = Some h3"
    unfolding h3_def by (rule upd_set_prev) (rule live(2))
  have fst: "Some b = cchild c \<longleftrightarrow> us = []" using f(5,16) by (cases us rule: addrs.cases) auto
  have e4: "(if Some b = cchild c then upd a (\<lambda>z. z\<lparr>cchild := Some n\<rparr>) h3
      else do { y \<leftarrow> cells h3 n; l \<leftarrow> cprev y; upd l (\<lambda>z. z\<lparr>cnext := Some n\<rparr>) h3 }) = Some h4"
    unfolding fst using final_cases [of us] c3 live(1) by (auto simp: h4_def upd_put set_next_def)
  have run: "h_ReplaceItemInArray a w n h = cJSON_Delete (Some b) g"
    unfolding h_ReplaceItemInArray_def
    by (simp add: f(1,6,8) nth e1 c1 c2 e3 c3 e4)
  have same: "cells g z = cells h z" if "z \<notin> set (addrs us)" "z \<notin> set (addrs vs)" "z \<noteq> a" "z \<noteq> b" "z \<noteq> n" for z
    using that final_out [of z us] first_out [of z vs] by (auto simp: g_def h4_def h3_def h2_def h1_def)
  have "chain h2 None us (Some b)" using f(9) dn(3) by (simp add: h2_def h1_def chain_set_out(3))
  then have "chain h3 None us (Some b)" unfolding h3_def by (subst chain_ends_out(2)) (use f(21) in auto)
  then have "chain h4 None us (Some n)"
    using chain_set_next [of h3 us "Some b" "Some n"] f(19) by (auto simp: h4_def)
  then have us: "chain g None us (Some n)" using f(16) by (simp add: g_def chain_set_out(3))
  have "chain h2 (Some b) vs None" using f(11) dn(4) by (simp add: h2_def h1_def chain_set_out(3))
  then have "chain h3 (Some n) vs None" unfolding h3_def by (rule chain_set_prev [OF _ f(20) refl])
  then have "chain h4 (Some n) vs None"
    using f(14,21) by (auto simp: h4_def chain_set_out(3) chain_ends_out(1))
  then have vs: "chain g (Some n) vs None" using f(17) by (simp add: g_def chain_set_out(3))
  have gn: "cells g n = Some (y\<lparr>cnext := first vs None, cprev := final None us\<rparr>)"
    using c3(1) fo dn(1,2) by (auto simp: g_def h4_def)
  have ns: "chain g None ns None" by (rule chain_outside [OF y(3)]) (rule same; use dn in auto)
  have ch: "chain g None (us @ t # vs) None"
    using us vs gn ns y(2) by (simp add: chain_append n)
  have ga: "cells g a = Some (c\<lparr>cchild := first us (Some n)\<rparr>)"
    using c3(2) fo f(5,12) by (cases us rule: addrs.cases) (auto simp: g_def h4_def)
  have arr: "array_at g p a (us @ t # vs) q"
    using ch ga f(2-4) d by (auto simp: array_at_def n ks)
  have "chain g None bs None"
    by (rule chain_outside [of h None bs None]) (use f(10) in \<open>auto split: option.splits\<close>, rule same, use f dn in auto)
  then have alone: "chain g None [PNode b bs] None"
    using f(6,10) c4 by (auto simp: g_def split: option.splits)
  have out: "cells g z = cells h z" if "z \<notin> set (a # addrs (ks @ [t]))" for z
    by (rule same) (use that in \<open>auto simp: ks n\<close>)
  show thesis
    using run arr alone out replaced_relinked [of a n b us vs h] unfolding us_def vs_def
    by (intro that [of g]) (simp_all add: g us_def vs_def n b)
qed

end
