(* ===== verification/CJsonHeapDoc.thy ===== *)
theory CJsonHeapDoc
  imports CJsonHeapOps
begin

text \<open>
  A document in memory and the items its caller holds: together they own every block, none is owned twice
  (\<open>exact\<close>), but for strings that were leaked.  The edits of an array keep that and compute what the functions of
  \<open>CJsonList\<close> compute; deleting the document frees everything.  An item that is a reference owns only its own cell and name.
\<close>

section \<open>Ownership\<close>

text \<open>A list of items on their own, which share no block.\<close>

definition owns :: "'d heap \<Rightarrow> ptree list \<Rightarrow> bool" where
  "owns h ts \<longleftrightarrow> heap_ok h \<and> (\<forall>t\<in>set ts. chain h None [t] None) \<and> distinct (owned h ts) \<and> live_strs h ts"

text \<open>Together they own every block there is, but for the strings at \<open>L\<close>, which nothing owns.\<close>

definition exact :: "addr set \<Rightarrow> 'd heap \<Rightarrow> ptree list \<Rightarrow> bool" where
  "exact L h ts \<longleftrightarrow> owns h ts \<and> L \<inter> set (owned h ts) = {} \<and> (\<forall>b\<in>L. cells h b = None \<and> strs h b \<noteq> None) \<and>
     (\<forall>x. cells h x \<noteq> None \<or> strs h x \<noteq> None \<longrightarrow> x \<in> set (owned h ts) \<union> L)"

lemma exactD:
  assumes "exact L h ts"
  shows "owns h ts" and "L \<inter> set (owned h ts) = {}" and "\<forall>b\<in>L. cells h b = None \<and> strs h b \<noteq> None"
    and "\<forall>x. cells h x \<noteq> None \<or> strs h x \<noteq> None \<longrightarrow> x \<in> set (owned h ts) \<union> L"
  by (insert assms [unfolded exact_def], (elim conjE, assumption)+)

lemma exactI:
  "owns h ts \<Longrightarrow> L \<inter> set (owned h ts) = {} \<Longrightarrow> (\<And>b. b \<in> L \<Longrightarrow> cells h b = None \<and> strs h b \<noteq> None) \<Longrightarrow>
    (\<And>x. cells h x \<noteq> None \<or> strs h x \<noteq> None \<Longrightarrow> x \<in> set (owned h ts) \<union> L) \<Longrightarrow> exact L h ts"
  unfolding exact_def by (intro conjI ballI allI impI) simp_all

definition plain :: "'d heap \<Rightarrow> ptree list \<Rightarrow> bool" where
  "plain h ts \<longleftrightarrow> (\<forall>a\<in>set (addrs ts). \<forall>c. cells h a = Some c \<longrightarrow> \<not> is_ref c)"

lemma owned_Cons: "owned h (t # ts) = owned h [t] @ owned h ts"
  by (cases t) simp

lemma addrs_Cons: "addrs (t # ts) = addrs [t] @ addrs ts"
  by (cases t) simp

lemma addrs_mem: "u \<in> set ts \<Longrightarrow> set (addrs [u]) \<subseteq> set (addrs ts)"
  by (cases u) (auto dest!: split_list)

lemma owned_mem: "u \<in> set ts \<Longrightarrow> set (owned h [u]) \<subseteq> set (owned h ts)"
  by (cases u) (auto dest!: split_list)

lemma chain_root: "owns h ts \<Longrightarrow> t \<in> set ts \<Longrightarrow> chain h None [t] None"
  by (simp add: owns_def)

text \<open>Deleting one of the items leaves the others as they were.\<close>

lemma delete_root:
  assumes "owns h (t # ts)"
  shows "cJSON_Delete (Some (root_of t)) h = Some (without h (set (owned h [t])))"
    and "owns (without h (set (owned h [t]))) ts" and "owned (without h (set (owned h [t]))) ts = owned h ts"
proof -
  let ?S = "set (owned h [t])"
  have o: "heap_ok h" "chain h None [t] None" "distinct (owned h [t])" "live_strs h [t]" "distinct (owned h ts)" "live_strs h ts"
    "?S \<inter> set (owned h ts) = {}"
    using assms by (auto simp: owns_def owned_Cons [of h t ts] live_strs_def addrs_Cons [of t ts])
  have "first [t] None = Some (root_of t)" by simp
  then show "cJSON_Delete (Some (root_of t)) h = Some (without h ?S)"
    using delete_chain [OF o(1-4)] by simp
  have eq: "cells (without h ?S) x = cells h x" if "x \<in> set (addrs ts)" for x
    using that addrs_owned [of ts h] o(7) by auto
  show own: "owned (without h ?S) ts = owned h ts" by (rule owned_cong) (rule eq)
  have "chain (without h ?S) None [u] None" if u: "u \<in> set ts" for u
  proof (rule chain_outside)
    show "chain h None [u] None" using assms u by (simp add: owns_def)
    show "cells (without h ?S) x = cells h x" if "x \<in> set (addrs [u])" for x
      by (rule eq) (use that addrs_mem [OF u] in auto)
  qed
  then show "owns (without h ?S) ts"
    using o own live_strs_without [OF o(6,7)] by (simp add: owns_def heap_ok_without)
qed

lemma exact_delete:
  assumes "exact L h (t # ts)"
  shows "exact L (without h (set (owned h [t]))) ts"
proof -
  let ?S = "set (owned h [t])"
  have o: "owns h (t # ts)" and L: "L \<inter> set (owned h (t # ts)) = {}" "\<forall>b\<in>L. cells h b = None \<and> strs h b \<noteq> None"
    and c: "\<And>x. cells h x \<noteq> None \<or> strs h x \<noteq> None \<Longrightarrow> x \<in> set (owned h (t # ts)) \<union> L"
    using assms unfolding exact_def by blast+
  have S: "set (owned h (t # ts)) = ?S \<union> set (owned h ts)" using owned_Cons [of h t ts] by auto
  have w: "cells (without h ?S) x = (if x \<in> ?S then None else cells h x)"
    "strs (without h ?S) x = (if x \<in> ?S then None else strs h x)" for x
    by simp_all
  have "x \<in> set (owned h ts) \<union> L" if "cells (without h ?S) x \<noteq> None \<or> strs (without h ?S) x \<noteq> None" for x
    using that c [of x] unfolding w S by (cases "x \<in> ?S") auto
  moreover have "b \<notin> ?S" if "b \<in> L" for b using that L(1) S by blast
  ultimately show ?thesis
    unfolding exact_def delete_root(3) [OF o] w using delete_root(2) [OF o] L S by auto
qed

lemma exact_Nil: "exact L h [] \<Longrightarrow> cells h = Map.empty \<and> dom (strs h) = L"
proof -
  assume "exact L h []"
  note L = exactD(3) [OF this] and c = exactD(4) [OF this]
  have c: "x \<in> L" if "cells h x \<noteq> None \<or> strs h x \<noteq> None" for x using c [THEN spec, THEN mp, OF that] by simp
  have "cells h x = None" for x using c [of x] L by blast
  with L c show ?thesis by blast
qed

text \<open>The last item gone, what nothing owns is left.\<close>

lemma exact_last:
  assumes "exact L h [t]"
  shows "\<exists>g. cJSON_Delete (Some (root_of t)) h = Some g \<and> cells g = Map.empty \<and> dom (strs g) = L"
proof -
  have "owns h [t]" using assms by (simp add: exact_def)
  then show ?thesis using delete_root(1) [of h t "[]"] exact_Nil [OF exact_delete [OF assms]] by blast
qed

lemma plain_Cons: "plain h (t # ts) \<longleftrightarrow> plain h [t] \<and> plain h ts"
  using addrs_Cons [of t ts] by (auto simp: plain_def)

lemma relinked_plain: "relinked g h \<Longrightarrow> plain g ts = plain h ts"
  unfolding plain_def by (intro ball_cong refl, rule relinked_cell [of g h]) (auto dest: content_eqD)

lemma plain_without: "plain h ts \<Longrightarrow> plain (without h S) ts"
  by (auto simp: plain_def split: if_splits)

lemma view_without:
  assumes "plain h [t]" and "S \<inter> set (owned h [t]) = {}" and "\<forall>a\<in>set (addrs [t]). cells h a \<noteq> None"
  shows "view (without h S) t = view h t"
  using assms
proof (induction t)
  case (PNode a ks)
  obtain c where c: "cells h a = Some c" "\<not> is_ref c" using PNode.prems(1,3) by (auto simp: plain_def)
  have "a \<notin> S" "set (own_strs h a) \<inter> S = {}" using PNode.prems(2) by auto
  then have f: "fields_at (without h S) a = fields_at h a"
    using c by (auto simp: fields_at_def own_strs_def Let_def split: option.splits bind_splits)
  have "view (without h S) k = view h k" if k: "k \<in> set ks" for k
  proof -
    from k obtain us vs where ks: "ks = us @ k # vs" by (auto dest!: split_list)
    show ?thesis
      by (rule PNode.IH [OF k]) (use PNode.prems in \<open>auto simp: ks plain_def owned_Cons [of h k vs] addrs_Cons [of k vs]\<close>)
  qed
  with f show ?case by simp
qed

section \<open>Edits\<close>

datatype hedit = HAdd addr | HDetach int | HDelete int | HReplace int addr

text \<open>One call on the array at \<open>a\<close>: what it returns, and the heap after it.\<close>

fun h_edit :: "hedit \<Rightarrow> addr \<Rightarrow> 'd heap \<Rightarrow> (addr option \<times> 'd heap) option" where
  "h_edit (HAdd i) a h = map_option (\<lambda>h. (None, h)) (h_AddItemToArray a (Some i) h)"
| "h_edit (HDetach w) a h = h_DetachItemFromArray a w h"
| "h_edit (HDelete w) a h = map_option (\<lambda>h. (None, h)) (h_DeleteItemFromArray a w h)"
| "h_edit (HReplace w i) a h = map_option (\<lambda>h. (None, h)) (h_ReplaceItemInArray a w i h)"

text \<open>
  The same call on items: the document, and the items the caller holds, by their addresses.  An item handed over is the
  caller's no more; a detached one is, at the address \<open>r\<close> that the call returned.
\<close>

type_synonym 'd doc = "'d cJSON \<times> (addr \<Rightarrow> 'd cJSON option)"

fun t_edit :: "hedit \<Rightarrow> addr option \<Rightarrow> 'd doc \<Rightarrow> 'd doc" where
  "t_edit (HAdd i) r (t, P) = (cJSON_AddItemToArray t (P i), P(i := None))"
| "t_edit (HDetach w) r (t, P) =
     (case cJSON_DetachItemFromArray t w of (x, t') \<Rightarrow> (t', case r of None \<Rightarrow> P | Some i \<Rightarrow> P(i := x)))"
| "t_edit (HDelete w) r (t, P) = (cJSON_DeleteItemFromArray t w, P)"
| "t_edit (HReplace w i) r (t, P) =
     (case P i of None \<Rightarrow> (t, P)
      | Some x \<Rightarrow> (cJSON_ReplaceItemInArray t w x, if nat w < length (children t) then P(i := None) else P))"

text \<open>The caller may hand over only what it holds.\<close>

fun enabled :: "hedit \<Rightarrow> 'd doc \<Rightarrow> bool" where
  "enabled (HAdd i) (t, P) \<longleftrightarrow> P i \<noteq> None"
| "enabled (HReplace w i) (t, P) \<longleftrightarrow> P i \<noteq> None"
| "enabled _ _ \<longleftrightarrow> True"

definition held :: "'d heap \<Rightarrow> ptree list \<Rightarrow> addr \<Rightarrow> 'd cJSON option" where
  "held h pool = map_of (map (\<lambda>t. (root_of t, view h t)) pool)"

text \<open>A heap shows a document and the caller's items if they own all of its blocks but those at \<open>L\<close>.\<close>

definition heap_shows :: "addr set \<Rightarrow> addr \<Rightarrow> 'd heap \<Rightarrow> 'd doc \<Rightarrow> bool" where
  "heap_shows L a h s \<longleftrightarrow> (\<exists>ks pool. exact L h (PNode a ks # pool) \<and> plain h (PNode a ks # pool) \<and>
     s = (view h (PNode a ks), held h pool))"

lemma chain_detach_nth: "chain_detach xs w =
    (if nat w < length xs then Some (xs ! nat w, take (nat w) xs @ drop (Suc (nat w)) xs) else None)"
proof (induction xs arbitrary: w)
  case (Cons x xs)
  show ?case
  proof (cases "0 < w")
    case True
    then have "nat w = Suc (nat (w - 1))" by simp
    with True show ?thesis by (simp add: Cons.IH)
  qed simp
qed simp

lemma chain_replace_nth: "chain_replace xs w n =
    (if nat w < length xs then take (nat w) xs @ n # drop (Suc (nat w)) xs else xs)"
proof (induction xs arbitrary: w)
  case (Cons x xs)
  show ?case
  proof (cases "0 < w")
    case True
    then have "nat w = Suc (nat (w - 1))" by simp
    with True show ?thesis by (simp add: Cons.IH)
  qed simp
qed simp

lemma exact_chain: "exact L h ts \<Longrightarrow> t \<in> set ts \<Longrightarrow> chain h None [t] None"
  by (simp add: exact_def owns_def)

lemma exact_cells: "exact L h ts \<Longrightarrow> t \<in> set ts \<Longrightarrow> \<forall>a\<in>set (addrs [t]). cells h a \<noteq> None"
  using chain_cells [of h None "[t]" None] exact_chain by blast

text \<open>The same blocks, linked otherwise.\<close>

lemma exact_relink:
  assumes "exact L h ts" and "relinked g h" and "\<And>t. t \<in> set us \<Longrightarrow> chain g None [t] None"
    and "distinct (owned h us)" and "set (owned h us) = set (owned h ts)" and "set (addrs us) = set (addrs ts)"
  shows "exact L g us" and "plain h ts \<Longrightarrow> plain g us"
proof -
  have "live_strs h us" using assms(1,6) by (simp add: exact_def owns_def live_strs_def)
  then show "exact L g us"
    using assms unfolding exact_def owns_def
    by (auto simp: relinked_ok relinked_owned relinked_live relinked_None relinked_strs)
  assume "plain h ts"
  then have "plain h us" using assms(6) by (simp add: plain_def)
  then show "plain g us" by (simp add: relinked_plain [OF assms(2)])
qed

lemma exact_split:
  assumes "exact L h (PNode a ks # pool)" and "\<forall>c. cells h a = Some c \<longrightarrow> \<not> is_ref c"
  shows "array_at h None a ks None" and "a \<notin> set (addrs pool)" and "set (addrs ks) \<inter> set (addrs pool) = {}"
    and "distinct (addrs (PNode a ks # pool))"
proof -
  show d: "distinct (addrs (PNode a ks # pool))"
    by (rule distinct_addrs [of h]) (use assms(1) in \<open>simp only: exact_def owns_def\<close>)
  have ch: "chain h None [PNode a ks] None" by (rule exact_chain [OF assms(1)]) simp
  then obtain c where "cells h a = Some c" by (auto split: option.splits)
  moreover from this have "\<not> is_ref c" using assms(2) by simp
  ultimately show "array_at h None a ks None" using ch d by (intro array_atI) auto
  show "a \<notin> set (addrs pool)" "set (addrs ks) \<inter> set (addrs pool) = {}" using d by auto
qed

lemma held_in: "held h pool i \<noteq> None \<Longrightarrow> \<exists>us t vs. pool = us @ t # vs \<and> root_of t = i"
proof -
  assume "held h pool i \<noteq> None"
  then have "i \<in> root_of ` set pool"
    using map_of_eq_None_iff [of "map (\<lambda>t. (root_of t, view h t)) pool" i] by (simp add: held_def image_image)
  then obtain t where "t \<in> set pool" "root_of t = i" by blast
  then show ?thesis using split_list [of t pool] by blast
qed

lemma held_at:
  assumes "distinct (addrs (us @ t # vs))"
  shows "held h (us @ t # vs) (root_of t) = Some (view h t)" and "(held h (us @ t # vs))(root_of t := None) = held h (us @ vs)"
    and "(held h (us @ vs))(root_of t := Some (view h t)) = held h (us @ t # vs)"
proof -
  have "set (addrs [t]) \<inter> (set (addrs us) \<union> set (addrs vs)) = {}" using assms addrs_Cons [of t vs] by auto
  then have "root_of t \<notin> set (addrs us) \<union> set (addrs vs)" using root_in [of t] by blast
  then have ne: "root_of u \<noteq> root_of t" if "u \<in> set us \<union> set vs" for u
    using that addrs_mem [of u us] addrs_mem [of u vs] root_in [of u] by (cases "u \<in> set us") (metis UnCI subsetD, metis UnE UnCI subsetD)
  have n: "root_of t \<notin> root_of ` set us" "root_of t \<notin> root_of ` set vs"
    by (metis UnI1 imageE ne, metis UnI2 imageE ne)
  then have k: "map_of (map (\<lambda>t. (root_of t, view h t)) us) (root_of t) = None"
    "map_of (map (\<lambda>t. (root_of t, view h t)) vs) (root_of t) = None"
    by (auto simp: map_of_eq_None_iff image_image)
  then show "held h (us @ t # vs) (root_of t) = Some (view h t)" by (simp add: held_def map_add_def)
  show "(held h (us @ t # vs))(root_of t := None) = held h (us @ vs)"
    using k by (auto simp: held_def map_add_def split: option.splits)
  show "(held h (us @ vs))(root_of t := Some (view h t)) = held h (us @ t # vs)"
    using k by (auto simp: held_def map_add_def split: option.splits)
qed

lemma held_cong: "(\<And>t. t \<in> set pool \<Longrightarrow> view g t = view h t) \<Longrightarrow> held g pool = held h pool"
  unfolding held_def by (metis (no_types, lifting) list.map_cong)


text \<open>What an edit does to the whole heap, case by case.\<close>

lemma view_relinked: "relinked g h \<Longrightarrow> exact L h ts \<Longrightarrow> t \<in> set ts \<Longrightarrow> view g t = view h t"
  using relinked_view exact_cells by blast

lemma framed_chain:
  assumes "exact L h ts" and "t \<in> set us" and "set us \<subseteq> set ts"
    and "set X \<inter> set (addrs us) = {}" and "\<forall>x. x \<notin> set X \<longrightarrow> cells g x = cells h x"
  shows "chain g None [t] None"
proof (rule chain_outside [OF exact_chain [OF assms(1)]])
  show "t \<in> set ts" using assms(2,3) by blast
  show "cells g x = cells h x" if "x \<in> set (addrs [t])" for x
    using that addrs_mem [OF assms(2)] assms(4,5) by blast
qed

lemma view_array:
  assumes "relinked g h" and "array_at h p a ks q" and "chain h None ls None"
  shows "view g (PNode a ls) = Item (fields_at h a) (map (view h) ls)"
proof -
  have "fields_at g a = fields_at h a" using relinked_fields [OF assms(1)] assms(2) by (auto simp: array_at_def)
  moreover have "view g l = view h l" if "l \<in> set ls" for l
    by (rule relinked_view [OF assms(1)]) (use chain_cells [OF assms(3)] addrs_mem [OF that] in blast)
  ultimately show ?thesis by simp
qed

lemma plain_root: "plain h (PNode a ks # ts) \<Longrightarrow> \<forall>c. cells h a = Some c \<longrightarrow> \<not> is_ref c"
  by (simp add: plain_def)

lemma add_shows:
  assumes "exact L h (PNode a ks # us @ t # vs)" and "\<forall>c. cells h a = Some c \<longrightarrow> \<not> is_ref c"
  obtains g where "h_AddItemToArray a (Some (root_of t)) h = Some g" "exact L g (PNode a (ks @ [t]) # us @ vs)"
    "plain h (PNode a ks # us @ t # vs) \<longrightarrow> plain g (PNode a (ks @ [t]) # us @ vs)" "relinked g h"
    "\<forall>x. x \<notin> set (a # addrs (ks @ [t])) \<longrightarrow> cells g x = cells h x"
proof -
  note sp = exact_split [OF assms]
  have d: "distinct (a # addrs (ks @ [t]))" and out: "set (addrs [t]) \<inter> set (addrs (us @ vs)) = {}"
    using sp(4) addrs_Cons [of t vs] by auto
  have t: "chain h None [t] None" by (rule exact_chain [OF assms(1)]) simp
  obtain g where g: "h_AddItemToArray a (Some (root_of t)) h = Some g" "relinked g h" "array_at g None a (ks @ [t]) None"
    "\<forall>x. x \<notin> set (a # addrs (ks @ [t])) \<longrightarrow> cells g x = cells h x"
    by (rule add_item [OF sp(1) t d])
  have dis: "set (a # addrs (ks @ [t])) \<inter> set (addrs (us @ vs)) = {}" using sp(2,3) out addrs_Cons [of t vs] by auto
  have ch: "chain g None [u] None" if "u \<in> set (PNode a (ks @ [t]) # us @ vs)" for u
  proof (cases "u = PNode a (ks @ [t])")
    case True
    then show ?thesis using array_at_chain [OF g(3)] by simp
  next
    case False
    with that have u: "u \<in> set (us @ vs)" by simp
    show ?thesis by (rule framed_chain [OF assms(1) u _ dis g(4)]) auto
  qed
  have o: "distinct (owned h (PNode a ks # us @ t # vs))" using assms(1) by (simp only: exact_def owns_def)
  have o': "distinct (owned h (PNode a (ks @ [t]) # us @ vs))"
    "set (owned h (PNode a (ks @ [t]) # us @ vs)) = set (owned h (PNode a ks # us @ t # vs))"
    "set (addrs (PNode a (ks @ [t]) # us @ vs)) = set (addrs (PNode a ks # us @ t # vs))"
    using o owned_Cons [of h t vs] addrs_Cons [of t vs] by auto
  show thesis
    using that [OF g(1) exact_relink(1) [OF assms(1) g(2) ch o'] _ g(2,4)] exact_relink(2) [OF assms(1) g(2) ch o'] by blast
qed

lemma detach_shows:
  assumes "exact L h (PNode a ks # pool)" and "\<forall>c. cells h a = Some c \<longrightarrow> \<not> is_ref c" and w: "nat w < length ks"
  obtains g where "h_DetachItemFromArray a w h = Some (Some (root_of (ks ! nat w)), g)"
    "exact L g (ks ! nat w # PNode a (take (nat w) ks @ drop (Suc (nat w)) ks) # pool)"
    "plain h (PNode a ks # pool) \<longrightarrow> plain g (ks ! nat w # PNode a (take (nat w) ks @ drop (Suc (nat w)) ks) # pool)"
    "relinked g h"
proof -
  note sp = exact_split [OF assms(1,2)]
  let ?t = "ks ! nat w" and ?ls = "take (nat w) ks @ drop (Suc (nat w)) ks"
  obtain g where g: "h_DetachItemFromArray a w h = Some (Some (root_of ?t), g)" "relinked g h" "array_at g None a ?ls None"
    "chain g None [?t] None" "\<forall>x. x \<notin> set (a # addrs ks) \<longrightarrow> cells g x = cells h x"
    by (rule detach_item [OF sp(1) w])
  have ch: "chain g None [u] None" if u: "u \<in> set (?t # PNode a ?ls # pool)" for u
  proof -
    consider "u = ?t" | "u = PNode a ?ls" | "u \<in> set pool" using u by auto
    then show ?thesis
    proof cases
      case 3
      have "set (a # addrs ks) \<inter> set (addrs pool) = {}" using sp(2,3) by auto
      then show ?thesis by (intro framed_chain [OF assms(1) 3 _ _ g(5)]) auto
    qed (use g(4) array_at_chain [OF g(3)] in simp_all)
  qed
  have o: "distinct (owned h (PNode a ks # pool))" using assms(1) by (simp only: exact_def owns_def)
  have ks: "ks = take (nat w) ks @ ?t # drop (Suc (nat w)) ks" by (rule id_take_nth_drop [OF w])
  have own: "owned h ks = owned h (take (nat w) ks) @ owned h [?t] @ owned h (drop (Suc (nat w)) ks)"
    "addrs ks = addrs (take (nat w) ks) @ addrs [?t] @ addrs (drop (Suc (nat w)) ks)"
    by (subst ks, simp only: owned_append addrs_append owned_Cons [of h ?t "drop _ _"] addrs_Cons [of ?t "drop _ _"])+
  have o': "distinct (owned h (?t # PNode a ?ls # pool))"
    "set (owned h (?t # PNode a ?ls # pool)) = set (owned h (PNode a ks # pool))"
    "set (addrs (?t # PNode a ?ls # pool)) = set (addrs (PNode a ks # pool))"
    using o own owned_Cons [of h ?t "PNode a ?ls # pool"] addrs_Cons [of ?t "PNode a ?ls # pool"] by auto
  show thesis
    using that [OF g(1) exact_relink(1) [OF assms(1) g(2) ch o'] _ g(2)] exact_relink(2) [OF assms(1) g(2) ch o'] by blast
qed

lemma replace_shows:
  assumes "exact L h (PNode a ks # us @ t # vs)" and "\<forall>c. cells h a = Some c \<longrightarrow> \<not> is_ref c" and w: "nat w < length ks"
  obtains g where "h_ReplaceItemInArray a w (root_of t) h = cJSON_Delete (Some (root_of (ks ! nat w))) g"
    "exact L g (ks ! nat w # PNode a (take (nat w) ks @ t # drop (Suc (nat w)) ks) # us @ vs)"
    "plain h (PNode a ks # us @ t # vs) \<longrightarrow>
      plain g (ks ! nat w # PNode a (take (nat w) ks @ t # drop (Suc (nat w)) ks) # us @ vs)" "relinked g h"
proof -
  note sp = exact_split [OF assms(1,2)]
  let ?o = "ks ! nat w" and ?ls = "take (nat w) ks @ t # drop (Suc (nat w)) ks"
  have d: "distinct (a # addrs (ks @ [t]))" and out: "set (addrs [t]) \<inter> set (addrs (us @ vs)) = {}"
    using sp(4) addrs_Cons [of t vs] by auto
  have t: "chain h None [t] None" by (rule exact_chain [OF assms(1)]) simp
  obtain g where g: "h_ReplaceItemInArray a w (root_of t) h = cJSON_Delete (Some (root_of ?o)) g" "relinked g h"
    "array_at g None a ?ls None" "chain g None [?o] None" "\<forall>x. x \<notin> set (a # addrs (ks @ [t])) \<longrightarrow> cells g x = cells h x"
    by (rule replace_item [OF sp(1) w t d])
  have dis: "set (a # addrs (ks @ [t])) \<inter> set (addrs (us @ vs)) = {}"
    using sp(2,3) out addrs_Cons [of t vs] by auto
  have ch: "chain g None [u] None" if u: "u \<in> set (?o # PNode a ?ls # us @ vs)" for u
  proof -
    consider "u = ?o" | "u = PNode a ?ls" | "u \<in> set (us @ vs)" using u by auto
    then show ?thesis
    proof cases
      case 3
      then show ?thesis by (intro framed_chain [OF assms(1) 3 _ dis g(5)]) auto
    qed (use g(4) array_at_chain [OF g(3)] in simp_all)
  qed
  have o: "distinct (owned h (PNode a ks # us @ t # vs))" using assms(1) by (simp only: exact_def owns_def)
  have ks: "ks = take (nat w) ks @ ?o # drop (Suc (nat w)) ks" by (rule id_take_nth_drop [OF w])
  have own: "owned h ks = owned h (take (nat w) ks) @ owned h [?o] @ owned h (drop (Suc (nat w)) ks)"
    "addrs ks = addrs (take (nat w) ks) @ addrs [?o] @ addrs (drop (Suc (nat w)) ks)"
    by (subst ks, simp only: owned_append addrs_append owned_Cons [of h ?o "drop _ _"] addrs_Cons [of ?o "drop _ _"])+
  have o': "distinct (owned h (?o # PNode a ?ls # us @ vs))"
    "set (owned h (?o # PNode a ?ls # us @ vs)) = set (owned h (PNode a ks # us @ t # vs))"
    "set (addrs (?o # PNode a ?ls # us @ vs)) = set (addrs (PNode a ks # us @ t # vs))"
    using o own owned_Cons [of h ?o "PNode a ?ls # us @ vs"] addrs_Cons [of ?o "PNode a ?ls # us @ vs"]
      owned_Cons [of h t vs] addrs_Cons [of t vs] owned_Cons [of h t "drop (Suc (nat w)) ks"] addrs_Cons [of t "drop (Suc (nat w)) ks"]
    by auto
  show thesis
    using that [OF g(1) exact_relink(1) [OF assms(1) g(2) ch o'] _ g(2)] exact_relink(2) [OF assms(1) g(2) ch o'] by blast
qed

text \<open>A root deleted: the others show what they showed.\<close>

lemma delete_shows:
  assumes "exact L g (t # ts)" and "plain g (t # ts)"
  obtains f where "cJSON_Delete (Some (root_of t)) g = Some f" "exact L f ts" "plain f ts"
    "\<And>u. u \<in> set ts \<Longrightarrow> view f u = view g u"
proof (rule that)
  have o: "owns g (t # ts)" using assms(1) by (simp add: exact_def)
  let ?S = "set (owned g [t])"
  show "cJSON_Delete (Some (root_of t)) g = Some (without g ?S)" by (rule delete_root(1) [OF o])
  show "exact L (without g ?S) ts" by (rule exact_delete [OF assms(1)])
  have p: "plain g ts" using assms(2) plain_Cons by blast
  then show "plain (without g ?S) ts" by (rule plain_without)
  fix u assume u: "u \<in> set ts"
  have "?S \<inter> set (owned g ts) = {}" using o owned_Cons [of g t ts] by (auto simp: owns_def)
  then have "?S \<inter> set (owned g [u]) = {}" using owned_mem [OF u, of g] by blast
  moreover have "plain g [u]" using p addrs_mem [OF u] by (auto simp: plain_def)
  moreover have "\<forall>a\<in>set (addrs [u]). cells g a \<noteq> None" using exact_cells [OF assms(1), of u] u by simp
  ultimately show "view (without g ?S) u = view g u" by (intro view_without)
qed

lemma roots_cells: "\<forall>t\<in>set ts. chain h None [t] None \<Longrightarrow> x \<in> set (addrs ts) \<Longrightarrow> cells h x \<noteq> None"
proof (induction ts)
  case (Cons t ts)
  have "x \<in> set (addrs [t]) \<or> x \<in> set (addrs ts)" using Cons.prems(2) addrs_Cons [of t ts] by auto
  then show ?case using Cons chain_cells [of h None "[t]" None x] by auto
qed simp

lemma shows_relinked:
  assumes "relinked g h" and "exact L h (PNode a ks # pool)" and "plain h (PNode a ks # pool)"
    and "set ls \<union> set pool' \<subseteq> set ks \<union> set pool"
  shows "view g (PNode a ls) = Item (fields_at h a) (map (view h) ls)" and "held g pool' = held h pool'"
proof -
  note sp = exact_split [OF assms(2) plain_root [OF assms(3)]]
  have v: "view g u = view h u" if "u \<in> set ks \<union> set pool" for u
  proof (rule relinked_view [OF assms(1)])
    have "u \<in> set ks \<Longrightarrow> set (addrs [u]) \<subseteq> set (addrs [PNode a ks])" using addrs_mem [of u ks] by auto
    moreover have "u \<in> set pool \<Longrightarrow> set (addrs [u]) \<subseteq> set (addrs pool)" by (rule addrs_mem)
    moreover have "\<forall>x\<in>set (addrs pool). cells h x \<noteq> None"
      using roots_cells [of pool h] assms(2) by (auto simp: exact_def owns_def)
    moreover have "\<forall>x\<in>set (addrs [PNode a ks]). cells h x \<noteq> None" by (rule exact_cells [OF assms(2)]) simp
    ultimately show "\<forall>x\<in>set (addrs [u]). cells h x \<noteq> None" using that by blast
  qed
  have "fields_at g a = fields_at h a" using relinked_fields [OF assms(1)] sp(1) by (auto simp: array_at_def)
  then show "view g (PNode a ls) = Item (fields_at h a) (map (view h) ls)" using v assms(4) by (auto simp: subset_iff)
  show "held g pool' = held h pool'" by (rule held_cong) (use v assms(4) in blast)
qed

lemma heap_showsI: "exact L h (PNode a ks # pool) \<Longrightarrow> plain h (PNode a ks # pool) \<Longrightarrow>
    s = (view h (PNode a ks), held h pool) \<Longrightarrow> heap_shows L a h s"
  unfolding heap_shows_def by blast

lemma exact_swap:
  assumes "exact L h (t # u # ts)"
  shows "exact L h (u # t # ts)" and "plain h (t # u # ts) \<Longrightarrow> plain h (u # t # ts)"
proof -
  have eq: "owned h (t # u # ts) = owned h [t] @ owned h [u] @ owned h ts" "owned h (u # t # ts) = owned h [u] @ owned h [t] @ owned h ts"
    "addrs (t # u # ts) = addrs [t] @ addrs [u] @ addrs ts" "addrs (u # t # ts) = addrs [u] @ addrs [t] @ addrs ts"
    by (simp_all only: owned_Cons [of h t "u # ts"] owned_Cons [of h u ts] owned_Cons [of h u "t # ts"] owned_Cons [of h t ts]
        addrs_Cons [of t "u # ts"] addrs_Cons [of u ts] addrs_Cons [of u "t # ts"] addrs_Cons [of t ts])
  have "distinct (owned h (t # u # ts))" using assms(1) by (simp only: exact_def owns_def)
  then have d: "distinct (owned h (u # t # ts))" "set (owned h (u # t # ts)) = set (owned h (t # u # ts))"
    "set (addrs (u # t # ts)) = set (addrs (t # u # ts))"
    unfolding eq by auto
  have ch: "chain h None [x] None" if "x \<in> set (u # t # ts)" for x using exact_chain [OF assms(1), of x] that by auto
  show "exact L h (u # t # ts)" "plain h (t # u # ts) \<Longrightarrow> plain h (u # t # ts)"
    using exact_relink [OF assms(1) relinked_refl ch d] by auto
qed

lemma out_of_range:
  assumes "array_at h p a ks q" and "\<not> nat w < length ks"
  shows "h_DetachItemFromArray a w h = Some (None, h)" and "h_DeleteItemFromArray a w h = Some h"
    and "h_ReplaceItemInArray a w i h = Some h"
  using assms nth_child_chain [of h None ks w]
  by (auto simp: array_at_def h_DetachItemFromArray_def h_DeleteItemFromArray_def h_ReplaceItemInArray_def)

lemma edit_shows:
  assumes "heap_shows L a h s" and "enabled e s"
  shows "\<exists>r g. h_edit e a h = Some (r, g) \<and> heap_shows L a g (t_edit e r s)"
proof -
  obtain ks pool where h: "exact L h (PNode a ks # pool)" "plain h (PNode a ks # pool)"
    and s: "s = (view h (PNode a ks), held h pool)"
    using assms(1) by (auto simp: heap_shows_def)
  note nr = plain_root [OF h(2)]
  note sp = exact_split [OF h(1) nr]
  have d: "distinct (addrs pool)" using sp(4) by simp
  have same: "heap_shows L a h s" by (rule assms(1))
  have take: "held h (us @ t # vs) (root_of t) = Some (view h t)" "(held h (us @ t # vs))(root_of t := None) = held h (us @ vs)"
    if "pool = us @ t # vs" for us t vs
    using held_at [of us t vs h] d that by simp_all
  show ?thesis
  proof (cases e)
    case (HAdd i)
    then obtain us t vs where p: "pool = us @ t # vs" "root_of t = i" using assms(2) s held_in [of h pool i] by auto
    obtain g where g: "h_AddItemToArray a (Some (root_of t)) h = Some g" "exact L g (PNode a (ks @ [t]) # us @ vs)"
      "plain g (PNode a (ks @ [t]) # us @ vs)" "relinked g h"
      using add_shows [OF h(1) [unfolded p(1)] nr] h(2) [unfolded p(1)] by blast
    have sub: "set (ks @ [t]) \<union> set (us @ vs) \<subseteq> set ks \<union> set pool" using p(1) by auto
    have "t_edit e None s = (view g (PNode a (ks @ [t])), held g (us @ vs))"
      unfolding shows_relinked [OF g(4) h sub] using p take [OF p(1)] by (simp add: HAdd s cJSON_AddItemToArray_def)
    then have "heap_shows L a g (t_edit e None s)" by (rule heap_showsI [OF g(2,3)])
    then show ?thesis using g(1) p(2) by (simp add: HAdd)
  next
    case (HDetach w)
    let ?t = "ks ! nat w" and ?ls = "take (nat w) ks @ drop (Suc (nat w)) ks"
    show ?thesis
    proof (cases "nat w < length ks")
      case True
      obtain g where g: "h_DetachItemFromArray a w h = Some (Some (root_of ?t), g)" "exact L g (?t # PNode a ?ls # pool)"
        "plain g (?t # PNode a ?ls # pool)" "relinked g h"
        using detach_shows [OF h(1) nr True] h(2) by blast
      have sub: "set ?ls \<union> set (?t # pool) \<subseteq> set ks \<union> set pool"
        using True set_take_subset [of "nat w" ks] set_drop_subset [of "Suc (nat w)" ks] by auto
      have "t_edit e (Some (root_of ?t)) s = (view g (PNode a ?ls), held g (?t # pool))"
        unfolding shows_relinked [OF g(4) h sub] using True
        by (simp add: HDetach s cJSON_DetachItemFromArray_def chain_detach_nth held_def take_map drop_map)
      then have "heap_shows L a g (t_edit e (Some (root_of ?t)) s)" by (rule heap_showsI [OF exact_swap(1) [OF g(2)] exact_swap(2) [OF g(2,3)]])
      then show ?thesis using g(1) by (simp add: HDetach)
    next
      case False
      then show ?thesis
        using out_of_range [OF sp(1) False] same by (simp add: HDetach s cJSON_DetachItemFromArray_def chain_detach_nth)
    qed
  next
    case (HDelete w)
    let ?t = "ks ! nat w" and ?ls = "take (nat w) ks @ drop (Suc (nat w)) ks"
    show ?thesis
    proof (cases "nat w < length ks")
      case True
      obtain g where g: "h_DetachItemFromArray a w h = Some (Some (root_of ?t), g)" "exact L g (?t # PNode a ?ls # pool)"
        "plain g (?t # PNode a ?ls # pool)" "relinked g h"
        using detach_shows [OF h(1) nr True] h(2) by blast
      obtain f where f: "cJSON_Delete (Some (root_of ?t)) g = Some f" "exact L f (PNode a ?ls # pool)" "plain f (PNode a ?ls # pool)"
        "\<And>u. u \<in> set (PNode a ?ls # pool) \<Longrightarrow> view f u = view g u"
        using delete_shows [OF g(2,3)] by blast
      have sub: "set ?ls \<union> set pool \<subseteq> set ks \<union> set pool"
        using set_take_subset [of "nat w" ks] set_drop_subset [of "Suc (nat w)" ks] by auto
      have f': "held f pool = held g pool" "view f (PNode a ?ls) = view g (PNode a ?ls)"
        by (rule held_cong, rule f(4), simp) (rule f(4), simp)
      have "t_edit e None s = (view f (PNode a ?ls), held f pool)"
        unfolding f' shows_relinked [OF g(4) h sub] using True
        by (simp add: HDelete s cJSON_DeleteItemFromArray_def cJSON_DetachItemFromArray_def chain_detach_nth take_map drop_map)
      then have "heap_shows L a f (t_edit e None s)" by (rule heap_showsI [OF f(2,3)])
      then show ?thesis using g(1) f(1) by (simp add: HDelete h_DeleteItemFromArray_def)
    next
      case False
      then show ?thesis
        using out_of_range [OF sp(1) False] same
        by (simp add: HDelete s cJSON_DeleteItemFromArray_def cJSON_DetachItemFromArray_def chain_detach_nth)
    qed
  next
    case (HReplace w i)
    then obtain us t vs where p: "pool = us @ t # vs" "root_of t = i" using assms(2) s held_in [of h pool i] by auto
    let ?o = "ks ! nat w" and ?ls = "take (nat w) ks @ t # drop (Suc (nat w)) ks"
    show ?thesis
    proof (cases "nat w < length ks")
      case True
      obtain g where g: "h_ReplaceItemInArray a w (root_of t) h = cJSON_Delete (Some (root_of ?o)) g"
        "exact L g (?o # PNode a ?ls # us @ vs)" "plain g (?o # PNode a ?ls # us @ vs)" "relinked g h"
        using replace_shows [OF h(1) [unfolded p(1)] nr True] h(2) [unfolded p(1)] by blast
      obtain f where f: "cJSON_Delete (Some (root_of ?o)) g = Some f" "exact L f (PNode a ?ls # us @ vs)"
        "plain f (PNode a ?ls # us @ vs)" "\<And>u. u \<in> set (PNode a ?ls # us @ vs) \<Longrightarrow> view f u = view g u"
        using delete_shows [OF g(2,3)] by blast
      have sub: "set ?ls \<union> set (us @ vs) \<subseteq> set ks \<union> set pool"
        using p(1) set_take_subset [of "nat w" ks] set_drop_subset [of "Suc (nat w)" ks] by auto
      have f': "held f (us @ vs) = held g (us @ vs)" "view f (PNode a ?ls) = view g (PNode a ?ls)"
        by (rule held_cong, rule f(4), simp) (rule f(4), simp)
      have "t_edit e None s = (view f (PNode a ?ls), held f (us @ vs))"
        unfolding f' shows_relinked [OF g(4) h sub] using True p take [OF p(1)]
        by (simp add: HReplace s cJSON_ReplaceItemInArray_def chain_replace_nth take_map drop_map)
      then have "heap_shows L a f (t_edit e None s)" by (rule heap_showsI [OF f(2,3)])
      then show ?thesis using g(1) f(1) p(2) by (simp add: HReplace)
    next
      case False
      then show ?thesis
        using out_of_range [OF sp(1) False] same p take [OF p(1)]
        by (simp add: HReplace s cJSON_ReplaceItemInArray_def chain_replace_nth)
    qed
  qed
qed

lemma shows_delete:
  assumes "heap_shows L a h (t, Map.empty)"
  shows "\<exists>g. cJSON_Delete (Some a) h = Some g \<and> cells g = Map.empty \<and> dom (strs g) = L"
proof -
  obtain ks pool where h: "exact L h (PNode a ks # pool)" "held h pool = Map.empty"
    using assms by (auto simp: heap_shows_def)
  have "pool = []" using h(2) by (cases pool) (simp_all add: held_def)
  then show ?thesis using exact_last [of L h "PNode a ks"] h(1) by simp
qed

section \<open>References\<close>

text \<open>\<open>create_reference\<close>: \<open>new\<close> is what \<open>cJSON_malloc\<close> returns.  The copy shares the child chain and the value.\<close>

definition h_create_reference :: "addr option \<Rightarrow> addr \<Rightarrow> 'd heap \<Rightarrow> (addr option \<times> 'd heap) option" where
  "h_create_reference new item h =
     (case new of None \<Rightarrow> Some (None, h)
      | Some r \<Rightarrow> do {
          c \<leftarrow> cells h item;
          Some (Some r, h\<lparr>cells := (cells h)(r \<mapsto>
            c\<lparr>cname := None, ctype := ctype c OR cJSON_IsReference, cnext := None, cprev := None\<rparr>)\<rparr>)
        })"

definition h_AddItemReferenceToArray :: "addr option \<Rightarrow> addr \<Rightarrow> addr \<Rightarrow> 'd heap \<Rightarrow> 'd heap option" where
  "h_AddItemReferenceToArray new array item h = do {
     (r, h) \<leftarrow> h_create_reference new item h;
     h_AddItemToArray array r h
   }"

lemma is_ref_or: "is_ref (c\<lparr>ctype := t OR cJSON_IsReference\<rparr>)"
proof -
  have "bit ((t OR 256) AND (256 :: int)) 8" by (simp add: bit_and_iff bit_or_iff)
  then have "(t OR 256) AND (256 :: int) \<noteq> 0" by (metis bit_0_eq bot_apply bot_bool_def)
  then show ?thesis by (simp add: is_ref_def cJSON_IsReference_def)
qed

lemma reference_exact:
  assumes "exact L h ts" and "cells h i \<noteq> None" and "cells h r = None" and "strs h r = None"
  obtains c g where "h_create_reference (Some r) i h = Some (Some r, g)" "exact L g (PNode r [] # ts)"
    "g = h\<lparr>cells := (cells h)(r \<mapsto> c)\<rparr>" "own_strs g r = []"
proof -
  obtain c where c: "cells h i = Some c" using assms(2) by blast
  let ?c = "c\<lparr>cname := None, ctype := ctype c OR cJSON_IsReference, cnext := None, cprev := None\<rparr>"
  let ?g = "h\<lparr>cells := (cells h)(r \<mapsto> ?c)\<rparr>"
  have ref: "is_ref ?c" using is_ref_or [where c = c and t = "ctype c"] by (simp add: is_ref_def)
  have r: "r \<notin> set (addrs ts)" using roots_cells [of ts h r] assms(1,3) by (auto simp: exact_def owns_def)
  have rs: "r \<notin> set (owned h ts)"
  proof
    assume "r \<in> set (owned h ts)"
    moreover have "x \<in> set (owned h us) \<Longrightarrow> x \<in> set (addrs us) \<or> (\<exists>a\<in>set (addrs us). x \<in> set (own_strs h a))" for x us
      by (induction h us rule: owned.induct) auto
    ultimately obtain a where "a \<in> set (addrs ts)" "r \<in> set (own_strs h a)" using r by blast
    then have "strs h r \<noteq> None" using assms(1) unfolding exact_def owns_def live_strs_def by blast
    then show False using assms(4) by simp
  qed
  have eq: "cells ?g x = cells h x" if "x \<in> set (addrs ts)" for x using that r by auto
  have own: "owned ?g (PNode r [] # ts) = r # owned h ts" using owned_cong [of ts ?g h, OF eq] ref by (simp add: own_strs_def)
  have ch: "chain ?g None [u] None" if "u \<in> set (PNode r [] # ts)" for u
  proof (cases "u = PNode r []")
    case False
    then have "u \<in> set ts" using that by simp
    then show ?thesis
      using chain_outside [OF exact_chain [OF assms(1)], of u ?g] eq addrs_mem [of u ts] by blast
  qed (use ref in simp)
  have "live_strs ?g ts"
    unfolding live_strs_def
  proof (intro ballI)
    fix a s assume a: "a \<in> set (addrs ts)" "s \<in> set (own_strs ?g a)"
    have s: "s \<in> set (own_strs h a)" using a(2) eq [OF a(1)] by (simp add: own_strs_def)
    then have "s \<noteq> r" using own_strs_owned [OF a(1), of h] rs by blast
    moreover have "cells h s = None \<and> strs h s \<noteq> None" using assms(1) a(1) s unfolding exact_def owns_def live_strs_def by blast
    ultimately show "cells ?g s = None \<and> strs ?g s \<noteq> None" by simp
  qed
  then have ls: "live_strs ?g (PNode r [] # ts)" using ref by (simp add: live_strs_Cons own_strs_def) (simp add: live_strs_def)
  have "exact L ?g (PNode r [] # ts)"
    unfolding exact_def owns_def own
    using assms(1,4) rs ch ls by (auto simp: exact_def owns_def heap_ok_def)
  then show thesis using c ref by (intro that [of ?g ?c]) (simp_all add: h_create_reference_def own_strs_def)
qed

text \<open>
  A reference put into an array and deleted with it: what it refers to stays, and so does everything else that the array
  does not own.
\<close>

lemma reference_deleted:
  assumes "exact L h (PNode a ks # ts)" and "\<forall>c. cells h a = Some c \<longrightarrow> \<not> is_ref c"
    and "cells h i \<noteq> None" and "cells h r = None" and "strs h r = None"
  obtains g f where "h_AddItemReferenceToArray (Some r) a i h = Some g" "cJSON_Delete (Some a) g = Some f"
    "f = without h (set (owned h [PNode a ks]))"
proof -
  obtain c g1 where g1: "h_create_reference (Some r) i h = Some (Some r, g1)" "exact L g1 (PNode r [] # PNode a ks # ts)"
    "g1 = h\<lparr>cells := (cells h)(r \<mapsto> c)\<rparr>" "own_strs g1 r = []"
    by (rule reference_exact [OF assms(1,3-5)])
  have live: "cells h a \<noteq> None" using exact_cells [OF assms(1), of "PNode a ks"] by simp
  then have ra: "r \<noteq> a" using assms(4) by metis
  have e: "exact L g1 (PNode a ks # [] @ PNode r [] # ts)" using exact_swap(1) [OF g1(2)] by simp
  have nr: "\<forall>c. cells g1 a = Some c \<longrightarrow> \<not> is_ref c" using assms(2) ra by (simp add: g1(3))
  obtain g where g: "h_AddItemToArray a (Some r) g1 = Some g" "exact L g (PNode a (ks @ [PNode r []]) # ts)" "relinked g g1"
    "\<forall>x. x \<notin> set (a # addrs (ks @ [PNode r []])) \<longrightarrow> cells g x = cells g1 x"
    using add_shows [OF e nr] by auto
  let ?S = "set (owned h [PNode a ks])" and ?t = "PNode a (ks @ [PNode r []])"
  have "cells g1 x = cells h x" if "x \<in> set (addrs [PNode a ks])" for x
    using that exact_cells [OF assms(1), of "PNode a ks"] assms(4) by (auto simp: g1(3))
  then have "owned g1 [PNode a ks] = owned h [PNode a ks]" by (rule owned_cong)
  moreover have "owned g1 [?t] = owned g1 [PNode a ks] @ [r]" by (simp add: g1(4))
  ultimately have own: "set (owned g [?t]) = insert r ?S"
    unfolding relinked_owned [OF g(3)] by (simp add: insert_commute)
  have "cJSON_Delete (Some (root_of ?t)) g = Some (without g (insert r ?S))"
    unfolding own [symmetric] by (rule delete_root(1) [of g ?t ts]) (use g(2) in \<open>simp add: exact_def\<close>)
  moreover have "without g (insert r ?S) = without h ?S"
  proof (rule heap_eqI)
    fix x
    have "a \<in> ?S" "set (addrs ks) \<subseteq> ?S" using addrs_owned [of ks h] by auto
    then show "cells (without g (insert r ?S)) x = cells (without h ?S) x"
      using g(4) assms(4) by (auto simp: g1(3))
    show "strs (without g (insert r ?S)) x = strs (without h ?S) x"
      using assms(5) by (simp add: relinked_strs [OF g(3)] g1(3))
  qed
  moreover have "h_AddItemReferenceToArray (Some r) a i h = Some g"
    using g1(1) g(1) by (simp add: h_AddItemReferenceToArray_def)
  ultimately show thesis by (intro that [of g "without h ?S"]) simp_all
qed

end
