(* ===== verification/CJsonHeapNames.thy ===== *)
theory CJsonHeapNames
  imports CJsonHeapDoc
begin

text \<open>
  The members of an object in memory: the pointer programs that give an item a name and find, detach, delete and replace
  by name, and what they do to a heap that shows a document; reading; and any sequence of calls by index or by name,
  which refines the functions of \<open>CJsonList\<close> and leaks the names that \<open>cJSON_ReplaceItemInObject\<close> overwrites.
\<close>

section \<open>Names\<close>

text \<open>\<open>item->string = cJSON_strdup(string)\<close>; \<open>new\<close> is what \<open>cJSON_malloc\<close> returns.\<close>

definition h_set_name :: "addr option \<Rightarrow> addr \<Rightarrow> byte list \<Rightarrow> 'd heap \<Rightarrow> 'd heap option" where
  "h_set_name new i k h =
     (let h = (case new of None \<Rightarrow> h | Some n \<Rightarrow> h\<lparr>strs := (strs h)(n \<mapsto> k)\<rparr>) in upd i (\<lambda>c. c\<lparr>cname := new\<rparr>) h)"

definition h_AddItemToObject :: "addr option \<Rightarrow> addr \<Rightarrow> byte list \<Rightarrow> addr option \<Rightarrow> 'd heap \<Rightarrow> 'd heap option" where
  "h_AddItemToObject new object string item h =
     (case item of None \<Rightarrow> Some h
      | Some i \<Rightarrow> do {
          c \<leftarrow> cells h i;
          h \<leftarrow> free_if (cname c) h;
          h \<leftarrow> h_set_name new i string h;
          h_AddItemToArray object (Some i) h
        })"

text \<open>What \<open>cJSON_malloc\<close> may return for a new name of \<open>i\<close>: a block that is free, the one of the old name among them.\<close>

definition fresh :: "addr option \<Rightarrow> addr \<Rightarrow> 'd heap \<Rightarrow> bool" where
  "fresh new i h \<longleftrightarrow>
     (\<forall>n. new = Some n \<longrightarrow> cells h n = None \<and> (strs h n = None \<or> map_option cname (cells h i) = Some (Some n)))"

definition new_name :: "addr option \<Rightarrow> byte list \<Rightarrow> byte list option" where
  "new_name new k = (if new = None then None else Some k)"

text \<open>The heap in which an item has lost its name and has a new one.\<close>

definition renamed :: "addr option \<Rightarrow> addr \<Rightarrow> byte list \<Rightarrow> 'd heap \<Rightarrow> 'd heap" where
  "renamed new i k h =
     (let c = the (cells h i); s = (case cname c of None \<Rightarrow> strs h | Some b \<Rightarrow> (strs h)(b := None))
      in h\<lparr>cells := (cells h)(i \<mapsto> c\<lparr>cname := new\<rparr>), strs := (case new of None \<Rightarrow> s | Some n \<Rightarrow> s(n \<mapsto> k))\<rparr>)"

definition links :: "'d cell \<Rightarrow> addr option \<times> addr option \<times> addr option \<times> bool" where
  "links c = (cnext c, cprev c, cchild c, is_ref c)"

lemma chain_links: "(\<And>a. a \<in> set (addrs ts) \<Longrightarrow> map_option links (cells g a) = map_option links (cells h a)) \<Longrightarrow>
    chain g p ts q = chain h p ts q"
proof (induction h p ts q rule: chain.induct)
  case (2 h p a ks ts q)
  have "map_option links (cells g a) = map_option links (cells h a)" by (rule "2.prems") simp
  then show ?case using 2 by (cases "cells g a"; cases "cells h a") (auto simp: links_def)
qed simp

lemma view_cong:
  assumes "plain h [t]" and "\<forall>a\<in>set (addrs [t]). cells h a \<noteq> None \<and> cells g a = cells h a"
    and "\<forall>a\<in>set (addrs [t]). \<forall>s\<in>set (own_strs h a). strs g s = strs h s"
  shows "view g t = view h t"
  using assms
proof (induction t)
  case (PNode a ks)
  obtain c where c: "cells h a = Some c" "\<not> is_ref c" using PNode.prems(1,2) by (auto simp: plain_def)
  then have f: "fields_at g a = fields_at h a"
    using PNode.prems(2,3) by (auto simp: fields_at_def own_strs_def Let_def split: option.splits bind_splits)
  have "view g k = view h k" if k: "k \<in> set ks" for k
    by (rule PNode.IH [OF k]) (use PNode.prems addrs_mem [OF k] in \<open>auto simp: plain_def\<close>)
  with f show ?case by simp
qed

lemma owned_own: "x \<in> set (owned h ts) \<longleftrightarrow> x \<in> set (addrs ts) \<or> (\<exists>a\<in>set (addrs ts). x \<in> set (own_strs h a))"
  by (induction h ts rule: owned.induct) auto

lemma renamed_shows:
  assumes e: "exact L h (us @ PNode i is # vs)" and p: "plain h (us @ PNode i is # vs)" and f: "fresh new i h"
  shows "exact L (renamed new i k h) (us @ PNode i is # vs)" and "plain (renamed new i k h) (us @ PNode i is # vs)"
    and "view (renamed new i k h) (PNode i is) = set_name (view h (PNode i is)) (new_name new k)"
    and "\<And>u. u \<in> set us \<union> set vs \<Longrightarrow> view (renamed new i k h) u = view h u"
proof -
  let ?ts = "us @ PNode i is # vs" and ?g = "renamed new i k h"
  obtain c where c: "cells h i = Some c" using exact_cells [OF e, of "PNode i is"] by auto
  have nr: "\<not> is_ref c" using p c by (simp add: plain_def)
  have gi: "cells ?g i = Some (c\<lparr>cname := new\<rparr>)" by (simp add: renamed_def c Let_def)
  have go: "cells ?g x = cells h x" if "x \<noteq> i" for x using that by (simp add: renamed_def Let_def)
  have gs: "strs ?g x = (if new = Some x then Some k else if cname c = Some x then None else strs h x)" for x
    by (simp add: renamed_def c Let_def split: option.split)
  have rr: "is_ref (c\<lparr>cname := new\<rparr>) = is_ref c" by (simp add: is_ref_def)
  define V N M where "V = (case cvalue c of None \<Rightarrow> [] | Some s \<Rightarrow> [s])" and "N = (case cname c of None \<Rightarrow> [] | Some s \<Rightarrow> [s])"
    and "M = (case new of None \<Rightarrow> [] | Some s \<Rightarrow> [s])"
  have own: "own_strs h i = V @ N" "own_strs ?g i = V @ M" using c gi nr rr by (simp_all add: own_strs_def V_def N_def M_def)
  have mem: "x \<in> set N \<longleftrightarrow> cname c = Some x" "x \<in> set M \<longleftrightarrow> new = Some x" for x
    by (auto simp: N_def M_def split: option.splits)
  have dM: "distinct M" by (simp add: M_def split: option.split)
  have o: "heap_ok h" "distinct (owned h ?ts)" "live_strs h ?ts"
    using exactD(1) [OF e] unfolding owns_def by blast+
  have Lo: "L \<inter> set (owned h ?ts) = {}" "\<And>b. b \<in> L \<Longrightarrow> cells h b = None \<and> strs h b \<noteq> None"
    "\<And>x. cells h x \<noteq> None \<or> strs h x \<noteq> None \<Longrightarrow> x \<in> set (owned h ?ts) \<union> L"
    using exactD(2-4) [OF e] by blast+
  have rc: "\<forall>t\<in>set ?ts. chain h None [t] None" using exactD(1) [OF e] unfolding owns_def by blast
  have d: "i \<notin> set (addrs us)" "i \<notin> set (addrs is)" "i \<notin> set (addrs vs)" using distinct_addrs [OF o(2)] by auto
  have oo: "own_strs ?g x = own_strs h x" if "x \<noteq> i" for x using go [OF that] by (simp add: own_strs_def)
  have cong: "owned ?g us = owned h us" "owned ?g is = owned h is" "owned ?g vs = owned h vs"
    by (rule owned_cong; use go d in metis)+
  define R where "R = owned h us @ i # V @ owned h is @ owned h vs"
  have O: "set (owned h ?ts) = set R \<union> set N" "set (owned ?g ?ts) = set R \<union> set M"
    by (auto simp: own cong R_def)
  have live: "x \<in> set (owned h ?ts) \<Longrightarrow> cells h x \<noteq> None \<or> strs h x \<noteq> None" for x
    using roots_cells [OF rc, of x] o(3) unfolding owned_own live_strs_def by blast
  have dR: "distinct R" "set R \<inter> set N = {}" using o(2) by (auto simp: own R_def)
  have M: "x \<in> set M \<Longrightarrow> cells h x = None \<and> (strs h x = None \<or> x \<in> set N)" for x
    using f c by (auto simp: fresh_def mem)
  have Mo: "set M \<inter> set R = {}" using M live O(1) dR(2) by blast
  have N: "x \<in> set N \<Longrightarrow> cells h x = None" for x
    using o(3) own(1) by (simp add: live_strs_def)
  have lk: "map_option links (cells ?g x) = map_option links (cells h x)" for x
    by (cases "x = i") (simp_all add: go gi c links_def rr)
  have ch: "chain ?g None [u] None" if "u \<in> set ?ts" for u
    using exact_chain [OF e that] chain_links [of "[u]" ?g h, OF lk] by simp
  have dg: "distinct (owned ?g ?ts)"
    using dR(1) dM Mo unfolding O by (auto simp: own cong R_def)
  have Rs: "cells ?g s = None \<and> strs ?g s \<noteq> None" if "s \<in> set R" "cells h s = None" "strs h s \<noteq> None" for s
  proof -
    have "s \<noteq> i" "cname c \<noteq> Some s" "new \<noteq> Some s" using that c dR(2) Mo O(1) by (auto simp flip: mem)
    then show ?thesis using that by (simp add: go gs)
  qed
  have ls: "live_strs ?g ?ts"
    unfolding live_strs_def
  proof (intro ballI)
    fix x s assume x: "x \<in> set (addrs ?ts)" "s \<in> set (own_strs ?g x)"
    have h: "s \<in> set (own_strs h x) \<Longrightarrow> cells h s = None \<and> strs h s \<noteq> None"
      using o(3) x(1) unfolding live_strs_def by blast
    show "cells ?g s = None \<and> strs ?g s \<noteq> None"
    proof (cases "x = i")
      case True
      then have "s \<in> set V \<or> s \<in> set M" using x(2) own(2) by simp
      then show ?thesis
      proof
        assume "s \<in> set V"
        then show ?thesis using Rs [of s] h True own(1) by (simp add: R_def)
      next
        assume s: "s \<in> set M"
        then have "s \<noteq> i" using M [OF s] c by auto
        then show ?thesis using s M [OF s] go [of s] gs [of s] by (simp add: mem)
      qed
    next
      case False
      then have "x \<in> set (addrs us) \<union> set (addrs is) \<union> set (addrs vs)" using x(1) by auto
      then have "s \<in> set R" using x(2) oo [OF False] own_strs_owned [of x _ h] by (auto simp: R_def)
      then show ?thesis using Rs h x(2) oo [OF False] by simp
    qed
  qed
  have ni: "x \<notin> L" if "x \<in> set M" for x using M [OF that] Lo(1,2) O(1) that by blast
  have "x \<in> set (owned ?g ?ts) \<union> L" if "cells ?g x \<noteq> None \<or> strs ?g x \<noteq> None" for x
  proof (cases "new = Some x")
    case True
    then show ?thesis using O(2) mem(2) by simp
  next
    case False
    then have "cells h x \<noteq> None \<or> strs h x \<noteq> None \<and> cname c \<noteq> Some x"
      using that go [of x] gs [of x] c by (cases "x = i") (auto split: if_splits)
    then have "x \<in> set R \<union> set N \<union> L" "x \<notin> set N" using Lo(3) [of x] O(1) N [of x] mem(1) by auto
    then show ?thesis unfolding O(2) by blast
  qed
  moreover have "heap_ok ?g"
    unfolding heap_ok_def
  proof
    fix x
    have "cells h x = None \<or> strs h x = None" using o(1) by (simp add: heap_ok_def)
    then show "cells ?g x = None \<or> strs ?g x = None"
      using M [of x] c by (cases "x = i") (auto simp: go gs mem)
  qed
  moreover have "L \<inter> set (owned ?g ?ts) = {}" using Lo(1) ni O by blast
  moreover have "cells ?g b = None \<and> strs ?g b \<noteq> None" if "b \<in> L" for b
  proof -
    have "b \<noteq> i" "cname c \<noteq> Some b" "new \<noteq> Some b" using that Lo(2) [OF that] Lo(1) [unfolded O(1)] ni [of b] c by (auto simp flip: mem)
    then show ?thesis using Lo(2) [OF that] by (simp add: go gs)
  qed
  ultimately show "exact L ?g ?ts" using ch dg ls by (simp only: exact_def owns_def) blast
  show "plain ?g ?ts"
    unfolding plain_def
  proof (intro ballI allI impI)
    fix a c' assume a: "a \<in> set (addrs ?ts)" "cells ?g a = Some c'"
    show "\<not> is_ref c'"
    proof (cases "a = i")
      case True
      then show ?thesis using a(2) gi rr nr by simp
    next
      case False
      then show ?thesis using a p go [of a] unfolding plain_def by metis
    qed
  qed
  have same: "strs ?g s = strs h s" if "s \<in> set R" "strs h s \<noteq> None" for s
    using that dR(2) Mo O(1) gs [of s] mem by auto
  have vu: "view ?g u = view h u" if u: "set (addrs [u]) \<subseteq> set (addrs us) \<union> set (addrs is) \<union> set (addrs vs)" for u
  proof (rule view_cong)
    show "plain h [u]" using p u by (auto simp: plain_def)
    show "\<forall>a\<in>set (addrs [u]). cells h a \<noteq> None \<and> cells ?g a = cells h a"
    proof
      fix a assume "a \<in> set (addrs [u])"
      then have "a \<in> set (addrs ?ts)" "a \<noteq> i" using u d by auto
      then show "cells h a \<noteq> None \<and> cells ?g a = cells h a"
        using roots_cells [OF rc, of a] by (simp add: go)
    qed
    show "\<forall>a\<in>set (addrs [u]). \<forall>s\<in>set (own_strs h a). strs ?g s = strs h s"
    proof (intro ballI)
      fix a s assume a: "a \<in> set (addrs [u])" "s \<in> set (own_strs h a)"
      then have "s \<in> set R" using u own_strs_owned [of a _ h] by (auto simp: R_def)
      moreover have "a \<in> set (addrs ?ts)" using a(1) u by auto
      ultimately show "strs ?g s = strs h s" using same a(2) o(3) unfolding live_strs_def by blast
    qed
  qed
  show "view ?g u = view h u" if "u \<in> set us \<union> set vs" for u
    by (rule vu) (use that addrs_mem [of u us] addrs_mem [of u vs] in blast)
  have "strs ?g s = strs h s" if "cvalue c = Some s" for s
  proof -
    have "s \<in> set V" using that by (simp add: V_def)
    then show ?thesis using same [of s] o(3) own(1) by (auto simp: R_def live_strs_def)
  qed
  then have "Option.bind (cvalue c) (strs ?g) = Option.bind (cvalue c) (strs h)" by (cases "cvalue c") simp_all
  moreover have "Option.bind new (strs ?g) = new_name new k" using gs by (cases new) (simp_all add: new_name_def)
  ultimately have "fields_at ?g i = (fields_at h i)\<lparr>jname := new_name new k\<rparr>" by (simp add: fields_at_def gi c Let_def)
  moreover have "map (view ?g) is = map (view h) is" by (rule map_cong [OF refl], rule vu) (use addrs_mem [of _ "is"] in blast)
  ultimately show "view ?g (PNode i is) = set_name (view h (PNode i is)) (new_name new k)"
    by (simp add: set_name_def)
qed

text \<open>One more string that nothing owns.\<close>

definition stray :: "addr \<Rightarrow> byte list \<Rightarrow> 'd heap \<Rightarrow> 'd heap" where
  "stray b v h = h\<lparr>strs := (strs h)(b \<mapsto> v)\<rparr>"

lemma stray_simps [simp]: "cells (stray b v h) = cells h" "strs (stray b v h) x = (if x = b then Some v else strs h x)"
  by (simp_all add: stray_def)

lemma stray_shows:
  assumes "exact L h ts" and "plain h ts" and b: "cells h b = None" "strs h b = None"
  shows "exact (insert b L) (stray b v h) ts" and "plain (stray b v h) ts"
    and "\<And>t. t \<in> set ts \<Longrightarrow> view (stray b v h) t = view h t"
proof -
  let ?g = "stray b v h"
  note e = exactD [OF assms(1)]
  have own: "own_strs ?g x = own_strs h x" for x by (simp add: own_strs_def)
  have ow: "owned ?g us = owned h us" for us by (rule owned_cong) simp
  have ch: "chain ?g p us q = chain h p us q" for p us q by (rule chain_links) simp
  have h: "heap_ok h" "\<forall>t\<in>set ts. chain h None [t] None" "distinct (owned h ts)" "live_strs h ts"
    using e(1) unfolding owns_def by blast+
  have live: "x \<in> set (owned h ts) \<Longrightarrow> x \<noteq> b" for x
    using roots_cells [OF h(2), of x] h(4) b unfolding owned_own live_strs_def by blast
  have "heap_ok ?g" using h(1) b by (simp add: heap_ok_def)
  moreover have "live_strs ?g ts" using h(4) unfolding live_strs_def own by auto
  ultimately have "owns ?g ts" using h(2,3) by (simp add: owns_def ow ch)
  then show "exact (insert b L) ?g ts"
  proof (rule exactI)
    show "insert b L \<inter> set (owned ?g ts) = {}" using e(2) live by (auto simp: ow)
    show "cells ?g x = None \<and> strs ?g x \<noteq> None" if "x \<in> insert b L" for x using that e(3) b by auto
    show "x \<in> set (owned ?g ts) \<union> insert b L" if "cells ?g x \<noteq> None \<or> strs ?g x \<noteq> None" for x
      using that e(4) by (cases "x = b") (auto simp: ow)
  qed
  show "plain ?g ts" using assms(2) by (simp add: plain_def)
  fix t assume t: "t \<in> set ts"
  show "view ?g t = view h t"
  proof (rule view_cong)
    show "plain h [t]" using assms(2) addrs_mem [OF t] by (auto simp: plain_def)
    show "\<forall>a\<in>set (addrs [t]). cells h a \<noteq> None \<and> cells ?g a = cells h a" using exact_cells [OF assms(1) t] by simp
    show "\<forall>a\<in>set (addrs [t]). \<forall>s\<in>set (own_strs h a). strs ?g s = strs h s"
    proof (intro ballI)
      fix a s assume "a \<in> set (addrs [t])" "s \<in> set (own_strs h a)"
      then have "s \<in> set (owned h ts)" using addrs_mem [OF t] own_strs_owned [of a ts h] by blast
      then show "strs ?g s = strs h s" using live by simp
    qed
  qed
qed

lemma stray_heap_shows:
  assumes "heap_shows L a h s" and "cells h b = None" and "strs h b = None"
  shows "heap_shows (insert b L) a (stray b v h) s"
proof -
  obtain ks pool where h: "exact L h (PNode a ks # pool)" "plain h (PNode a ks # pool)" "s = (view h (PNode a ks), held h pool)"
    using assms(1) by (auto simp: heap_shows_def)
  note st = stray_shows [where v = v, OF h(1,2) assms(2,3)]
  have "held (stray b v h) pool = held h pool" by (rule held_cong) (rule st(3), simp)
  then show ?thesis using heap_showsI [OF st(1,2)] st(3) [of "PNode a ks"] h(3) by (simp del: view.simps)
qed

section \<open>Finding a member\<close>

text \<open>\<open>while (c && cJSON_strcasecmp(c->string,string)) i++,c=c->next;\<close>\<close>

partial_function (option) find_named ::
  "addr option \<Rightarrow> byte list option \<Rightarrow> int \<Rightarrow> 'd heap \<Rightarrow> (int \<times> addr option) option" where
  "find_named p string i h =
     (case p of None \<Rightarrow> Some (i, None)
      | Some a \<Rightarrow> do {
          c \<leftarrow> cells h a;
          name \<leftarrow> (case cname c of None \<Rightarrow> Some None | Some s \<Rightarrow> map_option Some (strs h s));
          (case strcasecmp_eq (cstr name) (cstr string) of
             Done same \<Rightarrow> if same then Some (i, Some a) else find_named (cnext c) string (i + 1) h
           | _ \<Rightarrow> None)
        })"

definition h_GetObjectItem :: "addr \<Rightarrow> byte list option \<Rightarrow> 'd heap \<Rightarrow> addr option option" where
  "h_GetObjectItem object string h = do {
     obj \<leftarrow> cells h object;
     (i, c) \<leftarrow> find_named (cchild obj) string 0 h;
     Some c
   }"

definition h_DetachItemFromObject :: "addr \<Rightarrow> byte list option \<Rightarrow> 'd heap \<Rightarrow> (addr option \<times> 'd heap) option" where
  "h_DetachItemFromObject object string h = do {
     obj \<leftarrow> cells h object;
     (i, c) \<leftarrow> find_named (cchild obj) string 0 h;
     (if c \<noteq> None then h_DetachItemFromArray object i h else Some (None, h))
   }"

definition h_DeleteItemFromObject :: "addr \<Rightarrow> byte list option \<Rightarrow> 'd heap \<Rightarrow> 'd heap option" where
  "h_DeleteItemFromObject object string h = do {
     (c, h) \<leftarrow> h_DetachItemFromObject object string h;
     cJSON_Delete c h
   }"

text \<open>The name that \<open>newitem\<close> had is not freed.\<close>

definition h_ReplaceItemInObject :: "addr option \<Rightarrow> addr \<Rightarrow> byte list \<Rightarrow> addr \<Rightarrow> 'd heap \<Rightarrow> 'd heap option" where
  "h_ReplaceItemInObject new object string newitem h = do {
     obj \<leftarrow> cells h object;
     (i, c) \<leftarrow> find_named (cchild obj) (Some string) 0 h;
     (if c \<noteq> None then do {
        h \<leftarrow> h_set_name new newitem string h;
        h_ReplaceItemInArray object i newitem h
      } else Some h)
   }"

lemma same_ci_Done: "\<exists>b. same_ci (s @ [0]) (t @ [0]) = Done b"
proof (induction s arbitrary: t)
  case Nil
  then show ?case by (cases t) (auto simp: tolower_0 tolower_zero)
next
  case (Cons a s)
  then show ?case by (cases t) (auto simp: tolower_0 tolower_zero)
qed

lemma strcasecmp_Done: obtains b where "strcasecmp_eq (cstr s) (cstr t) = Done b"
  using same_ci_Done by (cases s; cases t) (auto simp: strcasecmp_eq_def cstr_def)

definition names_live :: "'d heap \<Rightarrow> ptree list \<Rightarrow> bool" where
  "names_live h ts \<longleftrightarrow> (\<forall>t\<in>set ts. \<forall>c s. cells h (root_of t) = Some c \<longrightarrow> cname c = Some s \<longrightarrow> strs h s \<noteq> None)"

text \<open>The loop finds what \<open>chain_find\<close> finds, the first match.\<close>

lemma find_named_chain:
  assumes "chain h p ts None" and "names_live h ts"
  shows "(chain_find (map (view h) ts) k i = Done None \<and> find_named (first ts None) k i h = Some (i + int (length ts), None)) \<or>
    (\<exists>n<length ts. chain_find (map (view h) ts) k i = Done (Some (i + int n, view h (ts ! n))) \<and>
      find_named (first ts None) k i h = Some (i + int n, Some (root_of (ts ! n))))"
  using assms
proof (induction ts arbitrary: p i)
  case Nil
  then show ?case by (simp add: find_named.simps)
next
  case (Cons t ts)
  obtain a ks where t: "t = PNode a ks" by (cases t)
  obtain c where c: "cells h a = Some c" "cnext c = first ts None" "chain h (Some a) ts None"
    using Cons.prems(1) t by (auto split: option.splits)
  have "(case cname c of None \<Rightarrow> Some None | Some s \<Rightarrow> map_option Some (strs h s)) = Some (jname (cJSON.fields (view h t)))"
    using Cons.prems(2) c(1) by (auto simp: t names_live_def fields_at_def split: option.split)
  moreover obtain b where b: "strcasecmp_eq (cstr (jname (cJSON.fields (view h t)))) (cstr k) = Done b" by (rule strcasecmp_Done)
  ultimately have f: "find_named (first (t # ts) None) k i h =
      (if b then Some (i, Some a) else find_named (first ts None) k (i + 1) h)"
    using c(1,2) by (simp add: t find_named.simps [of "Some a"])
  show ?case
  proof (cases b)
    case True
    then show ?thesis using f b by (intro disjI2 exI [of _ 0]) (simp add: t)
  next
    case False
    have "names_live h ts" using Cons.prems(2) by (simp add: names_live_def)
    from Cons.IH [OF c(3) this, of "i + 1"] show ?thesis
    proof (elim disjE exE conjE)
      fix n assume "n < length ts" "chain_find (map (view h) ts) k (i + 1) = Done (Some (i + 1 + int n, view h (ts ! n)))"
        "find_named (first ts None) k (i + 1) h = Some (i + 1 + int n, Some (root_of (ts ! n)))"
      then show ?thesis using f b False by (intro disjI2 exI [of _ "Suc n"]) (simp add: add.assoc)
    qed (use f b False in simp)
  qed
qed

section \<open>Calls\<close>

datatype hcall =
    HEdit hedit
  | HInsert "byte list" "addr option" addr
  | HDetachNamed "byte list option"
  | HDeleteNamed "byte list option"
  | HReplaceNamed "byte list" "addr option" addr

fun h_call :: "hcall \<Rightarrow> addr \<Rightarrow> 'd heap \<Rightarrow> (addr option \<times> 'd heap) option" where
  "h_call (HEdit e) a h = h_edit e a h"
| "h_call (HInsert k new i) a h = map_option (\<lambda>h. (None, h)) (h_AddItemToObject new a k (Some i) h)"
| "h_call (HDetachNamed k) a h = h_DetachItemFromObject a k h"
| "h_call (HDeleteNamed k) a h = map_option (\<lambda>h. (None, h)) (h_DeleteItemFromObject a k h)"
| "h_call (HReplaceNamed k new i) a h = map_option (\<lambda>h. (None, h)) (h_ReplaceItemInObject new a k i h)"

text \<open>The same call on items, in the functions of \<open>CJsonList\<close>.\<close>

fun t_call :: "hcall \<Rightarrow> addr option \<Rightarrow> 'd doc \<Rightarrow> 'd doc outcome" where
  "t_call (HEdit e) r s = Done (t_edit e r s)"
| "t_call (HInsert k new i) r (t, P) = Done (cJSON_AddItemToObject (\<lambda>_. new \<noteq> None) t k (P i), P(i := None))"
| "t_call (HDetachNamed k) r (t, P) =
     and_then (cJSON_DetachItemFromObject t k) (\<lambda>(x, t').
       Done (t', case r of None \<Rightarrow> P | Some i \<Rightarrow> P(i := x)))"
| "t_call (HDeleteNamed k) r (t, P) = and_then (cJSON_DeleteItemFromObject t k) (\<lambda>t'. Done (t', P))"
| "t_call (HReplaceNamed k new i) r (t, P) =
     (case P i of None \<Rightarrow> Done (t, P)
      | Some x \<Rightarrow>
          and_then (chain_find (children t) (Some k) 0) (\<lambda>found.
          and_then (cJSON_ReplaceItemInObject (\<lambda>_. new \<noteq> None) t k x) (\<lambda>t'.
            Done (t', if found \<noteq> None then P(i := None) else P))))"

text \<open>What a caller must see to: it holds the item, and a new name is put into a block that is free.\<close>

definition unused :: "addr option \<Rightarrow> 'd heap \<Rightarrow> bool" where
  "unused new h \<longleftrightarrow> (\<forall>n. new = Some n \<longrightarrow> cells h n = None \<and> strs h n = None)"

fun ready :: "hcall \<Rightarrow> 'd heap \<Rightarrow> 'd doc \<Rightarrow> bool" where
  "ready (HEdit e) h s \<longleftrightarrow> enabled e s"
| "ready (HInsert k new i) h (t, P) \<longleftrightarrow> P i \<noteq> None \<and> fresh new i h"
| "ready (HReplaceNamed k new i) h (t, P) \<longleftrightarrow> P i \<noteq> None \<and> unused new h"
| "ready _ h s \<longleftrightarrow> True"

text \<open>The string a call leaks: the name that an item had before it replaced a member by name.\<close>

fun leaks :: "hcall \<Rightarrow> 'd heap \<Rightarrow> 'd doc \<Rightarrow> addr set" where
  "leaks (HReplaceNamed k new i) h (t, P) =
     (if chain_find (children t) (Some k) 0 = Done None then {} else set_option (Option.bind (cells h i) cname))"
| "leaks _ h s = {}"

lemma set_name_renamed:
  assumes "cells h i = Some c" and "\<forall>b. cname c = Some b \<longrightarrow> cells h b = None \<and> strs h b \<noteq> None"
  shows "Option.bind (free_if (cname c) h) (h_set_name new i k) = Some (renamed new i k h)"
  using assms
  by (cases "cname c"; cases new)
    (simp_all add: free_if_def cJSON_free_def h_set_name_def upd_def renamed_def Let_def)

text \<open>An item of the caller's is given another name.\<close>

lemma rename_shows:
  assumes "heap_shows L a h (t, P)" and "P i = Some x" and "fresh new i h"
  obtains c where "cells h i = Some c" "\<forall>b. cname c = Some b \<longrightarrow> cells h b = None \<and> strs h b \<noteq> None"
    "Option.bind (free_if (cname c) h) (h_set_name new i k) = Some (renamed new i k h)"
    "heap_shows L a (renamed new i k h) (t, P(i \<mapsto> set_name x (new_name new k)))"
proof -
  let ?g = "renamed new i k h"
  obtain ks pool where h: "exact L h (PNode a ks # pool)" "plain h (PNode a ks # pool)" "t = view h (PNode a ks)" "P = held h pool"
    using assms(1) by (auto simp: heap_shows_def)
  obtain us vs "is" where pool: "pool = us @ PNode i is # vs"
    using held_in [of h pool i] assms(2) h(4) by (metis option.distinct(1) ptree.collapse)
  have d: "distinct (addrs (us @ PNode i is # vs))"
    using exact_split(4) [OF h(1) plain_root [OF h(2)]] pool by simp
  have x: "x = view h (PNode i is)" using held_at(1) [OF d, of h] assms(2) h(4) pool by simp
  obtain c where c: "cells h i = Some c" using exact_cells [OF h(1), of "PNode i is"] pool by auto
  have nm: "cells h b = None \<and> strs h b \<noteq> None" if b: "cname c = Some b" for b
  proof -
    have "live_strs h (PNode a ks # pool)" using h(1) unfolding exact_def owns_def by blast
    moreover have "i \<in> set (addrs (PNode a ks # pool))" "b \<in> set (own_strs h i)" using b c pool by (simp_all add: own_strs_def)
    ultimately show ?thesis unfolding live_strs_def by blast
  qed
  have rs: "exact L ?g (PNode a ks # us @ PNode i is # vs)" "plain ?g (PNode a ks # us @ PNode i is # vs)"
    "view ?g (PNode i is) = set_name x (new_name new k)"
    "\<And>u. u \<in> set (PNode a ks # us) \<union> set vs \<Longrightarrow> view ?g u = view h u"
    using renamed_shows [where us = "PNode a ks # us" and k = k, unfolded append_Cons, OF h(1,2) [unfolded pool] assms(3)]
    unfolding x by blast+
  have "held ?g pool = P(i \<mapsto> set_name x (new_name new k))"
  proof -
    have o: "held ?g (us @ vs) = held h (us @ vs)" by (rule held_cong) (use rs(4) in auto)
    have "held ?g pool = (held ?g (us @ vs))(i \<mapsto> set_name x (new_name new k))"
      using held_at(3) [OF d, of ?g] unfolding rs(3) by (simp only: pool ptree.sel)
    also have "held ?g (us @ vs) = P(i := None)" using held_at(2) [OF d, of h] by (simp add: o pool h(4))
    finally show ?thesis by (simp only: fun_upd_upd)
  qed
  moreover have "view ?g (PNode a ks) = t" using rs(4) [of "PNode a ks"] h(3) by simp
  ultimately have sh: "heap_shows L a ?g (t, P(i \<mapsto> set_name x (new_name new k)))"
    using rs(1,2) pool heap_showsI [of L ?g a ks pool] by simp
  have "\<forall>b. cname c = Some b \<longrightarrow> cells h b = None \<and> strs h b \<noteq> None" using nm by blast
  from that [OF c this set_name_renamed [OF c this] sh] show thesis .
qed

text \<open>A name overwritten and not freed is left over.\<close>

lemma overwrite_shows:
  assumes "heap_shows L a h (t, P)" and "P i = Some x" and "unused new h"
  obtains g where "h_set_name new i k h = Some g"
    "heap_shows (L \<union> set_option (Option.bind (cells h i) cname)) a g (t, P(i \<mapsto> set_name x (new_name new k)))"
proof -
  let ?r = "renamed new i k h"
  have f: "fresh new i h" using assms(3) by (simp add: fresh_def unused_def)
  obtain c where c: "cells h i = Some c" "\<forall>b. cname c = Some b \<longrightarrow> cells h b = None \<and> strs h b \<noteq> None"
    "Option.bind (free_if (cname c) h) (h_set_name new i k) = Some ?r"
    "heap_shows L a ?r (t, P(i \<mapsto> set_name x (new_name new k)))"
    by (rule rename_shows [where k = k, OF assms(1,2) f])
  show thesis
  proof (cases "cname c")
    case None
    then show ?thesis using c by (intro that [of ?r]) (simp_all add: free_if_def)
  next
    case (Some b)
    then obtain v where v: "cells h b = None" "strs h b = Some v" using c(2) by blast
    have b: "b \<noteq> i" "new \<noteq> Some b" using v c(1) assms(3) by (auto simp: unused_def)
    have r: "cells ?r b = None" "strs ?r b = None"
      using b v(1) by (simp_all add: renamed_def Let_def c(1) Some split: option.split)
    have "h_set_name new i k h = Some (stray b v ?r)"
    proof -
      let ?g = "h\<lparr>cells := (cells h)(i \<mapsto> c\<lparr>cname := new\<rparr>),
        strs := (case new of None \<Rightarrow> strs h | Some n \<Rightarrow> (strs h)(n \<mapsto> k))\<rparr>"
      have "h_set_name new i k h = Some ?g" using c(1) by (cases new) (simp_all add: h_set_name_def upd_def)
      moreover have "?g = stray b v ?r"
        by (rule heap_eqI) (use b v c(1) in \<open>auto simp: renamed_def Let_def Some split: option.split\<close>)
      ultimately show ?thesis by simp
    qed
    then show ?thesis using stray_heap_shows [OF c(4) r] c(1) Some by (intro that) simp_all
  qed
qed

lemma exact_names:
  assumes "exact L h (PNode a ks # pool)"
  shows "names_live h ks"
proof -
  have "live_strs h (PNode a ks # pool)" using assms unfolding exact_def owns_def by blast
  then have "live_strs h ks" unfolding live_strs_def by auto
  then show "names_live h ks"
    unfolding names_live_def live_strs_def
  proof (intro ballI allI impI)
    fix u c s assume *: "\<forall>a\<in>set (addrs ks). \<forall>s\<in>set (own_strs h a). cells h s = None \<and> strs h s \<noteq> None"
      and u: "u \<in> set ks" "cells h (root_of u) = Some c" "cname c = Some s"
    have "root_of u \<in> set (addrs ks)" using addrs_mem [OF u(1)] root_in [of u] by blast
    moreover have "s \<in> set (own_strs h (root_of u))" using u by (simp add: own_strs_def)
    ultimately show "strs h s \<noteq> None" using * by blast
  qed
qed

lemma find_shows:
  assumes "heap_shows L a h (t, P)"
  obtains obj where "cells h a = Some obj"
    "(\<exists>m. chain_find (children t) k 0 = Done None \<and> find_named (cchild obj) k 0 h = Some (m, None)) \<or>
     (\<exists>n i. n < length (children t) \<and> chain_find (children t) k 0 = Done (Some (int n, children t ! n)) \<and>
       find_named (cchild obj) k 0 h = Some (int n, Some i))"
proof -
  obtain ks pool where h: "exact L h (PNode a ks # pool)" "plain h (PNode a ks # pool)" "t = view h (PNode a ks)"
    using assms by (auto simp: heap_shows_def)
  have ar: "array_at h None a ks None" by (rule exact_split(1) [OF h(1) plain_root [OF h(2)]])
  have n: "names_live h ks" by (rule exact_names [OF h(1)])
  obtain c where c: "cells h a = Some c" "cchild c = first ks None" "chain h None ks None"
    using ar by (auto simp: array_at_def)
  show thesis
    by (rule that [OF c(1)]) (use find_named_chain [OF c(3) n, of k 0] c(2) h(3) in auto)
qed

text \<open>A call that is \<open>ready\<close> runs, and shows what the function on items computes.\<close>

lemma call_shows:
  assumes sh: "heap_shows L a h s" and rd: "ready c h s"
  shows "\<exists>r g u. h_call c a h = Some (r, g) \<and> t_call c r s = Done u \<and> heap_shows (L \<union> leaks c h s) a g u"
proof -
  obtain t P where s: "s = (t, P)" by (cases s)
  show ?thesis
  proof (cases c)
    case (HEdit e)
    then show ?thesis using edit_shows [OF sh, of e] rd by auto
  next
    case (HInsert k new i)
    then obtain x where x: "P i = Some x" "fresh new i h" using rd s by auto
    obtain c' where c': "cells h i = Some c'"
      "Option.bind (free_if (cname c') h) (h_set_name new i k) = Some (renamed new i k h)"
      "heap_shows L a (renamed new i k h) (t, P(i \<mapsto> set_name x (new_name new k)))"
      by (rule rename_shows [where k = k, OF sh [unfolded s] x])
    obtain g where g: "h_AddItemToArray a (Some i) (renamed new i k h) = Some g"
      "heap_shows L a g (cJSON_AddItemToArray t (Some (set_name x (new_name new k))), P(i := None))"
      using edit_shows [OF c'(3), of "HAdd i"] by auto
    have "h_AddItemToObject new a k (Some i) h = Some g"
      using c'(1,2) g(1) by (auto simp: h_AddItemToObject_def bind_eq_Some_conv)
    then show ?thesis
      using g(2) x(1) by (auto simp: HInsert s cJSON_AddItemToObject_def strdup_opt_def new_name_def)
  next
    case (HDetachNamed k)
    obtain obj where o: "cells h a = Some obj" and f: "(\<exists>m. chain_find (children t) k 0 = Done None \<and> find_named (cchild obj) k 0 h = Some (m, None)) \<or>
     (\<exists>n i. n < length (children t) \<and> chain_find (children t) k 0 = Done (Some (int n, children t ! n)) \<and>
       find_named (cchild obj) k 0 h = Some (int n, Some i))"
      by (rule find_shows [OF sh [unfolded s]])
    from f show ?thesis
    proof (elim disjE exE conjE)
      fix n i assume "chain_find (children t) k 0 = Done (Some (int n, children t ! n))"
        "find_named (cchild obj) k 0 h = Some (int n, Some i)"
      then show ?thesis
        using edit_shows [OF sh, of "HDetach (int n)"] o
        by (auto simp: HDetachNamed s h_DetachItemFromObject_def cJSON_DetachItemFromObject_def split: prod.splits)
    qed (use o sh in \<open>simp add: HDetachNamed s h_DetachItemFromObject_def cJSON_DetachItemFromObject_def\<close>)
  next
    case (HDeleteNamed k)
    obtain obj where o: "cells h a = Some obj" and f: "(\<exists>m. chain_find (children t) k 0 = Done None \<and> find_named (cchild obj) k 0 h = Some (m, None)) \<or>
     (\<exists>n i. n < length (children t) \<and> chain_find (children t) k 0 = Done (Some (int n, children t ! n)) \<and>
       find_named (cchild obj) k 0 h = Some (int n, Some i))"
      by (rule find_shows [OF sh [unfolded s]])
    note defs = h_DeleteItemFromObject_def h_DetachItemFromObject_def cJSON_DeleteItemFromObject_def cJSON_DetachItemFromObject_def
    from f show ?thesis
    proof (elim disjE exE conjE)
      fix n i assume fnd: "chain_find (children t) k 0 = Done (Some (int n, children t ! n))"
        "find_named (cchild obj) k 0 h = Some (int n, Some i)"
      obtain g where "h_DeleteItemFromArray a (int n) h = Some g" "heap_shows L a g (cJSON_DeleteItemFromArray t (int n), P)"
        using edit_shows [OF sh, of "HDelete (int n)"] s by auto
      then show ?thesis
        using fnd o by (simp add: HDeleteNamed s defs h_DeleteItemFromArray_def cJSON_DeleteItemFromArray_def split_beta)
    qed (use o sh in \<open>simp add: HDeleteNamed s defs cJSON_Delete.simps [of None]\<close>)
  next
    case (HReplaceNamed k new i)
    then obtain x where x: "P i = Some x" "unused new h" using rd s by auto
    obtain h' where h': "h_set_name new i k h = Some h'"
      "heap_shows (L \<union> set_option (Option.bind (cells h i) cname)) a h' (t, P(i \<mapsto> set_name x (new_name new k)))"
      by (rule overwrite_shows [where k = k, OF sh [unfolded s] x])
    obtain obj where o: "cells h a = Some obj" and f: "(\<exists>m. chain_find (children t) (Some k) 0 = Done None \<and> find_named (cchild obj) (Some k) 0 h = Some (m, None)) \<or>
     (\<exists>n i. n < length (children t) \<and> chain_find (children t) (Some k) 0 = Done (Some (int n, children t ! n)) \<and>
       find_named (cchild obj) (Some k) 0 h = Some (int n, Some i))"
      by (rule find_shows [OF sh [unfolded s]])
    from f show ?thesis
    proof (elim disjE exE conjE)
      fix n j assume fnd: "n < length (children t)" "chain_find (children t) (Some k) 0 = Done (Some (int n, children t ! n))"
        "find_named (cchild obj) (Some k) 0 h = Some (int n, Some j)"
      obtain g where "h_ReplaceItemInArray a (int n) i h' = Some g"
        "heap_shows (L \<union> set_option (Option.bind (cells h i) cname)) a g (cJSON_ReplaceItemInArray t (int n) (set_name x (new_name new k)), P(i := None))"
        using edit_shows [OF h'(2), of "HReplace (int n) i"] fnd(1) by auto
      then show ?thesis
        using fnd o h'(1) x(1)
        by (cases new) (simp_all add: HReplaceNamed s h_ReplaceItemInObject_def cJSON_ReplaceItemInObject_def
            strdup_opt_def new_name_def)
    qed (use o sh x(1) in \<open>simp add: HReplaceNamed s h_ReplaceItemInObject_def cJSON_ReplaceItemInObject_def\<close>)
  qed
qed

section \<open>Reading\<close>

definition child_at :: "ptree list \<Rightarrow> int \<Rightarrow> ptree option" where
  "child_at ks w = (if nat w < length ks then Some (ks ! nat w) else None)"

lemma chain_item_child: "chain_item (map (view h) ks) w = map_option (view h) (child_at ks w)"
proof (induction ks arbitrary: w)
  case (Cons k ks)
  show ?case
  proof (cases "0 < w")
    case True
    then have "nat w = Suc (nat (w - 1))" by simp
    with True show ?thesis by (simp add: Cons.IH child_at_def)
  qed (simp add: child_at_def)
qed (simp add: child_at_def)

lemma chain_size_length: "chain_size cs i = i + of_nat (length cs)"
  by (induction cs i rule: chain_size.induct) (simp_all add: algebra_simps)

text \<open>The three ways to read: the address returned is that of the child whose item \<open>CJsonList\<close> returns.\<close>

lemma reads_show:
  assumes "exact L h (PNode a ks # pool)" and "plain h (PNode a ks # pool)"
  shows "h_GetArraySize a h = Some (cJSON_GetArraySize (view h (PNode a ks)))"
    and "h_GetArrayItem a w h = Some (map_option root_of (child_at ks w)) \<and>
      cJSON_GetArrayItem (view h (PNode a ks)) w = map_option (view h) (child_at ks w)"
    and "\<exists>m. (m = None \<or> m \<in> Some ` set ks) \<and> h_GetObjectItem a k h = Some (map_option root_of m) \<and>
      cJSON_GetObjectItem (view h (PNode a ks)) k = Done (map_option (view h) m)"
proof -
  have "array_at h None a ks None" by (rule exact_split(1) [OF assms(1) plain_root [OF assms(2)]])
  then obtain c where c: "cells h a = Some c" "cchild c = first ks None" "chain h None ks None"
    by (auto simp: array_at_def)
  show "h_GetArraySize a h = Some (cJSON_GetArraySize (view h (PNode a ks)))"
    using c count_chain [OF c(3)] by (simp add: h_GetArraySize_def cJSON_GetArraySize_def chain_size_length)
  show "h_GetArrayItem a w h = Some (map_option root_of (child_at ks w)) \<and>
      cJSON_GetArrayItem (view h (PNode a ks)) w = map_option (view h) (child_at ks w)"
    using c nth_child_chain [OF c(3)]
    by (simp add: h_GetArrayItem_def cJSON_GetArrayItem_def chain_item_child) (simp add: child_at_def)
  have n: "names_live h ks" using exact_names [OF assms(1)] .
  show "\<exists>m. (m = None \<or> m \<in> Some ` set ks) \<and> h_GetObjectItem a k h = Some (map_option root_of m) \<and>
      cJSON_GetObjectItem (view h (PNode a ks)) k = Done (map_option (view h) m)"
    using find_named_chain [OF c(3) n, of k 0]
  proof (elim disjE exE conjE)
    fix m assume "m < length ks" "chain_find (map (view h) ks) k 0 = Done (Some (0 + int m, view h (ks ! m)))"
      "find_named (first ks None) k 0 h = Some (0 + int m, Some (root_of (ks ! m)))"
    then show ?thesis
      using c by (intro exI [of _ "Some (ks ! m)"]) (simp add: h_GetObjectItem_def cJSON_GetObjectItem_def)
  qed (use c in \<open>auto simp: h_GetObjectItem_def cJSON_GetObjectItem_def\<close>)
qed

section \<open>Sequences of calls\<close>

text \<open>Calls on the document at \<open>a\<close>, each \<open>ready\<close> when its turn comes; \<open>M\<close> collects what they leak.\<close>

inductive call_run :: "addr \<Rightarrow> 'd heap \<Rightarrow> 'd doc \<Rightarrow> addr set \<Rightarrow> 'd heap \<Rightarrow> 'd doc \<Rightarrow> bool" where
  "call_run a h s {} h s"
| "call_run a h s M g t \<Longrightarrow> ready c g t \<Longrightarrow> h_call c a g = Some (r, f) \<Longrightarrow> t_call c r t = Done u \<Longrightarrow>
   call_run a h s (M \<union> leaks c g t) f u"

lemma run_shows: "call_run a h s M g t \<Longrightarrow> heap_shows {} a h s \<Longrightarrow> heap_shows M a g t"
proof (induction rule: call_run.induct)
  case (2 a h s M g t c r f u)
  obtain r' g' u' where *: "h_call c a g = Some (r', g')" "t_call c r' t = Done u'" "heap_shows (M \<union> leaks c g t) a g' u'"
    using call_shows [OF "2.IH" [OF "2.prems"] "2.hyps"(2)] by blast
  then have "r' = r" "g' = f" "u' = u" using "2.hyps"(3,4) by simp_all
  with *(3) show ?case by simp
qed simp


text \<open>
  C32: \<open>cJSON_ReplaceItemInObject\<close> leaks: it overwrites the name of the new item without freeing it (unlike
  \<open>cJSON_AddItemToObject\<close>), so if the member is found and the new item had a name, at \<open>b\<close>, the call replaces the
  member and \<open>b\<close> stays live while no item owns it any more.
\<close>

theorem replace_by_name_leaks:
  assumes "heap_shows L a h (t, P)" and "P i = Some x" and "unused new h"
    and "chain_find (children t) (Some k) 0 \<noteq> Done None" and "cells h i = Some c" and "cname c = Some b"
  shows "\<exists>g t'. h_ReplaceItemInObject new a k i h = Some g \<and> heap_shows (insert b L) a g (t', P(i := None)) \<and>
    cJSON_ReplaceItemInObject (\<lambda>_. new \<noteq> None) t k x = Done t' \<and> strs g b \<noteq> None"
proof -
  have rd: "ready (HReplaceNamed k new i) h (t, P)" using assms(2,3) by simp
  obtain r g u where g: "h_call (HReplaceNamed k new i) a h = Some (r, g)" "t_call (HReplaceNamed k new i) r (t, P) = Done u"
    "heap_shows (L \<union> leaks (HReplaceNamed k new i) h (t, P)) a g u"
    using call_shows [OF assms(1) rd] by blast
  obtain found t' where f: "chain_find (children t) (Some k) 0 = Done found"
    "cJSON_ReplaceItemInObject (\<lambda>_. new \<noteq> None) t k x = Done t'" "u = (t', if found \<noteq> None then P(i := None) else P)"
    using g(2) assms(2) by (auto simp: and_then_Done_iff)
  have sh: "heap_shows (insert b L) a g (t', P(i := None))" using g(3) f assms(4-6) by auto
  then have "strs g b \<noteq> None" by (auto simp: heap_shows_def dest: exactD(3))
  then show ?thesis using g(1) f(2) sh by auto
qed

text \<open>
  C31: \<open>cJSON_Delete\<close> of an item that, with other items, owns its blocks: it ends, frees exactly the cells, values and names
  of the item and what is below it, each once, none of a reference's children or value, and leaves the other items as they were.
\<close>

theorem json_delete_exact:
  assumes "owns h (t # ts)"
  shows "cJSON_Delete (Some (root_of t)) h = Some (without h (set (owned h [t]))) \<and>
    owns (without h (set (owned h [t]))) ts \<and> owned (without h (set (owned h [t]))) ts = owned h ts"
  using delete_root [OF assms] by blast

section \<open>An example\<close>

text \<open>At 0 an object with one member, null, at 1, with the name at 2; at 3 a \<open>false\<close> of the caller's with the name at 4.\<close>

definition demo_cell :: "int \<Rightarrow> addr option \<Rightarrow> addr option \<Rightarrow> unit cell" where
  "demo_cell ty kid nm = \<lparr>cnext = None, cprev = None, cchild = kid, ctype = ty, cvalue = None, cint = 0, cdouble = (),
     clong = 0, cname = nm\<rparr>"

definition demo_heap :: "unit heap" where
  "demo_heap =
     \<lparr>cells = [0 \<mapsto> demo_cell 6 (Some 1) None, 1 \<mapsto> demo_cell 2 None (Some 2), 3 \<mapsto> demo_cell 0 None (Some 4)],
      strs = [2 \<mapsto> [0x61], 4 \<mapsto> [0x62]]\<rparr>"

definition demo_doc :: "unit doc" where
  "demo_doc = (view demo_heap (PNode 0 [PNode 1 []]), held demo_heap [PNode 3 []])"

lemma demo_sel: "cells demo_heap a = (if a = 0 then Some (demo_cell 6 (Some 1) None) else
    if a = 1 then Some (demo_cell 2 None (Some 2)) else if a = 3 then Some (demo_cell 0 None (Some 4)) else None)"
  "strs demo_heap a = (if a = 2 then Some [0x61] else if a = 4 then Some [0x62] else None)"
  by (auto simp: demo_heap_def)

lemma demo_not_ref: "\<not> is_ref (demo_cell 6 k n)" "\<not> is_ref (demo_cell 2 k n)" "\<not> is_ref (demo_cell 0 k n)"
  by (simp_all add: is_ref_def demo_cell_def cJSON_IsReference_def)

lemma demo_owned: "owned demo_heap [PNode 0 [PNode 1 []], PNode 3 []] = [0, 1, 2, 3, 4]"
  by (simp add: own_strs_def demo_sel demo_not_ref) (simp add: demo_cell_def)

lemma demo_owns: "owns demo_heap [PNode 0 [PNode 1 []], PNode 3 []]"
proof -
  have "heap_ok demo_heap" by (simp add: heap_ok_def demo_sel)
  moreover have "chain demo_heap None [PNode 0 [PNode 1 []]] None" "chain demo_heap None [PNode 3 []] None"
    by (simp_all add: demo_sel demo_not_ref) (simp_all add: demo_cell_def)
  moreover have "live_strs demo_heap [PNode 0 [PNode 1 []], PNode 3 []]"
    by (simp add: live_strs_def own_strs_def demo_sel demo_not_ref) (simp add: demo_cell_def)
  ultimately show ?thesis unfolding owns_def demo_owned by simp
qed

lemma demo_exact: "exact {} demo_heap [PNode 0 [PNode 1 []], PNode 3 []]"
  by (rule exactI [OF demo_owns]) (simp_all only: demo_owned demo_sel, auto split: if_splits)

lemma demo_shows: "heap_shows {} 0 demo_heap (fst demo_doc, snd demo_doc)"
proof (rule heap_showsI [OF demo_exact])
  show "plain demo_heap [PNode 0 [PNode 1 []], PNode 3 []]" by (simp add: plain_def demo_sel demo_not_ref)
qed (simp add: demo_doc_def)

lemma demo_parts:
  "snd demo_doc 3 = Some (view demo_heap (PNode 3 []))"
  "(snd demo_doc)(3 := None) = Map.empty" "unused (Some 5) demo_heap" "cells demo_heap 3 = Some (demo_cell 0 None (Some 4))"
  "cname (demo_cell 0 None (Some 4)) = Some 4"
  by (auto simp: demo_doc_def held_def unused_def demo_sel demo_cell_def)

lemma demo_find: "chain_find (children (fst demo_doc)) (Some [0x41]) 0 \<noteq> Done None"
  by (simp add: demo_doc_def fields_at_def demo_sel demo_cell_def cstr_def strcasecmp_eq_def tolower.simps)

theorem json_delete_exact_witness:
  "cJSON_Delete (Some 0) demo_heap = Some (without demo_heap {0, 1, 2}) \<and> owns (without demo_heap {0, 1, 2}) [PNode 3 []]"
proof -
  have "owned demo_heap [PNode 0 [PNode 1 []]] = [0, 1, 2]"
    by (simp add: own_strs_def demo_sel demo_not_ref) (simp add: demo_cell_def)
  then have "set (owned demo_heap [PNode 0 [PNode 1 []]]) = {0, 1, 2}" by simp
  then show ?thesis using json_delete_exact [OF demo_owns] by (simp del: owned.simps)
qed

theorem replace_by_name_leaks_witness:
  "\<exists>g. h_ReplaceItemInObject (Some 5) 0 [0x41] 3 demo_heap = Some g \<and> strs g 4 \<noteq> None"
  using replace_by_name_leaks [OF demo_shows demo_parts(1,3) demo_find demo_parts(4,5)] by blast


end
