(* ===== verification/CJsonError.thy ===== *)
theory CJsonError
  imports CJsonRoundtrip "HOL-Library.Sublist"
begin

text \<open>
  The error pointer of \<^verbatim>\<open>json/cJSON.c\<close>: what \<open>cJSON_GetErrorPtr\<close> returns after \<open>cJSON_Parse\<close>, which sets it to 0
  first.  What the parser leaves, and where it fails, are ends of the text.
\<close>

section \<open>The error pointer\<close>

definition cJSON_GetErrorPtr :: "'a outcome \<Rightarrow> byte list option" where
  "cJSON_GetErrorPtr parsed = (case parsed of Fail ep \<Rightarrow> ep | _ \<Rightarrow> None)"

section \<open>Ends of the text\<close>

lemma suffix_tl: "suffix v w \<Longrightarrow> suffix (tl v) w"
  using suffix_order.trans [of "tl v" v w] by (simp add: suffix_def) (metis append_is_Nil_conv append_Cons append_Nil hd_Cons_tl tl_Nil)

lemma suffix_drop_le: "suffix v w \<Longrightarrow> suffix (drop n v) w"
  using suffix_drop suffix_order.trans by blast

lemma skip_suffix: "skip v = Done w \<Longrightarrow> suffix w v \<and> w \<noteq> []"
  by (induction v) (auto split: if_splits intro: suffix_ConsI)

lemma skip_no_Fail [simp]: "skip v \<noteq> Fail ep"
  by (induction v) auto

lemma unicode_escape_suffix: "unicode_escape sx cap p out us = Some (p', out', us') \<Longrightarrow> suffix p' p"
  by (auto simp: unicode_escape_def Let_def suffix_drop simp flip: drop_drop split: if_splits option.splits
      intro: suffix_drop_le suffix_drop)

lemma escape_suffix: "escape sx cap p out us = Some (p', out', us') \<Longrightarrow> suffix p' p"
  by (auto simp: escape_def Let_def dest: unicode_escape_suffix split: if_splits list.splits)

lemma copy_loop_suffix: "copy_loop sx cap p out us = Some (q, out') \<Longrightarrow> suffix q p"
proof (induction "length p" arbitrary: p out us rule: less_induct)
  case less
  show ?case
  proof (cases p)
    case (Cons c r)
    show ?thesis
    proof (cases "c = 0x22 \<or> c = 0 \<or> c \<noteq> 0x5C")
      case True
      then show ?thesis using less.prems less.hyps [of r _ us] Cons by (auto split: if_splits option.splits intro: suffix_ConsI)
    next
      case False
      then obtain x p' out2 us2 where e: "escape sx cap r out us = Some (x # p', out2, us2)"
        "copy_loop sx cap p' out2 us2 = Some (q, out')"
        using less.prems Cons by (auto split: option.splits list.splits)
      have "suffix q p'" using less.hyps [OF _ e(2)] escape_shorter [OF e(1)] Cons by simp
      moreover have "suffix p' r" using suffix_ConsD [OF escape_suffix [OF e(1)]] .
      ultimately show ?thesis using Cons suffix_order.trans by (blast intro: suffix_ConsI)
    qed
  qed (use less.prems in simp)
qed

lemma parse_string_suffix:
  assumes "parse_string (\<lambda>_. True) sx v = r"
  shows "r = Done (s, p) \<Longrightarrow> suffix p v" and "r = Fail ep \<Longrightarrow> ep = Some v \<and> v \<noteq> []"
  using assms
  by (auto simp: parse_string_def split: list.splits if_splits option.splits dest!: copy_loop_suffix intro!: suffix_ConsI suffix_tl)

lemma digits_suffix: "digits f v s = Done (t, p) \<Longrightarrow> suffix p v"
  by (induction f v s rule: digits.induct) (auto split: if_splits intro: suffix_ConsI)

lemma digits_no_Fail [simp]: "digits f v s \<noteq> Fail ep"
  by (induction f v s rule: digits.induct) auto

lemma number_steps_suffix: "number_sign v = Done (sg, p) \<Longrightarrow> suffix p v" "number_zero v = Done p \<Longrightarrow> suffix p v"
  "number_int v = Done (m, p) \<Longrightarrow> suffix p v" "number_frac D v n = Done (ns, p) \<Longrightarrow> suffix p v"
  "number_exp v = Done (ex, p) \<Longrightarrow> suffix p v"
  by (auto simp: number_sign_def number_zero_def number_int_def number_frac_def number_exp_def peek_Done_iff and_then_Done_iff
      Let_def split: if_splits dest!: digits_suffix intro: suffix_ConsI)

lemma and_then_Fail_iff: "and_then r f = Fail ep \<longleftrightarrow> r = Fail ep \<or> (\<exists>x. r = Done x \<and> f x = Fail ep)"
  by (cases r) simp_all

lemma peek_Fail_iff: "peek v f = Fail ep \<longleftrightarrow> (\<exists>c r. v = c # r \<and> f c r = Fail ep)"
  by (cases v) auto

lemma parse_number_suffix: "parse_number D nd v = Done (nd', p) \<Longrightarrow> suffix p v" "parse_number D nd v \<noteq> Fail ep"
proof -
  assume "parse_number D nd v = Done (nd', p)"
  then obtain sg v1 v2 m v3 n sc v4 ex where *: "number_sign v = Done (sg, v1)" "number_zero v1 = Done v2"
    "number_int v2 = Done (m, v3)" "number_frac D v3 (d_of_int D (sint m)) = Done ((n, sc), v4)" "number_exp v4 = Done (ex, p)"
    by (auto simp: parse_number_def and_then_Done_iff Let_def)
  then show "suffix p v" using number_steps_suffix suffix_order.trans by metis
next
  show "parse_number D nd v \<noteq> Fail ep"
    by (auto simp: parse_number_def and_then_Fail_iff peek_Fail_iff number_sign_def number_zero_def number_int_def
        number_frac_def number_exp_def Let_def split: if_splits prod.splits)
qed

lemma has_prefix_no_Fail [simp]: "has_prefix v lit \<noteq> Fail ep"
  by (induction v lit rule: has_prefix.induct) auto

lemma parse_word_suffix: "parse_word nd v = Done (Some (item, p)) \<Longrightarrow> suffix p v" "parse_word nd v \<noteq> Fail ep"
  by (auto simp: parse_word_def and_then_Done_iff and_then_Fail_iff suffix_drop split: if_splits)

lemma also_then_Fail_iff: "also_then r f = Some (Fail ep) \<longleftrightarrow> r = Some (Fail ep) \<or> (\<exists>x. r = Some (Done x) \<and> f x = Some (Fail ep))"
  by (auto simp: also_then_def split: option.split outcome.split)

text \<open>A failure at a character of the text.\<close>

definition fails_in :: "byte list option \<Rightarrow> byte list \<Rightarrow> bool" where
  "fails_in ep v \<longleftrightarrow> (\<exists>p. ep = Some p \<and> suffix p v \<and> p \<noteq> [])"

lemma fails_in_suffix: "fails_in ep w \<Longrightarrow> suffix w v \<Longrightarrow> fails_in ep v"
  unfolding fails_in_def using suffix_order.trans by blast

lemma fails_in_Some: "fails_in (Some w) v \<longleftrightarrow> suffix w v \<and> w \<noteq> []"
  by (simp add: fails_in_def)

lemmas skip_end = skip_suffix [THEN conjunct1]

text \<open>The three functions of the parser, when allocations succeed: where they leave off and where they fail.\<close>

lemma parse_suffix:
  "parse_value (\<lambda>_. True) sx D fuel nd v = Some r \<Longrightarrow>
    (\<forall>item p. r = Done (item, p) \<longrightarrow> suffix p v) \<and> (\<forall>ep. r = Fail ep \<longrightarrow> fails_in ep v)"
  "parse_elements (\<lambda>_. True) sx D fuel cs v = Some q \<Longrightarrow>
    (\<forall>ds p. q = Done (ds, p) \<longrightarrow> suffix p v) \<and> (\<forall>ep. q = Fail ep \<longrightarrow> fails_in ep v)"
  "parse_members (\<lambda>_. True) sx D fuel cs v = Some q \<Longrightarrow>
    (\<forall>ds p. q = Done (ds, p) \<longrightarrow> suffix p v) \<and> (\<forall>ep. q = Fail ep \<longrightarrow> fails_in ep v)"
proof (induction fuel arbitrary: nd v r cs q)
  case (Suc fuel)
  {
    case 1
    show ?case
    proof (cases "parse_word nd v")
      case w: (Done w)
      show ?thesis
      proof (cases "w = None \<and> v \<noteq> []")
        case True
        then obtain c u where None: "w = None" and v: "v = c # u" by (cases v) auto
        have u: "suffix v' v" if "skip u = Done v'" for v' using skip_end [OF that] v by (simp add: suffix_ConsI)
        have el: "suffix p v" if "skip u = Done v'" "parse_elements (\<lambda>_. True) sx D fuel [] v' = Some (Done (cs, p))" for v' cs p
          using Suc.IH(2) [OF that(2)] suffix_order.trans [OF _ u [OF that(1)]] by simp
        have ef: "fails_in ep v"
          if "skip u = Done v'" "parse_elements (\<lambda>_. True) sx D fuel [] v' = Some (Fail ep)" for v' ep
          using Suc.IH(2) [OF that(2)] fails_in_suffix [OF _ u [OF that(1)]] by simp
        have ml: "suffix p v" if "skip u = Done v'" "parse_members (\<lambda>_. True) sx D fuel [] v' = Some (Done (cs, p))" for v' cs p
          using Suc.IH(3) [OF that(2)] suffix_order.trans [OF _ u [OF that(1)]] by simp
        have mf: "fails_in ep v"
          if "skip u = Done v'" "parse_members (\<lambda>_. True) sx D fuel [] v' = Some (Fail ep)" for v' ep
          using Suc.IH(3) [OF that(2)] fails_in_suffix [OF _ u [OF that(1)]] by simp
        have t: "suffix (tl v') v" if "skip u = Done v'" for v'
          by (rule suffix_tl [OF u [OF that]])
        have s: "suffix p v" if "parse_string (\<lambda>_. True) sx v = Done (s, p)" for s p
          using parse_string_suffix(1) [OF refl that] .
        have sf: "fails_in ep v" if "parse_string (\<lambda>_. True) sx v = Fail ep" for ep
          using parse_string_suffix(2) [OF refl that] by (simp add: fails_in_Some)
        have n: "suffix p v" if "parse_number D nd v = Done (nd', p)" for nd' p
          using parse_number_suffix(1) [OF that] .
        show ?thesis
        proof (intro conjI allI impI)
          fix item p assume "r = Done (item, p)"
          then show "suffix p v" using 1 w None v el ml t s n by (auto simp: also_then_Done_iff split: if_splits)
        next
          fix ep assume "r = Fail ep"
          then show "fails_in ep v"
            using 1 w None v ef mf sf
            by (auto simp: also_then_Fail_iff parse_number_suffix(2) fails_in_Some split: if_splits)
        qed
      next
        case False
        then show ?thesis using 1 w parse_word_suffix(1) [of nd v] by (cases w) auto
      qed
    qed (use 1 in \<open>auto simp: parse_word_suffix(2)\<close>)
  next
    case 2
    show ?case
    proof (intro conjI allI impI)
      fix ds p assume "q = Done (ds, p)"
      then obtain nd' v1 item v2 v3 where *: "skip v = Done v1" "parse_value (\<lambda>_. True) sx D fuel nd' v1 = Some (Done (item, v2))"
        "skip v2 = Done v3" "parse_elements (\<lambda>_. True) sx D fuel (cs @ [item]) (tl v3) = Some (Done (ds, p)) \<or> p = tl v3"
        using 2 by (auto simp: also_then_Done_iff split: if_splits)
      have "suffix p (tl v3)" using *(4) Suc.IH(2) by auto
      moreover have "suffix v2 v" using suffix_order.trans [OF _ skip_end [OF *(1)]] Suc.IH(1) [OF *(2)] by simp
      then have "suffix (tl v3) v" by (rule suffix_tl [OF suffix_order.trans [OF skip_end [OF *(3)]]])
      ultimately show "suffix p v" by (rule suffix_order.trans)
    next
      fix ep assume "q = Fail ep"
      then consider nd' v1 where "skip v = Done v1" "parse_value (\<lambda>_. True) sx D fuel nd' v1 = Some (Fail ep)"
        | nd' v1 item v2 v3 where "skip v = Done v1" "parse_value (\<lambda>_. True) sx D fuel nd' v1 = Some (Done (item, v2))"
          "skip v2 = Done v3" "parse_elements (\<lambda>_. True) sx D fuel (cs @ [item]) (tl v3) = Some (Fail ep) \<or> ep = Some v3"
        using 2 by (auto simp: also_then_Fail_iff cJSON_New_Item_def split: if_splits)
      then show "fails_in ep v"
      proof cases
        case 1
        then show ?thesis using fails_in_suffix [OF _ skip_end [OF 1(1)]] Suc.IH(1) [OF 1(2)] by simp
      next
        case 2
        have "suffix v2 v" using suffix_order.trans [OF _ skip_end [OF 2(1)]] Suc.IH(1) [OF 2(2)] by simp
        then have v3: "suffix v3 v" by (rule suffix_order.trans [OF skip_end [OF 2(3)]])
        have "fails_in ep (tl v3)" if "parse_elements (\<lambda>_. True) sx D fuel (cs @ [item]) (tl v3) = Some (Fail ep)"
          using Suc.IH(2) [OF that] by simp
        then show ?thesis
          using 2(4) fails_in_suffix [OF _ suffix_tl [OF v3], of ep] v3 skip_suffix [OF 2(3)] by (auto simp: fails_in_Some)
      qed
    qed
  next
    case 3
    have member: "suffix v3 v" "suffix v4 v" if "skip v = Done v1" "parse_string (\<lambda>_. True) sx v1 = Done (k, v2)"
      "skip v2 = Done v3" "skip (tl v3) = Done v4" for v1 k v2 v3 v4
    proof -
      have "suffix v2 v" by (rule suffix_order.trans [OF parse_string_suffix(1) [OF refl that(2)] skip_end [OF that(1)]])
      then show "suffix v3 v" by (rule suffix_order.trans [OF skip_end [OF that(3)]])
      then show "suffix v4 v" by (rule suffix_order.trans [OF skip_end [OF that(4)] suffix_tl])
    qed
    show ?case
    proof (intro conjI allI impI)
      fix ds p assume "q = Done (ds, p)"
      then obtain nd' v1 k v2 v3 v4 item v5 v6 where *: "skip v = Done v1" "parse_string (\<lambda>_. True) sx v1 = Done (k, v2)"
        "skip v2 = Done v3" "skip (tl v3) = Done v4" "parse_value (\<lambda>_. True) sx D fuel nd' v4 = Some (Done (item, v5))"
        "skip v5 = Done v6" "parse_members (\<lambda>_. True) sx D fuel (cs @ [item]) (tl v6) = Some (Done (ds, p)) \<or> p = tl v6"
        using 3 by (auto simp: also_then_Done_iff split: if_splits)
      have "suffix p (tl v6)" using *(7) Suc.IH(3) by auto
      moreover have "suffix v5 v" using suffix_order.trans [OF _ member(2) [OF *(1-4)]] Suc.IH(1) [OF *(5)] by simp
      then have "suffix (tl v6) v" by (rule suffix_tl [OF suffix_order.trans [OF skip_end [OF *(6)]]])
      ultimately show "suffix p v" by (rule suffix_order.trans)
    next
      fix ep assume "q = Fail ep"
      then consider v1 where "skip v = Done v1" "parse_string (\<lambda>_. True) sx v1 = Fail ep"
        | v1 k v2 v3 where "skip v = Done v1" "parse_string (\<lambda>_. True) sx v1 = Done (k, v2)" "skip v2 = Done v3" "ep = Some v3"
        | v1 k v2 v3 v4 nd' where "skip v = Done v1" "parse_string (\<lambda>_. True) sx v1 = Done (k, v2)" "skip v2 = Done v3"
          "skip (tl v3) = Done v4" "parse_value (\<lambda>_. True) sx D fuel nd' v4 = Some (Fail ep)"
        | v1 k v2 v3 v4 nd' item v5 v6 where "skip v = Done v1" "parse_string (\<lambda>_. True) sx v1 = Done (k, v2)" "skip v2 = Done v3"
          "skip (tl v3) = Done v4" "parse_value (\<lambda>_. True) sx D fuel nd' v4 = Some (Done (item, v5))" "skip v5 = Done v6"
          "parse_members (\<lambda>_. True) sx D fuel (cs @ [item]) (tl v6) = Some (Fail ep) \<or> ep = Some v6"
        using 3 by (auto simp: also_then_Fail_iff cJSON_New_Item_def split: if_splits)
      then show "fails_in ep v"
      proof cases
        case 1
        then show ?thesis using parse_string_suffix(2) [OF refl 1(2)] skip_end [OF 1(1)] by (simp add: fails_in_Some)
      next
        case 2
        have "suffix v2 v" by (rule suffix_order.trans [OF parse_string_suffix(1) [OF refl 2(2)] skip_end [OF 2(1)]])
        then have "suffix v3 v" by (rule suffix_order.trans [OF skip_end [OF 2(3)]])
        then show ?thesis using 2(4) skip_suffix [OF 2(3)] by (simp add: fails_in_Some)
      next
        case 3
        then show ?thesis using fails_in_suffix [OF _ member(2) [OF 3(1-4)]] Suc.IH(1) [OF 3(5)] by simp
      next
        case 4
        have "suffix v5 v" using suffix_order.trans [OF _ member(2) [OF 4(1-4)]] Suc.IH(1) [OF 4(5)] by simp
        then have v6: "suffix v6 v" by (rule suffix_order.trans [OF skip_end [OF 4(6)]])
        have "fails_in ep (tl v6)" if "parse_members (\<lambda>_. True) sx D fuel (cs @ [item]) (tl v6) = Some (Fail ep)"
          using Suc.IH(3) [OF that] by simp
        then show ?thesis
          using 4(7) fails_in_suffix [OF _ suffix_tl [OF v6], of ep] v6 skip_suffix [OF 4(6)] by (auto simp: fails_in_Some)
      qed
    qed
  }
qed simp_all

section \<open>Properties\<close>



end
