(* ===== verification/PbAccessors.thy ===== *)
theory PbAccessors
  imports PbMessages
begin

text \<open>
  The accessors of the generated classes of \<^verbatim>\<open>kite_remoting.pb.h\<close> beyond the has-bits and
    setters
  of the class theories.  A getter is the selector of the record.  \<open>mutable_x\<close> returns a pointer to
    the field; its
  definition takes what the caller writes through it (for a header, \<open>put_header\<close>). 
    \<open>release_x\<close> of a string gives
  its string away, or a null pointer while the field still points at the shared empty string; which of the two is the
  argument \<open>own\<close>.  \<open>set_x\<close> of a \<open>const char*\<close> reads up to the terminator,
    of a pointer and a size that many bytes.

  \<open>M_made\<close> is the set of messages that any sequence of these calls, on the message and on the
    messages inside it,
  can make; the lemmas show that each is well formed.
\<close>

definition c_str :: "byte list \<Rightarrow> byte list" where
  "c_str s = takeWhile (\<lambda>c. c \<noteq> 0) s"

lemma lit_bits: "bit (1 :: int32) n \<longleftrightarrow> n = 0" "bit (2 :: int32) n \<longleftrightarrow> n = 1"
  "bit (4 :: int32) n \<longleftrightarrow> n = 2" "bit (8 :: int32) n \<longleftrightarrow> n = 3" "bit (16 ::
    int32) n \<longleftrightarrow> n = 4"
  "bit (32 :: int32) n \<longleftrightarrow> n = 5" "bit (64 :: int32) n \<longleftrightarrow> n = 6" "bit (128
    :: int32) n \<longleftrightarrow> n = 7"
  "bit (512 :: int32) n \<longleftrightarrow> n = 9"
proof -
  have pow: "bit (2 ^ k :: int32) n \<longleftrightarrow> k < 32 \<and> n = k" for k
    by (auto simp: bit_exp_iff)
  show "bit (1 :: int32) n \<longleftrightarrow> n = 0" "bit (2 :: int32) n \<longleftrightarrow> n = 1"
    "bit (4 :: int32) n \<longleftrightarrow> n = 2" "bit (8 :: int32) n \<longleftrightarrow> n = 3" "bit (16 ::
    int32) n \<longleftrightarrow> n = 4"
    "bit (32 :: int32) n \<longleftrightarrow> n = 5" "bit (64 :: int32) n \<longleftrightarrow> n = 6" "bit (128
    :: int32) n \<longleftrightarrow> n = 7"
    "bit (512 :: int32) n \<longleftrightarrow> n = 9"
    using pow [of 0] pow [of 1] pow [of 2] pow [of 3] pow [of 4] pow [of 5] pow [of 6] pow [of 7] pow [of 9] by
    simp_all
qed

lemmas set_bits = lit_bits bit_and_iff bit_or_iff bit_not_iff possible_bit_word imp_disjL all_conj_distrib

section \<open>HeartBeat\<close>

definition HeartBeat_clear_has_version :: "'u heartBeat \<Rightarrow> 'u heartBeat" where
  "HeartBeat_clear_has_version m = m\<lparr>hbt_bits := hbt_bits m AND NOT 1\<rparr>"

definition HeartBeat_clear_version :: "'u heartBeat \<Rightarrow> 'u heartBeat" where
  "HeartBeat_clear_version m = HeartBeat_clear_has_version (m\<lparr>hbt_version := 0\<rparr>)"

lemmas HeartBeat_accessor_defs = HeartBeat_clear_has_version_def HeartBeat_clear_version_def

inductive HeartBeat_made :: "'u heartBeat \<Rightarrow> bool" where
  "HeartBeat_made HeartBeat_new"
| "HeartBeat_made m \<Longrightarrow> HeartBeat_made (HeartBeat_set_version v m)"
| "HeartBeat_made m \<Longrightarrow> HeartBeat_made (HeartBeat_clear_version m)"

lemma HeartBeat_made_built: "HeartBeat_made m \<Longrightarrow> HeartBeat_built m"
  by (induction rule: HeartBeat_made.induct)
    (simp_all add: HeartBeat_built_def HeartBeat_new_def HeartBeat_has_iffs HeartBeat_accessor_defs
    HeartBeat_set_defs Let_def set_bits
      del: bit_numeral_word_iff split: option.splits)

section \<open>ConnMeta\<close>

definition ConnMeta_clear_has_groupid :: "'u connMeta \<Rightarrow> 'u connMeta" where
  "ConnMeta_clear_has_groupid m = m\<lparr>cmt_bits := cmt_bits m AND NOT 1\<rparr>"

definition ConnMeta_clear_groupid :: "'u connMeta \<Rightarrow> 'u connMeta" where
  "ConnMeta_clear_groupid m = ConnMeta_clear_has_groupid (m\<lparr>cmt_groupid := []\<rparr>)"

definition ConnMeta_set_groupid_chars :: "byte list \<Rightarrow> 'u connMeta \<Rightarrow> 'u connMeta" where
  "ConnMeta_set_groupid_chars s m = (ConnMeta_set_has_groupid m)\<lparr>cmt_groupid := c_str s\<rparr>"

definition ConnMeta_set_groupid_size :: "byte list \<Rightarrow> nat \<Rightarrow> 'u connMeta \<Rightarrow> 'u
    connMeta" where
  "ConnMeta_set_groupid_size s n m = (ConnMeta_set_has_groupid m)\<lparr>cmt_groupid := take n s\<rparr>"

definition ConnMeta_mutable_groupid :: "(byte list \<Rightarrow> byte list) \<Rightarrow> 'u connMeta
    \<Rightarrow> 'u connMeta" where
  "ConnMeta_mutable_groupid g m = (ConnMeta_set_has_groupid m)\<lparr>cmt_groupid := g (cmt_groupid m)\<rparr>"

definition ConnMeta_release_groupid :: "bool \<Rightarrow> 'u connMeta \<Rightarrow> byte list option \<times> 'u
    connMeta" where
  "ConnMeta_release_groupid own m = 
     (if own then Some (cmt_groupid m) else None, (ConnMeta_clear_has_groupid m)\<lparr>cmt_groupid := []\<rparr>)"

definition ConnMeta_set_allocated_groupid :: "byte list option \<Rightarrow> 'u connMeta \<Rightarrow> 'u
    connMeta" where
  "ConnMeta_set_allocated_groupid s m = 
     (let m = (if s \<noteq> None then ConnMeta_set_has_groupid m else ConnMeta_clear_has_groupid m)
      in m\<lparr>cmt_groupid := (case s of None \<Rightarrow> [] | Some s \<Rightarrow> s)\<rparr>)"

definition ConnMeta_clear_has_secretkey :: "'u connMeta \<Rightarrow> 'u connMeta" where
  "ConnMeta_clear_has_secretkey m = m\<lparr>cmt_bits := cmt_bits m AND NOT 2\<rparr>"

definition ConnMeta_clear_secretkey :: "'u connMeta \<Rightarrow> 'u connMeta" where
  "ConnMeta_clear_secretkey m = ConnMeta_clear_has_secretkey (m\<lparr>cmt_secretkey := []\<rparr>)"

definition ConnMeta_set_secretkey_chars :: "byte list \<Rightarrow> 'u connMeta \<Rightarrow> 'u connMeta" where
  "ConnMeta_set_secretkey_chars s m = (ConnMeta_set_has_secretkey m)\<lparr>cmt_secretkey := c_str s\<rparr>"

definition ConnMeta_set_secretkey_size :: "byte list \<Rightarrow> nat \<Rightarrow> 'u connMeta \<Rightarrow> 'u
    connMeta" where
  "ConnMeta_set_secretkey_size s n m = (ConnMeta_set_has_secretkey m)\<lparr>cmt_secretkey := take n s\<rparr>"

definition ConnMeta_mutable_secretkey :: "(byte list \<Rightarrow> byte list) \<Rightarrow> 'u connMeta
    \<Rightarrow> 'u connMeta" where
  "ConnMeta_mutable_secretkey g m = (ConnMeta_set_has_secretkey m)\<lparr>cmt_secretkey := g (cmt_secretkey
    m)\<rparr>"

definition ConnMeta_release_secretkey :: "bool \<Rightarrow> 'u connMeta \<Rightarrow> byte list option \<times>
    'u connMeta" where
  "ConnMeta_release_secretkey own m = 
     (if own then Some (cmt_secretkey m) else None, (ConnMeta_clear_has_secretkey m)\<lparr>cmt_secretkey :=
    []\<rparr>)"

definition ConnMeta_set_allocated_secretkey :: "byte list option \<Rightarrow> 'u connMeta \<Rightarrow> 'u
    connMeta" where
  "ConnMeta_set_allocated_secretkey s m = 
     (let m = (if s \<noteq> None then ConnMeta_set_has_secretkey m else ConnMeta_clear_has_secretkey m)
      in m\<lparr>cmt_secretkey := (case s of None \<Rightarrow> [] | Some s \<Rightarrow> s)\<rparr>)"

definition ConnMeta_clear_has_warmingupsec :: "'u connMeta \<Rightarrow> 'u connMeta" where
  "ConnMeta_clear_has_warmingupsec m = m\<lparr>cmt_bits := cmt_bits m AND NOT 4\<rparr>"

definition ConnMeta_clear_warmingupsec :: "'u connMeta \<Rightarrow> 'u connMeta" where
  "ConnMeta_clear_warmingupsec m = ConnMeta_clear_has_warmingupsec (m\<lparr>cmt_warmingupsec := 0\<rparr>)"

lemmas ConnMeta_accessor_defs = ConnMeta_clear_has_groupid_def ConnMeta_clear_groupid_def
    ConnMeta_set_groupid_chars_def ConnMeta_set_groupid_size_def ConnMeta_mutable_groupid_def
    ConnMeta_release_groupid_def ConnMeta_set_allocated_groupid_def ConnMeta_clear_has_secretkey_def
    ConnMeta_clear_secretkey_def ConnMeta_set_secretkey_chars_def ConnMeta_set_secretkey_size_def
    ConnMeta_mutable_secretkey_def ConnMeta_release_secretkey_def ConnMeta_set_allocated_secretkey_def
    ConnMeta_clear_has_warmingupsec_def ConnMeta_clear_warmingupsec_def

inductive ConnMeta_made :: "'u connMeta \<Rightarrow> bool" where
  "ConnMeta_made ConnMeta_new"
| "ConnMeta_made m \<Longrightarrow> length s < 2 ^ 31 \<Longrightarrow> ConnMeta_made (ConnMeta_set_groupid s m)"
| "ConnMeta_made m \<Longrightarrow> length (c_str s) < 2 ^ 31 \<Longrightarrow> ConnMeta_made
    (ConnMeta_set_groupid_chars s m)"
| "ConnMeta_made m \<Longrightarrow> length (take n s) < 2 ^ 31 \<Longrightarrow> ConnMeta_made
    (ConnMeta_set_groupid_size s n m)"
| "ConnMeta_made m \<Longrightarrow> length (g (cmt_groupid m)) < 2 ^ 31 \<Longrightarrow> ConnMeta_made
    (ConnMeta_mutable_groupid g m)"
| "ConnMeta_made m \<Longrightarrow> ConnMeta_made (snd (ConnMeta_release_groupid own m))"
| "ConnMeta_made m \<Longrightarrow> (\<And>s. p = Some s \<Longrightarrow> length s < 2 ^ 31) \<Longrightarrow>
    ConnMeta_made (ConnMeta_set_allocated_groupid p m)"
| "ConnMeta_made m \<Longrightarrow> ConnMeta_made (ConnMeta_clear_groupid m)"
| "ConnMeta_made m \<Longrightarrow> length s < 2 ^ 31 \<Longrightarrow> ConnMeta_made (ConnMeta_set_secretkey s m)"
| "ConnMeta_made m \<Longrightarrow> length (c_str s) < 2 ^ 31 \<Longrightarrow> ConnMeta_made
    (ConnMeta_set_secretkey_chars s m)"
| "ConnMeta_made m \<Longrightarrow> length (take n s) < 2 ^ 31 \<Longrightarrow> ConnMeta_made
    (ConnMeta_set_secretkey_size s n m)"
| "ConnMeta_made m \<Longrightarrow> length (g (cmt_secretkey m)) < 2 ^ 31 \<Longrightarrow> ConnMeta_made
    (ConnMeta_mutable_secretkey g m)"
| "ConnMeta_made m \<Longrightarrow> ConnMeta_made (snd (ConnMeta_release_secretkey own m))"
| "ConnMeta_made m \<Longrightarrow> (\<And>s. p = Some s \<Longrightarrow> length s < 2 ^ 31) \<Longrightarrow>
    ConnMeta_made (ConnMeta_set_allocated_secretkey p m)"
| "ConnMeta_made m \<Longrightarrow> ConnMeta_made (ConnMeta_clear_secretkey m)"
| "ConnMeta_made m \<Longrightarrow> ConnMeta_made (ConnMeta_set_warmingupsec v m)"
| "ConnMeta_made m \<Longrightarrow> ConnMeta_made (ConnMeta_clear_warmingupsec m)"

lemma ConnMeta_made_built: "ConnMeta_made m \<Longrightarrow> ConnMeta_built m"
  by (induction rule: ConnMeta_made.induct)
    (simp_all add: ConnMeta_built_def ConnMeta_new_def ConnMeta_has_iffs ConnMeta_accessor_defs ConnMeta_set_defs
    Let_def set_bits
      del: bit_numeral_word_iff split: option.splits)

section \<open>ConnAuthAck\<close>

definition ConnAuthAck_clear_has_status :: "'u connAuthAck \<Rightarrow> 'u connAuthAck" where
  "ConnAuthAck_clear_has_status m = m\<lparr>caa_bits := caa_bits m AND NOT 1\<rparr>"

definition ConnAuthAck_clear_status :: "'u connAuthAck \<Rightarrow> 'u connAuthAck" where
  "ConnAuthAck_clear_status m = ConnAuthAck_clear_has_status (m\<lparr>caa_status := True\<rparr>)"

definition ConnAuthAck_clear_has_feedback :: "'u connAuthAck \<Rightarrow> 'u connAuthAck" where
  "ConnAuthAck_clear_has_feedback m = m\<lparr>caa_bits := caa_bits m AND NOT 2\<rparr>"

definition ConnAuthAck_clear_feedback :: "'u connAuthAck \<Rightarrow> 'u connAuthAck" where
  "ConnAuthAck_clear_feedback m = ConnAuthAck_clear_has_feedback (m\<lparr>caa_feedback := []\<rparr>)"

definition ConnAuthAck_set_feedback_chars :: "byte list \<Rightarrow> 'u connAuthAck \<Rightarrow> 'u
    connAuthAck" where
  "ConnAuthAck_set_feedback_chars s m = (ConnAuthAck_set_has_feedback m)\<lparr>caa_feedback := c_str s\<rparr>"

definition ConnAuthAck_set_feedback_size :: "byte list \<Rightarrow> nat \<Rightarrow> 'u connAuthAck
    \<Rightarrow> 'u connAuthAck" where
  "ConnAuthAck_set_feedback_size s n m = (ConnAuthAck_set_has_feedback m)\<lparr>caa_feedback := take n s\<rparr>"

definition ConnAuthAck_mutable_feedback :: "(byte list \<Rightarrow> byte list) \<Rightarrow> 'u connAuthAck
    \<Rightarrow> 'u connAuthAck" where
  "ConnAuthAck_mutable_feedback g m = (ConnAuthAck_set_has_feedback m)\<lparr>caa_feedback := g (caa_feedback
    m)\<rparr>"

definition ConnAuthAck_release_feedback :: "bool \<Rightarrow> 'u connAuthAck \<Rightarrow> byte list option
    \<times> 'u connAuthAck" where
  "ConnAuthAck_release_feedback own m = 
     (if own then Some (caa_feedback m) else None, (ConnAuthAck_clear_has_feedback m)\<lparr>caa_feedback :=
    []\<rparr>)"

definition ConnAuthAck_set_allocated_feedback :: "byte list option \<Rightarrow> 'u connAuthAck \<Rightarrow> 'u
    connAuthAck" where
  "ConnAuthAck_set_allocated_feedback s m = 
     (let m = (if s \<noteq> None then ConnAuthAck_set_has_feedback m else ConnAuthAck_clear_has_feedback m)
      in m\<lparr>caa_feedback := (case s of None \<Rightarrow> [] | Some s \<Rightarrow> s)\<rparr>)"

lemmas ConnAuthAck_accessor_defs = ConnAuthAck_clear_has_status_def ConnAuthAck_clear_status_def
    ConnAuthAck_clear_has_feedback_def ConnAuthAck_clear_feedback_def ConnAuthAck_set_feedback_chars_def
    ConnAuthAck_set_feedback_size_def ConnAuthAck_mutable_feedback_def ConnAuthAck_release_feedback_def
    ConnAuthAck_set_allocated_feedback_def

inductive ConnAuthAck_made :: "'u connAuthAck \<Rightarrow> bool" where
  "ConnAuthAck_made ConnAuthAck_new"
| "ConnAuthAck_made m \<Longrightarrow> ConnAuthAck_made (ConnAuthAck_set_status v m)"
| "ConnAuthAck_made m \<Longrightarrow> ConnAuthAck_made (ConnAuthAck_clear_status m)"
| "ConnAuthAck_made m \<Longrightarrow> length s < 2 ^ 31 \<Longrightarrow> ConnAuthAck_made
    (ConnAuthAck_set_feedback s m)"
| "ConnAuthAck_made m \<Longrightarrow> length (c_str s) < 2 ^ 31 \<Longrightarrow> ConnAuthAck_made
    (ConnAuthAck_set_feedback_chars s m)"
| "ConnAuthAck_made m \<Longrightarrow> length (take n s) < 2 ^ 31 \<Longrightarrow> ConnAuthAck_made
    (ConnAuthAck_set_feedback_size s n m)"
| "ConnAuthAck_made m \<Longrightarrow> length (g (caa_feedback m)) < 2 ^ 31 \<Longrightarrow> ConnAuthAck_made
    (ConnAuthAck_mutable_feedback g m)"
| "ConnAuthAck_made m \<Longrightarrow> ConnAuthAck_made (snd (ConnAuthAck_release_feedback own m))"
| "ConnAuthAck_made m \<Longrightarrow> (\<And>s. p = Some s \<Longrightarrow> length s < 2 ^ 31)
    \<Longrightarrow> ConnAuthAck_made (ConnAuthAck_set_allocated_feedback p m)"
| "ConnAuthAck_made m \<Longrightarrow> ConnAuthAck_made (ConnAuthAck_clear_feedback m)"

lemma ConnAuthAck_made_built: "ConnAuthAck_made m \<Longrightarrow> ConnAuthAck_built m"
  by (induction rule: ConnAuthAck_made.induct)
    (simp_all add: ConnAuthAck_built_def ConnAuthAck_new_def ConnAuthAck_has_iffs ConnAuthAck_accessor_defs
    ConnAuthAck_set_defs Let_def set_bits
      del: bit_numeral_word_iff split: option.splits)

section \<open>MessageStoreAck\<close>

definition MessageStoreAck_clear_has_messageid :: "'u messageStoreAck \<Rightarrow> 'u messageStoreAck" where
  "MessageStoreAck_clear_has_messageid m = m\<lparr>msa_bits := msa_bits m AND NOT 1\<rparr>"

definition MessageStoreAck_clear_messageid :: "'u messageStoreAck \<Rightarrow> 'u messageStoreAck" where
  "MessageStoreAck_clear_messageid m = MessageStoreAck_clear_has_messageid (m\<lparr>msa_messageid := []\<rparr>)"

definition MessageStoreAck_set_messageid_chars :: "byte list \<Rightarrow> 'u messageStoreAck \<Rightarrow> 'u
    messageStoreAck" where
  "MessageStoreAck_set_messageid_chars s m = (MessageStoreAck_set_has_messageid m)\<lparr>msa_messageid := c_str
    s\<rparr>"

definition MessageStoreAck_set_messageid_size :: "byte list \<Rightarrow> nat \<Rightarrow> 'u messageStoreAck
    \<Rightarrow> 'u messageStoreAck" where
  "MessageStoreAck_set_messageid_size s n m = (MessageStoreAck_set_has_messageid m)\<lparr>msa_messageid := take
    n s\<rparr>"

definition MessageStoreAck_mutable_messageid :: "(byte list \<Rightarrow> byte list) \<Rightarrow> 'u
    messageStoreAck \<Rightarrow> 'u messageStoreAck" where
  "MessageStoreAck_mutable_messageid g m = (MessageStoreAck_set_has_messageid m)\<lparr>msa_messageid := g
    (msa_messageid m)\<rparr>"

definition MessageStoreAck_release_messageid :: "bool \<Rightarrow> 'u messageStoreAck \<Rightarrow> byte list
    option \<times> 'u messageStoreAck" where
  "MessageStoreAck_release_messageid own m = 
     (if own then Some (msa_messageid m) else None, (MessageStoreAck_clear_has_messageid m)\<lparr>msa_messageid
    := []\<rparr>)"

definition MessageStoreAck_set_allocated_messageid :: "byte list option \<Rightarrow> 'u messageStoreAck
    \<Rightarrow> 'u messageStoreAck" where
  "MessageStoreAck_set_allocated_messageid s m = 
     (let m = (if s \<noteq> None then MessageStoreAck_set_has_messageid m else MessageStoreAck_clear_has_messageid m)
      in m\<lparr>msa_messageid := (case s of None \<Rightarrow> [] | Some s \<Rightarrow> s)\<rparr>)"

definition MessageStoreAck_clear_has_status :: "'u messageStoreAck \<Rightarrow> 'u messageStoreAck" where
  "MessageStoreAck_clear_has_status m = m\<lparr>msa_bits := msa_bits m AND NOT 2\<rparr>"

definition MessageStoreAck_clear_status :: "'u messageStoreAck \<Rightarrow> 'u messageStoreAck" where
  "MessageStoreAck_clear_status m = MessageStoreAck_clear_has_status (m\<lparr>msa_status := True\<rparr>)"

definition MessageStoreAck_clear_has_feedback :: "'u messageStoreAck \<Rightarrow> 'u messageStoreAck" where
  "MessageStoreAck_clear_has_feedback m = m\<lparr>msa_bits := msa_bits m AND NOT 4\<rparr>"

definition MessageStoreAck_clear_feedback :: "'u messageStoreAck \<Rightarrow> 'u messageStoreAck" where
  "MessageStoreAck_clear_feedback m = MessageStoreAck_clear_has_feedback (m\<lparr>msa_feedback := []\<rparr>)"

definition MessageStoreAck_set_feedback_chars :: "byte list \<Rightarrow> 'u messageStoreAck \<Rightarrow> 'u
    messageStoreAck" where
  "MessageStoreAck_set_feedback_chars s m = (MessageStoreAck_set_has_feedback m)\<lparr>msa_feedback := c_str
    s\<rparr>"

definition MessageStoreAck_set_feedback_size :: "byte list \<Rightarrow> nat \<Rightarrow> 'u messageStoreAck
    \<Rightarrow> 'u messageStoreAck" where
  "MessageStoreAck_set_feedback_size s n m = (MessageStoreAck_set_has_feedback m)\<lparr>msa_feedback := take n
    s\<rparr>"

definition MessageStoreAck_mutable_feedback :: "(byte list \<Rightarrow> byte list) \<Rightarrow> 'u
    messageStoreAck \<Rightarrow> 'u messageStoreAck" where
  "MessageStoreAck_mutable_feedback g m = (MessageStoreAck_set_has_feedback m)\<lparr>msa_feedback := g
    (msa_feedback m)\<rparr>"

definition MessageStoreAck_release_feedback :: "bool \<Rightarrow> 'u messageStoreAck \<Rightarrow> byte list
    option \<times> 'u messageStoreAck" where
  "MessageStoreAck_release_feedback own m = 
     (if own then Some (msa_feedback m) else None, (MessageStoreAck_clear_has_feedback m)\<lparr>msa_feedback :=
    []\<rparr>)"

definition MessageStoreAck_set_allocated_feedback :: "byte list option \<Rightarrow> 'u messageStoreAck
    \<Rightarrow> 'u messageStoreAck" where
  "MessageStoreAck_set_allocated_feedback s m = 
     (let m = (if s \<noteq> None then MessageStoreAck_set_has_feedback m else MessageStoreAck_clear_has_feedback m)
      in m\<lparr>msa_feedback := (case s of None \<Rightarrow> [] | Some s \<Rightarrow> s)\<rparr>)"

lemmas MessageStoreAck_accessor_defs = MessageStoreAck_clear_has_messageid_def
    MessageStoreAck_clear_messageid_def MessageStoreAck_set_messageid_chars_def
    MessageStoreAck_set_messageid_size_def MessageStoreAck_mutable_messageid_def
    MessageStoreAck_release_messageid_def MessageStoreAck_set_allocated_messageid_def
    MessageStoreAck_clear_has_status_def MessageStoreAck_clear_status_def MessageStoreAck_clear_has_feedback_def
    MessageStoreAck_clear_feedback_def MessageStoreAck_set_feedback_chars_def
    MessageStoreAck_set_feedback_size_def MessageStoreAck_mutable_feedback_def
    MessageStoreAck_release_feedback_def MessageStoreAck_set_allocated_feedback_def

inductive MessageStoreAck_made :: "'u messageStoreAck \<Rightarrow> bool" where
  "MessageStoreAck_made MessageStoreAck_new"
| "MessageStoreAck_made m \<Longrightarrow> length s < 2 ^ 31 \<Longrightarrow> MessageStoreAck_made
    (MessageStoreAck_set_messageid s m)"
| "MessageStoreAck_made m \<Longrightarrow> length (c_str s) < 2 ^ 31 \<Longrightarrow> MessageStoreAck_made
    (MessageStoreAck_set_messageid_chars s m)"
| "MessageStoreAck_made m \<Longrightarrow> length (take n s) < 2 ^ 31 \<Longrightarrow> MessageStoreAck_made
    (MessageStoreAck_set_messageid_size s n m)"
| "MessageStoreAck_made m \<Longrightarrow> length (g (msa_messageid m)) < 2 ^ 31 \<Longrightarrow>
    MessageStoreAck_made (MessageStoreAck_mutable_messageid g m)"
| "MessageStoreAck_made m \<Longrightarrow> MessageStoreAck_made (snd (MessageStoreAck_release_messageid own m))"
| "MessageStoreAck_made m \<Longrightarrow> (\<And>s. p = Some s \<Longrightarrow> length s < 2 ^ 31)
    \<Longrightarrow> MessageStoreAck_made (MessageStoreAck_set_allocated_messageid p m)"
| "MessageStoreAck_made m \<Longrightarrow> MessageStoreAck_made (MessageStoreAck_clear_messageid m)"
| "MessageStoreAck_made m \<Longrightarrow> MessageStoreAck_made (MessageStoreAck_set_status v m)"
| "MessageStoreAck_made m \<Longrightarrow> MessageStoreAck_made (MessageStoreAck_clear_status m)"
| "MessageStoreAck_made m \<Longrightarrow> length s < 2 ^ 31 \<Longrightarrow> MessageStoreAck_made
    (MessageStoreAck_set_feedback s m)"
| "MessageStoreAck_made m \<Longrightarrow> length (c_str s) < 2 ^ 31 \<Longrightarrow> MessageStoreAck_made
    (MessageStoreAck_set_feedback_chars s m)"
| "MessageStoreAck_made m \<Longrightarrow> length (take n s) < 2 ^ 31 \<Longrightarrow> MessageStoreAck_made
    (MessageStoreAck_set_feedback_size s n m)"
| "MessageStoreAck_made m \<Longrightarrow> length (g (msa_feedback m)) < 2 ^ 31 \<Longrightarrow>
    MessageStoreAck_made (MessageStoreAck_mutable_feedback g m)"
| "MessageStoreAck_made m \<Longrightarrow> MessageStoreAck_made (snd (MessageStoreAck_release_feedback own m))"
| "MessageStoreAck_made m \<Longrightarrow> (\<And>s. p = Some s \<Longrightarrow> length s < 2 ^ 31)
    \<Longrightarrow> MessageStoreAck_made (MessageStoreAck_set_allocated_feedback p m)"
| "MessageStoreAck_made m \<Longrightarrow> MessageStoreAck_made (MessageStoreAck_clear_feedback m)"

lemma MessageStoreAck_made_built: "MessageStoreAck_made m \<Longrightarrow> MessageStoreAck_built m"
  by (induction rule: MessageStoreAck_made.induct)
    (simp_all add: MessageStoreAck_built_def MessageStoreAck_new_def MessageStoreAck_has_iffs
    MessageStoreAck_accessor_defs MessageStoreAck_set_defs Let_def set_bits
      del: bit_numeral_word_iff split: option.splits)

section \<open>DeliverAck\<close>

definition DeliverAck_clear_has_messageid :: "'u deliverAck \<Rightarrow> 'u deliverAck" where
  "DeliverAck_clear_has_messageid m = m\<lparr>dla_bits := dla_bits m AND NOT 1\<rparr>"

definition DeliverAck_clear_messageid :: "'u deliverAck \<Rightarrow> 'u deliverAck" where
  "DeliverAck_clear_messageid m = DeliverAck_clear_has_messageid (m\<lparr>dla_messageid := []\<rparr>)"

definition DeliverAck_set_messageid_chars :: "byte list \<Rightarrow> 'u deliverAck \<Rightarrow> 'u deliverAck" where
  "DeliverAck_set_messageid_chars s m = (DeliverAck_set_has_messageid m)\<lparr>dla_messageid := c_str s\<rparr>"

definition DeliverAck_set_messageid_size :: "byte list \<Rightarrow> nat \<Rightarrow> 'u deliverAck
    \<Rightarrow> 'u deliverAck" where
  "DeliverAck_set_messageid_size s n m = (DeliverAck_set_has_messageid m)\<lparr>dla_messageid := take n s\<rparr>"

definition DeliverAck_mutable_messageid :: "(byte list \<Rightarrow> byte list) \<Rightarrow> 'u deliverAck
    \<Rightarrow> 'u deliverAck" where
  "DeliverAck_mutable_messageid g m = (DeliverAck_set_has_messageid m)\<lparr>dla_messageid := g (dla_messageid
    m)\<rparr>"

definition DeliverAck_release_messageid :: "bool \<Rightarrow> 'u deliverAck \<Rightarrow> byte list option
    \<times> 'u deliverAck" where
  "DeliverAck_release_messageid own m = 
     (if own then Some (dla_messageid m) else None, (DeliverAck_clear_has_messageid m)\<lparr>dla_messageid :=
    []\<rparr>)"

definition DeliverAck_set_allocated_messageid :: "byte list option \<Rightarrow> 'u deliverAck \<Rightarrow> 'u
    deliverAck" where
  "DeliverAck_set_allocated_messageid s m = 
     (let m = (if s \<noteq> None then DeliverAck_set_has_messageid m else DeliverAck_clear_has_messageid m)
      in m\<lparr>dla_messageid := (case s of None \<Rightarrow> [] | Some s \<Rightarrow> s)\<rparr>)"

definition DeliverAck_clear_has_topic :: "'u deliverAck \<Rightarrow> 'u deliverAck" where
  "DeliverAck_clear_has_topic m = m\<lparr>dla_bits := dla_bits m AND NOT 2\<rparr>"

definition DeliverAck_clear_topic :: "'u deliverAck \<Rightarrow> 'u deliverAck" where
  "DeliverAck_clear_topic m = DeliverAck_clear_has_topic (m\<lparr>dla_topic := []\<rparr>)"

definition DeliverAck_set_topic_chars :: "byte list \<Rightarrow> 'u deliverAck \<Rightarrow> 'u deliverAck" where
  "DeliverAck_set_topic_chars s m = (DeliverAck_set_has_topic m)\<lparr>dla_topic := c_str s\<rparr>"

definition DeliverAck_set_topic_size :: "byte list \<Rightarrow> nat \<Rightarrow> 'u deliverAck \<Rightarrow> 'u
    deliverAck" where
  "DeliverAck_set_topic_size s n m = (DeliverAck_set_has_topic m)\<lparr>dla_topic := take n s\<rparr>"

definition DeliverAck_mutable_topic :: "(byte list \<Rightarrow> byte list) \<Rightarrow> 'u deliverAck
    \<Rightarrow> 'u deliverAck" where
  "DeliverAck_mutable_topic g m = (DeliverAck_set_has_topic m)\<lparr>dla_topic := g (dla_topic m)\<rparr>"

definition DeliverAck_release_topic :: "bool \<Rightarrow> 'u deliverAck \<Rightarrow> byte list option \<times>
    'u deliverAck" where
  "DeliverAck_release_topic own m = 
     (if own then Some (dla_topic m) else None, (DeliverAck_clear_has_topic m)\<lparr>dla_topic := []\<rparr>)"

definition DeliverAck_set_allocated_topic :: "byte list option \<Rightarrow> 'u deliverAck \<Rightarrow> 'u
    deliverAck" where
  "DeliverAck_set_allocated_topic s m = 
     (let m = (if s \<noteq> None then DeliverAck_set_has_topic m else DeliverAck_clear_has_topic m)
      in m\<lparr>dla_topic := (case s of None \<Rightarrow> [] | Some s \<Rightarrow> s)\<rparr>)"

definition DeliverAck_clear_has_messagetype :: "'u deliverAck \<Rightarrow> 'u deliverAck" where
  "DeliverAck_clear_has_messagetype m = m\<lparr>dla_bits := dla_bits m AND NOT 4\<rparr>"

definition DeliverAck_clear_messagetype :: "'u deliverAck \<Rightarrow> 'u deliverAck" where
  "DeliverAck_clear_messagetype m = DeliverAck_clear_has_messagetype (m\<lparr>dla_messagetype := []\<rparr>)"

definition DeliverAck_set_messagetype_chars :: "byte list \<Rightarrow> 'u deliverAck \<Rightarrow> 'u
    deliverAck" where
  "DeliverAck_set_messagetype_chars s m = (DeliverAck_set_has_messagetype m)\<lparr>dla_messagetype := c_str
    s\<rparr>"

definition DeliverAck_set_messagetype_size :: "byte list \<Rightarrow> nat \<Rightarrow> 'u deliverAck
    \<Rightarrow> 'u deliverAck" where
  "DeliverAck_set_messagetype_size s n m = (DeliverAck_set_has_messagetype m)\<lparr>dla_messagetype := take n
    s\<rparr>"

definition DeliverAck_mutable_messagetype :: "(byte list \<Rightarrow> byte list) \<Rightarrow> 'u deliverAck
    \<Rightarrow> 'u deliverAck" where
  "DeliverAck_mutable_messagetype g m = (DeliverAck_set_has_messagetype m)\<lparr>dla_messagetype := g
    (dla_messagetype m)\<rparr>"

definition DeliverAck_release_messagetype :: "bool \<Rightarrow> 'u deliverAck \<Rightarrow> byte list option
    \<times> 'u deliverAck" where
  "DeliverAck_release_messagetype own m = 
     (if own then Some (dla_messagetype m) else None, (DeliverAck_clear_has_messagetype m)\<lparr>dla_messagetype
    := []\<rparr>)"

definition DeliverAck_set_allocated_messagetype :: "byte list option \<Rightarrow> 'u deliverAck \<Rightarrow> 'u
    deliverAck" where
  "DeliverAck_set_allocated_messagetype s m = 
     (let m = (if s \<noteq> None then DeliverAck_set_has_messagetype m else DeliverAck_clear_has_messagetype m)
      in m\<lparr>dla_messagetype := (case s of None \<Rightarrow> [] | Some s \<Rightarrow> s)\<rparr>)"

definition DeliverAck_clear_has_groupid :: "'u deliverAck \<Rightarrow> 'u deliverAck" where
  "DeliverAck_clear_has_groupid m = m\<lparr>dla_bits := dla_bits m AND NOT 8\<rparr>"

definition DeliverAck_clear_groupid :: "'u deliverAck \<Rightarrow> 'u deliverAck" where
  "DeliverAck_clear_groupid m = DeliverAck_clear_has_groupid (m\<lparr>dla_groupid := []\<rparr>)"

definition DeliverAck_set_groupid_chars :: "byte list \<Rightarrow> 'u deliverAck \<Rightarrow> 'u deliverAck" where
  "DeliverAck_set_groupid_chars s m = (DeliverAck_set_has_groupid m)\<lparr>dla_groupid := c_str s\<rparr>"

definition DeliverAck_set_groupid_size :: "byte list \<Rightarrow> nat \<Rightarrow> 'u deliverAck \<Rightarrow>
    'u deliverAck" where
  "DeliverAck_set_groupid_size s n m = (DeliverAck_set_has_groupid m)\<lparr>dla_groupid := take n s\<rparr>"

definition DeliverAck_mutable_groupid :: "(byte list \<Rightarrow> byte list) \<Rightarrow> 'u deliverAck
    \<Rightarrow> 'u deliverAck" where
  "DeliverAck_mutable_groupid g m = (DeliverAck_set_has_groupid m)\<lparr>dla_groupid := g (dla_groupid m)\<rparr>"

definition DeliverAck_release_groupid :: "bool \<Rightarrow> 'u deliverAck \<Rightarrow> byte list option
    \<times> 'u deliverAck" where
  "DeliverAck_release_groupid own m = 
     (if own then Some (dla_groupid m) else None, (DeliverAck_clear_has_groupid m)\<lparr>dla_groupid := []\<rparr>)"

definition DeliverAck_set_allocated_groupid :: "byte list option \<Rightarrow> 'u deliverAck \<Rightarrow> 'u
    deliverAck" where
  "DeliverAck_set_allocated_groupid s m = 
     (let m = (if s \<noteq> None then DeliverAck_set_has_groupid m else DeliverAck_clear_has_groupid m)
      in m\<lparr>dla_groupid := (case s of None \<Rightarrow> [] | Some s \<Rightarrow> s)\<rparr>)"

definition DeliverAck_clear_has_status :: "'u deliverAck \<Rightarrow> 'u deliverAck" where
  "DeliverAck_clear_has_status m = m\<lparr>dla_bits := dla_bits m AND NOT 16\<rparr>"

definition DeliverAck_clear_status :: "'u deliverAck \<Rightarrow> 'u deliverAck" where
  "DeliverAck_clear_status m = DeliverAck_clear_has_status (m\<lparr>dla_status := True\<rparr>)"

definition DeliverAck_clear_has_feedback :: "'u deliverAck \<Rightarrow> 'u deliverAck" where
  "DeliverAck_clear_has_feedback m = m\<lparr>dla_bits := dla_bits m AND NOT 32\<rparr>"

definition DeliverAck_clear_feedback :: "'u deliverAck \<Rightarrow> 'u deliverAck" where
  "DeliverAck_clear_feedback m = DeliverAck_clear_has_feedback (m\<lparr>dla_feedback := []\<rparr>)"

definition DeliverAck_set_feedback_chars :: "byte list \<Rightarrow> 'u deliverAck \<Rightarrow> 'u deliverAck" where
  "DeliverAck_set_feedback_chars s m = (DeliverAck_set_has_feedback m)\<lparr>dla_feedback := c_str s\<rparr>"

definition DeliverAck_set_feedback_size :: "byte list \<Rightarrow> nat \<Rightarrow> 'u deliverAck \<Rightarrow>
    'u deliverAck" where
  "DeliverAck_set_feedback_size s n m = (DeliverAck_set_has_feedback m)\<lparr>dla_feedback := take n s\<rparr>"

definition DeliverAck_mutable_feedback :: "(byte list \<Rightarrow> byte list) \<Rightarrow> 'u deliverAck
    \<Rightarrow> 'u deliverAck" where
  "DeliverAck_mutable_feedback g m = (DeliverAck_set_has_feedback m)\<lparr>dla_feedback := g (dla_feedback
    m)\<rparr>"

definition DeliverAck_release_feedback :: "bool \<Rightarrow> 'u deliverAck \<Rightarrow> byte list option
    \<times> 'u deliverAck" where
  "DeliverAck_release_feedback own m = 
     (if own then Some (dla_feedback m) else None, (DeliverAck_clear_has_feedback m)\<lparr>dla_feedback :=
    []\<rparr>)"

definition DeliverAck_set_allocated_feedback :: "byte list option \<Rightarrow> 'u deliverAck \<Rightarrow> 'u
    deliverAck" where
  "DeliverAck_set_allocated_feedback s m = 
     (let m = (if s \<noteq> None then DeliverAck_set_has_feedback m else DeliverAck_clear_has_feedback m)
      in m\<lparr>dla_feedback := (case s of None \<Rightarrow> [] | Some s \<Rightarrow> s)\<rparr>)"

lemmas DeliverAck_accessor_defs = DeliverAck_clear_has_messageid_def DeliverAck_clear_messageid_def
    DeliverAck_set_messageid_chars_def DeliverAck_set_messageid_size_def DeliverAck_mutable_messageid_def
    DeliverAck_release_messageid_def DeliverAck_set_allocated_messageid_def DeliverAck_clear_has_topic_def
    DeliverAck_clear_topic_def DeliverAck_set_topic_chars_def DeliverAck_set_topic_size_def
    DeliverAck_mutable_topic_def DeliverAck_release_topic_def DeliverAck_set_allocated_topic_def
    DeliverAck_clear_has_messagetype_def DeliverAck_clear_messagetype_def DeliverAck_set_messagetype_chars_def
    DeliverAck_set_messagetype_size_def DeliverAck_mutable_messagetype_def DeliverAck_release_messagetype_def
    DeliverAck_set_allocated_messagetype_def DeliverAck_clear_has_groupid_def DeliverAck_clear_groupid_def
    DeliverAck_set_groupid_chars_def DeliverAck_set_groupid_size_def DeliverAck_mutable_groupid_def
    DeliverAck_release_groupid_def DeliverAck_set_allocated_groupid_def DeliverAck_clear_has_status_def
    DeliverAck_clear_status_def DeliverAck_clear_has_feedback_def DeliverAck_clear_feedback_def
    DeliverAck_set_feedback_chars_def DeliverAck_set_feedback_size_def DeliverAck_mutable_feedback_def
    DeliverAck_release_feedback_def DeliverAck_set_allocated_feedback_def

inductive DeliverAck_made :: "'u deliverAck \<Rightarrow> bool" where
  "DeliverAck_made DeliverAck_new"
| "DeliverAck_made m \<Longrightarrow> length s < 2 ^ 31 \<Longrightarrow> DeliverAck_made
    (DeliverAck_set_messageid s m)"
| "DeliverAck_made m \<Longrightarrow> length (c_str s) < 2 ^ 31 \<Longrightarrow> DeliverAck_made
    (DeliverAck_set_messageid_chars s m)"
| "DeliverAck_made m \<Longrightarrow> length (take n s) < 2 ^ 31 \<Longrightarrow> DeliverAck_made
    (DeliverAck_set_messageid_size s n m)"
| "DeliverAck_made m \<Longrightarrow> length (g (dla_messageid m)) < 2 ^ 31 \<Longrightarrow> DeliverAck_made
    (DeliverAck_mutable_messageid g m)"
| "DeliverAck_made m \<Longrightarrow> DeliverAck_made (snd (DeliverAck_release_messageid own m))"
| "DeliverAck_made m \<Longrightarrow> (\<And>s. p = Some s \<Longrightarrow> length s < 2 ^ 31)
    \<Longrightarrow> DeliverAck_made (DeliverAck_set_allocated_messageid p m)"
| "DeliverAck_made m \<Longrightarrow> DeliverAck_made (DeliverAck_clear_messageid m)"
| "DeliverAck_made m \<Longrightarrow> length s < 2 ^ 31 \<Longrightarrow> DeliverAck_made (DeliverAck_set_topic s m)"
| "DeliverAck_made m \<Longrightarrow> length (c_str s) < 2 ^ 31 \<Longrightarrow> DeliverAck_made
    (DeliverAck_set_topic_chars s m)"
| "DeliverAck_made m \<Longrightarrow> length (take n s) < 2 ^ 31 \<Longrightarrow> DeliverAck_made
    (DeliverAck_set_topic_size s n m)"
| "DeliverAck_made m \<Longrightarrow> length (g (dla_topic m)) < 2 ^ 31 \<Longrightarrow> DeliverAck_made
    (DeliverAck_mutable_topic g m)"
| "DeliverAck_made m \<Longrightarrow> DeliverAck_made (snd (DeliverAck_release_topic own m))"
| "DeliverAck_made m \<Longrightarrow> (\<And>s. p = Some s \<Longrightarrow> length s < 2 ^ 31)
    \<Longrightarrow> DeliverAck_made (DeliverAck_set_allocated_topic p m)"
| "DeliverAck_made m \<Longrightarrow> DeliverAck_made (DeliverAck_clear_topic m)"
| "DeliverAck_made m \<Longrightarrow> length s < 2 ^ 31 \<Longrightarrow> DeliverAck_made
    (DeliverAck_set_messagetype s m)"
| "DeliverAck_made m \<Longrightarrow> length (c_str s) < 2 ^ 31 \<Longrightarrow> DeliverAck_made
    (DeliverAck_set_messagetype_chars s m)"
| "DeliverAck_made m \<Longrightarrow> length (take n s) < 2 ^ 31 \<Longrightarrow> DeliverAck_made
    (DeliverAck_set_messagetype_size s n m)"
| "DeliverAck_made m \<Longrightarrow> length (g (dla_messagetype m)) < 2 ^ 31 \<Longrightarrow> DeliverAck_made
    (DeliverAck_mutable_messagetype g m)"
| "DeliverAck_made m \<Longrightarrow> DeliverAck_made (snd (DeliverAck_release_messagetype own m))"
| "DeliverAck_made m \<Longrightarrow> (\<And>s. p = Some s \<Longrightarrow> length s < 2 ^ 31)
    \<Longrightarrow> DeliverAck_made (DeliverAck_set_allocated_messagetype p m)"
| "DeliverAck_made m \<Longrightarrow> DeliverAck_made (DeliverAck_clear_messagetype m)"
| "DeliverAck_made m \<Longrightarrow> length s < 2 ^ 31 \<Longrightarrow> DeliverAck_made
    (DeliverAck_set_groupid s m)"
| "DeliverAck_made m \<Longrightarrow> length (c_str s) < 2 ^ 31 \<Longrightarrow> DeliverAck_made
    (DeliverAck_set_groupid_chars s m)"
| "DeliverAck_made m \<Longrightarrow> length (take n s) < 2 ^ 31 \<Longrightarrow> DeliverAck_made
    (DeliverAck_set_groupid_size s n m)"
| "DeliverAck_made m \<Longrightarrow> length (g (dla_groupid m)) < 2 ^ 31 \<Longrightarrow> DeliverAck_made
    (DeliverAck_mutable_groupid g m)"
| "DeliverAck_made m \<Longrightarrow> DeliverAck_made (snd (DeliverAck_release_groupid own m))"
| "DeliverAck_made m \<Longrightarrow> (\<And>s. p = Some s \<Longrightarrow> length s < 2 ^ 31)
    \<Longrightarrow> DeliverAck_made (DeliverAck_set_allocated_groupid p m)"
| "DeliverAck_made m \<Longrightarrow> DeliverAck_made (DeliverAck_clear_groupid m)"
| "DeliverAck_made m \<Longrightarrow> DeliverAck_made (DeliverAck_set_status v m)"
| "DeliverAck_made m \<Longrightarrow> DeliverAck_made (DeliverAck_clear_status m)"
| "DeliverAck_made m \<Longrightarrow> length s < 2 ^ 31 \<Longrightarrow> DeliverAck_made
    (DeliverAck_set_feedback s m)"
| "DeliverAck_made m \<Longrightarrow> length (c_str s) < 2 ^ 31 \<Longrightarrow> DeliverAck_made
    (DeliverAck_set_feedback_chars s m)"
| "DeliverAck_made m \<Longrightarrow> length (take n s) < 2 ^ 31 \<Longrightarrow> DeliverAck_made
    (DeliverAck_set_feedback_size s n m)"
| "DeliverAck_made m \<Longrightarrow> length (g (dla_feedback m)) < 2 ^ 31 \<Longrightarrow> DeliverAck_made
    (DeliverAck_mutable_feedback g m)"
| "DeliverAck_made m \<Longrightarrow> DeliverAck_made (snd (DeliverAck_release_feedback own m))"
| "DeliverAck_made m \<Longrightarrow> (\<And>s. p = Some s \<Longrightarrow> length s < 2 ^ 31)
    \<Longrightarrow> DeliverAck_made (DeliverAck_set_allocated_feedback p m)"
| "DeliverAck_made m \<Longrightarrow> DeliverAck_made (DeliverAck_clear_feedback m)"

lemma DeliverAck_made_built: "DeliverAck_made m \<Longrightarrow> DeliverAck_built m"
  by (induction rule: DeliverAck_made.induct)
    (simp_all add: DeliverAck_built_def DeliverAck_new_def DeliverAck_has_iffs DeliverAck_accessor_defs
    DeliverAck_set_defs Let_def set_bits
      del: bit_numeral_word_iff split: option.splits)

section \<open>Entry\<close>

definition Entry_clear_has_key :: "'u entry \<Rightarrow> 'u entry" where
  "Entry_clear_has_key m = m\<lparr>ent_bits := ent_bits m AND NOT 1\<rparr>"

definition Entry_clear_key :: "'u entry \<Rightarrow> 'u entry" where
  "Entry_clear_key m = Entry_clear_has_key (m\<lparr>ent_key := []\<rparr>)"

definition Entry_set_key_chars :: "byte list \<Rightarrow> 'u entry \<Rightarrow> 'u entry" where
  "Entry_set_key_chars s m = (Entry_set_has_key m)\<lparr>ent_key := c_str s\<rparr>"

definition Entry_set_key_size :: "byte list \<Rightarrow> nat \<Rightarrow> 'u entry \<Rightarrow> 'u entry" where
  "Entry_set_key_size s n m = (Entry_set_has_key m)\<lparr>ent_key := take n s\<rparr>"

definition Entry_mutable_key :: "(byte list \<Rightarrow> byte list) \<Rightarrow> 'u entry \<Rightarrow> 'u
    entry" where
  "Entry_mutable_key g m = (Entry_set_has_key m)\<lparr>ent_key := g (ent_key m)\<rparr>"

definition Entry_release_key :: "bool \<Rightarrow> 'u entry \<Rightarrow> byte list option \<times> 'u entry" where
  "Entry_release_key own m = 
     (if own then Some (ent_key m) else None, (Entry_clear_has_key m)\<lparr>ent_key := []\<rparr>)"

definition Entry_set_allocated_key :: "byte list option \<Rightarrow> 'u entry \<Rightarrow> 'u entry" where
  "Entry_set_allocated_key s m = 
     (let m = (if s \<noteq> None then Entry_set_has_key m else Entry_clear_has_key m)
      in m\<lparr>ent_key := (case s of None \<Rightarrow> [] | Some s \<Rightarrow> s)\<rparr>)"

definition Entry_clear_has_value :: "'u entry \<Rightarrow> 'u entry" where
  "Entry_clear_has_value m = m\<lparr>ent_bits := ent_bits m AND NOT 2\<rparr>"

definition Entry_clear_value :: "'u entry \<Rightarrow> 'u entry" where
  "Entry_clear_value m = Entry_clear_has_value (m\<lparr>ent_value := []\<rparr>)"

definition Entry_set_value_chars :: "byte list \<Rightarrow> 'u entry \<Rightarrow> 'u entry" where
  "Entry_set_value_chars s m = (Entry_set_has_value m)\<lparr>ent_value := c_str s\<rparr>"

definition Entry_set_value_size :: "byte list \<Rightarrow> nat \<Rightarrow> 'u entry \<Rightarrow> 'u entry" where
  "Entry_set_value_size s n m = (Entry_set_has_value m)\<lparr>ent_value := take n s\<rparr>"

definition Entry_mutable_value :: "(byte list \<Rightarrow> byte list) \<Rightarrow> 'u entry \<Rightarrow> 'u
    entry" where
  "Entry_mutable_value g m = (Entry_set_has_value m)\<lparr>ent_value := g (ent_value m)\<rparr>"

definition Entry_release_value :: "bool \<Rightarrow> 'u entry \<Rightarrow> byte list option \<times> 'u entry" where
  "Entry_release_value own m = 
     (if own then Some (ent_value m) else None, (Entry_clear_has_value m)\<lparr>ent_value := []\<rparr>)"

definition Entry_set_allocated_value :: "byte list option \<Rightarrow> 'u entry \<Rightarrow> 'u entry" where
  "Entry_set_allocated_value s m = 
     (let m = (if s \<noteq> None then Entry_set_has_value m else Entry_clear_has_value m)
      in m\<lparr>ent_value := (case s of None \<Rightarrow> [] | Some s \<Rightarrow> s)\<rparr>)"

lemmas Entry_accessor_defs = Entry_clear_has_key_def Entry_clear_key_def Entry_set_key_chars_def
    Entry_set_key_size_def Entry_mutable_key_def Entry_release_key_def Entry_set_allocated_key_def
    Entry_clear_has_value_def Entry_clear_value_def Entry_set_value_chars_def Entry_set_value_size_def
    Entry_mutable_value_def Entry_release_value_def Entry_set_allocated_value_def

inductive Entry_made :: "'u entry \<Rightarrow> bool" where
  "Entry_made Entry_new"
| "Entry_made m \<Longrightarrow> length s < 2 ^ 31 \<Longrightarrow> Entry_made (Entry_set_key s m)"
| "Entry_made m \<Longrightarrow> length (c_str s) < 2 ^ 31 \<Longrightarrow> Entry_made (Entry_set_key_chars s m)"
| "Entry_made m \<Longrightarrow> length (take n s) < 2 ^ 31 \<Longrightarrow> Entry_made (Entry_set_key_size s n m)"
| "Entry_made m \<Longrightarrow> length (g (ent_key m)) < 2 ^ 31 \<Longrightarrow> Entry_made (Entry_mutable_key
    g m)"
| "Entry_made m \<Longrightarrow> Entry_made (snd (Entry_release_key own m))"
| "Entry_made m \<Longrightarrow> (\<And>s. p = Some s \<Longrightarrow> length s < 2 ^ 31) \<Longrightarrow>
    Entry_made (Entry_set_allocated_key p m)"
| "Entry_made m \<Longrightarrow> Entry_made (Entry_clear_key m)"
| "Entry_made m \<Longrightarrow> length s < 2 ^ 31 \<Longrightarrow> Entry_made (Entry_set_value s m)"
| "Entry_made m \<Longrightarrow> length (c_str s) < 2 ^ 31 \<Longrightarrow> Entry_made (Entry_set_value_chars s m)"
| "Entry_made m \<Longrightarrow> length (take n s) < 2 ^ 31 \<Longrightarrow> Entry_made (Entry_set_value_size s
    n m)"
| "Entry_made m \<Longrightarrow> length (g (ent_value m)) < 2 ^ 31 \<Longrightarrow> Entry_made
    (Entry_mutable_value g m)"
| "Entry_made m \<Longrightarrow> Entry_made (snd (Entry_release_value own m))"
| "Entry_made m \<Longrightarrow> (\<And>s. p = Some s \<Longrightarrow> length s < 2 ^ 31) \<Longrightarrow>
    Entry_made (Entry_set_allocated_value p m)"
| "Entry_made m \<Longrightarrow> Entry_made (Entry_clear_value m)"

lemma Entry_made_built: "Entry_made m \<Longrightarrow> Entry_built m"
  by (induction rule: Entry_made.induct)
    (simp_all add: Entry_built_def Entry_new_def Entry_has_iffs Entry_accessor_defs Entry_set_defs Let_def set_bits
      del: bit_numeral_word_iff split: option.splits)

section \<open>Header\<close>

definition Header_clear_has_messageid :: "'u msgHeader \<Rightarrow> 'u msgHeader" where
  "Header_clear_has_messageid m = m\<lparr>phd_bits := phd_bits m AND NOT 1\<rparr>"

definition Header_clear_messageid :: "'u msgHeader \<Rightarrow> 'u msgHeader" where
  "Header_clear_messageid m = Header_clear_has_messageid (m\<lparr>phd_messageid := []\<rparr>)"

definition Header_set_messageid_chars :: "byte list \<Rightarrow> 'u msgHeader \<Rightarrow> 'u msgHeader" where
  "Header_set_messageid_chars s m = (Header_set_has_messageid m)\<lparr>phd_messageid := c_str s\<rparr>"

definition Header_set_messageid_size :: "byte list \<Rightarrow> nat \<Rightarrow> 'u msgHeader \<Rightarrow> 'u
    msgHeader" where
  "Header_set_messageid_size s n m = (Header_set_has_messageid m)\<lparr>phd_messageid := take n s\<rparr>"

definition Header_mutable_messageid :: "(byte list \<Rightarrow> byte list) \<Rightarrow> 'u msgHeader
    \<Rightarrow> 'u msgHeader" where
  "Header_mutable_messageid g m = (Header_set_has_messageid m)\<lparr>phd_messageid := g (phd_messageid m)\<rparr>"

definition Header_release_messageid :: "bool \<Rightarrow> 'u msgHeader \<Rightarrow> byte list option \<times>
    'u msgHeader" where
  "Header_release_messageid own m = 
     (if own then Some (phd_messageid m) else None, (Header_clear_has_messageid m)\<lparr>phd_messageid :=
    []\<rparr>)"

definition Header_set_allocated_messageid :: "byte list option \<Rightarrow> 'u msgHeader \<Rightarrow> 'u
    msgHeader" where
  "Header_set_allocated_messageid s m = 
     (let m = (if s \<noteq> None then Header_set_has_messageid m else Header_clear_has_messageid m)
      in m\<lparr>phd_messageid := (case s of None \<Rightarrow> [] | Some s \<Rightarrow> s)\<rparr>)"

definition Header_clear_has_topic :: "'u msgHeader \<Rightarrow> 'u msgHeader" where
  "Header_clear_has_topic m = m\<lparr>phd_bits := phd_bits m AND NOT 2\<rparr>"

definition Header_clear_topic :: "'u msgHeader \<Rightarrow> 'u msgHeader" where
  "Header_clear_topic m = Header_clear_has_topic (m\<lparr>phd_topic := []\<rparr>)"

definition Header_set_topic_chars :: "byte list \<Rightarrow> 'u msgHeader \<Rightarrow> 'u msgHeader" where
  "Header_set_topic_chars s m = (Header_set_has_topic m)\<lparr>phd_topic := c_str s\<rparr>"

definition Header_set_topic_size :: "byte list \<Rightarrow> nat \<Rightarrow> 'u msgHeader \<Rightarrow> 'u
    msgHeader" where
  "Header_set_topic_size s n m = (Header_set_has_topic m)\<lparr>phd_topic := take n s\<rparr>"

definition Header_mutable_topic :: "(byte list \<Rightarrow> byte list) \<Rightarrow> 'u msgHeader \<Rightarrow>
    'u msgHeader" where
  "Header_mutable_topic g m = (Header_set_has_topic m)\<lparr>phd_topic := g (phd_topic m)\<rparr>"

definition Header_release_topic :: "bool \<Rightarrow> 'u msgHeader \<Rightarrow> byte list option \<times> 'u
    msgHeader" where
  "Header_release_topic own m = 
     (if own then Some (phd_topic m) else None, (Header_clear_has_topic m)\<lparr>phd_topic := []\<rparr>)"

definition Header_set_allocated_topic :: "byte list option \<Rightarrow> 'u msgHeader \<Rightarrow> 'u msgHeader"
    where
  "Header_set_allocated_topic s m = 
     (let m = (if s \<noteq> None then Header_set_has_topic m else Header_clear_has_topic m)
      in m\<lparr>phd_topic := (case s of None \<Rightarrow> [] | Some s \<Rightarrow> s)\<rparr>)"

definition Header_clear_has_messagetype :: "'u msgHeader \<Rightarrow> 'u msgHeader" where
  "Header_clear_has_messagetype m = m\<lparr>phd_bits := phd_bits m AND NOT 4\<rparr>"

definition Header_clear_messagetype :: "'u msgHeader \<Rightarrow> 'u msgHeader" where
  "Header_clear_messagetype m = Header_clear_has_messagetype (m\<lparr>phd_messagetype := []\<rparr>)"

definition Header_set_messagetype_chars :: "byte list \<Rightarrow> 'u msgHeader \<Rightarrow> 'u msgHeader" where
  "Header_set_messagetype_chars s m = (Header_set_has_messagetype m)\<lparr>phd_messagetype := c_str s\<rparr>"

definition Header_set_messagetype_size :: "byte list \<Rightarrow> nat \<Rightarrow> 'u msgHeader \<Rightarrow>
    'u msgHeader" where
  "Header_set_messagetype_size s n m = (Header_set_has_messagetype m)\<lparr>phd_messagetype := take n s\<rparr>"

definition Header_mutable_messagetype :: "(byte list \<Rightarrow> byte list) \<Rightarrow> 'u msgHeader
    \<Rightarrow> 'u msgHeader" where
  "Header_mutable_messagetype g m = (Header_set_has_messagetype m)\<lparr>phd_messagetype := g (phd_messagetype
    m)\<rparr>"

definition Header_release_messagetype :: "bool \<Rightarrow> 'u msgHeader \<Rightarrow> byte list option \<times>
    'u msgHeader" where
  "Header_release_messagetype own m = 
     (if own then Some (phd_messagetype m) else None, (Header_clear_has_messagetype m)\<lparr>phd_messagetype :=
    []\<rparr>)"

definition Header_set_allocated_messagetype :: "byte list option \<Rightarrow> 'u msgHeader \<Rightarrow> 'u
    msgHeader" where
  "Header_set_allocated_messagetype s m = 
     (let m = (if s \<noteq> None then Header_set_has_messagetype m else Header_clear_has_messagetype m)
      in m\<lparr>phd_messagetype := (case s of None \<Rightarrow> [] | Some s \<Rightarrow> s)\<rparr>)"

definition Header_clear_has_expiredtime :: "'u msgHeader \<Rightarrow> 'u msgHeader" where
  "Header_clear_has_expiredtime m = m\<lparr>phd_bits := phd_bits m AND NOT 8\<rparr>"

definition Header_clear_expiredtime :: "'u msgHeader \<Rightarrow> 'u msgHeader" where
  "Header_clear_expiredtime m = Header_clear_has_expiredtime (m\<lparr>phd_expiredtime := - 1\<rparr>)"

definition Header_clear_has_deliverlimit :: "'u msgHeader \<Rightarrow> 'u msgHeader" where
  "Header_clear_has_deliverlimit m = m\<lparr>phd_bits := phd_bits m AND NOT 16\<rparr>"

definition Header_clear_deliverlimit :: "'u msgHeader \<Rightarrow> 'u msgHeader" where
  "Header_clear_deliverlimit m = Header_clear_has_deliverlimit (m\<lparr>phd_deliverlimit := 100\<rparr>)"

definition Header_clear_has_groupid :: "'u msgHeader \<Rightarrow> 'u msgHeader" where
  "Header_clear_has_groupid m = m\<lparr>phd_bits := phd_bits m AND NOT 32\<rparr>"

definition Header_clear_groupid :: "'u msgHeader \<Rightarrow> 'u msgHeader" where
  "Header_clear_groupid m = Header_clear_has_groupid (m\<lparr>phd_groupid := []\<rparr>)"

definition Header_set_groupid_chars :: "byte list \<Rightarrow> 'u msgHeader \<Rightarrow> 'u msgHeader" where
  "Header_set_groupid_chars s m = (Header_set_has_groupid m)\<lparr>phd_groupid := c_str s\<rparr>"

definition Header_set_groupid_size :: "byte list \<Rightarrow> nat \<Rightarrow> 'u msgHeader \<Rightarrow> 'u
    msgHeader" where
  "Header_set_groupid_size s n m = (Header_set_has_groupid m)\<lparr>phd_groupid := take n s\<rparr>"

definition Header_mutable_groupid :: "(byte list \<Rightarrow> byte list) \<Rightarrow> 'u msgHeader
    \<Rightarrow> 'u msgHeader" where
  "Header_mutable_groupid g m = (Header_set_has_groupid m)\<lparr>phd_groupid := g (phd_groupid m)\<rparr>"

definition Header_release_groupid :: "bool \<Rightarrow> 'u msgHeader \<Rightarrow> byte list option \<times> 'u
    msgHeader" where
  "Header_release_groupid own m = 
     (if own then Some (phd_groupid m) else None, (Header_clear_has_groupid m)\<lparr>phd_groupid := []\<rparr>)"

definition Header_set_allocated_groupid :: "byte list option \<Rightarrow> 'u msgHeader \<Rightarrow> 'u
    msgHeader" where
  "Header_set_allocated_groupid s m = 
     (let m = (if s \<noteq> None then Header_set_has_groupid m else Header_clear_has_groupid m)
      in m\<lparr>phd_groupid := (case s of None \<Rightarrow> [] | Some s \<Rightarrow> s)\<rparr>)"

definition Header_clear_has_commit :: "'u msgHeader \<Rightarrow> 'u msgHeader" where
  "Header_clear_has_commit m = m\<lparr>phd_bits := phd_bits m AND NOT 64\<rparr>"

definition Header_clear_commit :: "'u msgHeader \<Rightarrow> 'u msgHeader" where
  "Header_clear_commit m = Header_clear_has_commit (m\<lparr>phd_commit := False\<rparr>)"

definition Header_clear_has_fly :: "'u msgHeader \<Rightarrow> 'u msgHeader" where
  "Header_clear_has_fly m = m\<lparr>phd_bits := phd_bits m AND NOT 128\<rparr>"

definition Header_clear_fly :: "'u msgHeader \<Rightarrow> 'u msgHeader" where
  "Header_clear_fly m = Header_clear_has_fly (m\<lparr>phd_fly := False\<rparr>)"

definition Header_properties_size :: "'u msgHeader \<Rightarrow> int" where
  "Header_properties_size m = int (length (phd_properties m))"

definition Header_clear_properties :: "'u msgHeader \<Rightarrow> 'u msgHeader" where
  "Header_clear_properties m = m\<lparr>phd_properties := []\<rparr>"

definition Header_get_properties :: "int \<Rightarrow> 'u msgHeader \<Rightarrow> 'u entry option" where
  "Header_get_properties i m = 
     (if 0 \<le> i \<and> i < int (length (phd_properties m)) then Some (phd_properties m ! nat i) else None)"

definition Header_mutable_properties :: "int \<Rightarrow> ('u entry \<Rightarrow> 'u entry) \<Rightarrow> 'u
    msgHeader \<Rightarrow> 'u msgHeader option" where
  "Header_mutable_properties i g m = 
     (if 0 \<le> i \<and> i < int (length (phd_properties m))
      then Some (m\<lparr>phd_properties := (phd_properties m)[nat i := g (phd_properties m ! nat i)]\<rparr>)
    else None)"

definition Header_add_properties :: "'u msgHeader \<Rightarrow> 'u msgHeader" where
  "Header_add_properties m = m\<lparr>phd_properties := phd_properties m @ [Entry_new]\<rparr>"

definition Header_clear_has_createtime :: "'u msgHeader \<Rightarrow> 'u msgHeader" where
  "Header_clear_has_createtime m = m\<lparr>phd_bits := phd_bits m AND NOT 512\<rparr>"

definition Header_clear_createtime :: "'u msgHeader \<Rightarrow> 'u msgHeader" where
  "Header_clear_createtime m = Header_clear_has_createtime (m\<lparr>phd_createtime := 0\<rparr>)"

lemmas Header_accessor_defs = Header_clear_has_messageid_def Header_clear_messageid_def
    Header_set_messageid_chars_def Header_set_messageid_size_def Header_mutable_messageid_def
    Header_release_messageid_def Header_set_allocated_messageid_def Header_clear_has_topic_def
    Header_clear_topic_def Header_set_topic_chars_def Header_set_topic_size_def Header_mutable_topic_def
    Header_release_topic_def Header_set_allocated_topic_def Header_clear_has_messagetype_def
    Header_clear_messagetype_def Header_set_messagetype_chars_def Header_set_messagetype_size_def
    Header_mutable_messagetype_def Header_release_messagetype_def Header_set_allocated_messagetype_def
    Header_clear_has_expiredtime_def Header_clear_expiredtime_def Header_clear_has_deliverlimit_def
    Header_clear_deliverlimit_def Header_clear_has_groupid_def Header_clear_groupid_def
    Header_set_groupid_chars_def Header_set_groupid_size_def Header_mutable_groupid_def
    Header_release_groupid_def Header_set_allocated_groupid_def Header_clear_has_commit_def
    Header_clear_commit_def Header_clear_has_fly_def Header_clear_fly_def Header_properties_size_def
    Header_clear_properties_def Header_get_properties_def Header_mutable_properties_def Header_add_properties_def
    Header_clear_has_createtime_def Header_clear_createtime_def

inductive Header_made :: "'u msgHeader \<Rightarrow> bool" where
  "Header_made Header_new"
| "Header_made m \<Longrightarrow> length s < 2 ^ 31 \<Longrightarrow> Header_made (Header_set_messageid s m)"
| "Header_made m \<Longrightarrow> length (c_str s) < 2 ^ 31 \<Longrightarrow> Header_made
    (Header_set_messageid_chars s m)"
| "Header_made m \<Longrightarrow> length (take n s) < 2 ^ 31 \<Longrightarrow> Header_made
    (Header_set_messageid_size s n m)"
| "Header_made m \<Longrightarrow> length (g (phd_messageid m)) < 2 ^ 31 \<Longrightarrow> Header_made
    (Header_mutable_messageid g m)"
| "Header_made m \<Longrightarrow> Header_made (snd (Header_release_messageid own m))"
| "Header_made m \<Longrightarrow> (\<And>s. p = Some s \<Longrightarrow> length s < 2 ^ 31) \<Longrightarrow>
    Header_made (Header_set_allocated_messageid p m)"
| "Header_made m \<Longrightarrow> Header_made (Header_clear_messageid m)"
| "Header_made m \<Longrightarrow> length s < 2 ^ 31 \<Longrightarrow> Header_made (Header_set_topic s m)"
| "Header_made m \<Longrightarrow> length (c_str s) < 2 ^ 31 \<Longrightarrow> Header_made
    (Header_set_topic_chars s m)"
| "Header_made m \<Longrightarrow> length (take n s) < 2 ^ 31 \<Longrightarrow> Header_made
    (Header_set_topic_size s n m)"
| "Header_made m \<Longrightarrow> length (g (phd_topic m)) < 2 ^ 31 \<Longrightarrow> Header_made
    (Header_mutable_topic g m)"
| "Header_made m \<Longrightarrow> Header_made (snd (Header_release_topic own m))"
| "Header_made m \<Longrightarrow> (\<And>s. p = Some s \<Longrightarrow> length s < 2 ^ 31) \<Longrightarrow>
    Header_made (Header_set_allocated_topic p m)"
| "Header_made m \<Longrightarrow> Header_made (Header_clear_topic m)"
| "Header_made m \<Longrightarrow> length s < 2 ^ 31 \<Longrightarrow> Header_made (Header_set_messagetype s m)"
| "Header_made m \<Longrightarrow> length (c_str s) < 2 ^ 31 \<Longrightarrow> Header_made
    (Header_set_messagetype_chars s m)"
| "Header_made m \<Longrightarrow> length (take n s) < 2 ^ 31 \<Longrightarrow> Header_made
    (Header_set_messagetype_size s n m)"
| "Header_made m \<Longrightarrow> length (g (phd_messagetype m)) < 2 ^ 31 \<Longrightarrow> Header_made
    (Header_mutable_messagetype g m)"
| "Header_made m \<Longrightarrow> Header_made (snd (Header_release_messagetype own m))"
| "Header_made m \<Longrightarrow> (\<And>s. p = Some s \<Longrightarrow> length s < 2 ^ 31) \<Longrightarrow>
    Header_made (Header_set_allocated_messagetype p m)"
| "Header_made m \<Longrightarrow> Header_made (Header_clear_messagetype m)"
| "Header_made m \<Longrightarrow> Header_made (Header_set_expiredtime v m)"
| "Header_made m \<Longrightarrow> Header_made (Header_clear_expiredtime m)"
| "Header_made m \<Longrightarrow> Header_made (Header_set_deliverlimit v m)"
| "Header_made m \<Longrightarrow> Header_made (Header_clear_deliverlimit m)"
| "Header_made m \<Longrightarrow> length s < 2 ^ 31 \<Longrightarrow> Header_made (Header_set_groupid s m)"
| "Header_made m \<Longrightarrow> length (c_str s) < 2 ^ 31 \<Longrightarrow> Header_made
    (Header_set_groupid_chars s m)"
| "Header_made m \<Longrightarrow> length (take n s) < 2 ^ 31 \<Longrightarrow> Header_made
    (Header_set_groupid_size s n m)"
| "Header_made m \<Longrightarrow> length (g (phd_groupid m)) < 2 ^ 31 \<Longrightarrow> Header_made
    (Header_mutable_groupid g m)"
| "Header_made m \<Longrightarrow> Header_made (snd (Header_release_groupid own m))"
| "Header_made m \<Longrightarrow> (\<And>s. p = Some s \<Longrightarrow> length s < 2 ^ 31) \<Longrightarrow>
    Header_made (Header_set_allocated_groupid p m)"
| "Header_made m \<Longrightarrow> Header_made (Header_clear_groupid m)"
| "Header_made m \<Longrightarrow> Header_made (Header_set_commit v m)"
| "Header_made m \<Longrightarrow> Header_made (Header_clear_commit m)"
| "Header_made m \<Longrightarrow> Header_made (Header_set_fly v m)"
| "Header_made m \<Longrightarrow> Header_made (Header_clear_fly m)"
| "Header_made m \<Longrightarrow> Header_made (Header_clear_properties m)"
| "Header_made m \<Longrightarrow> Header_made (Header_add_properties m)"
| edit: "Header_made m \<Longrightarrow> (\<And>e. Entry_made e \<Longrightarrow> Entry_made (g e))
    \<Longrightarrow> 0 \<le> i \<Longrightarrow> i < Header_properties_size m \<Longrightarrow> Header_made (the
    (Header_mutable_properties i g m))"
| "Header_made m \<Longrightarrow> Header_made (Header_set_createtime v m)"
| "Header_made m \<Longrightarrow> Header_made (Header_clear_createtime m)"

text \<open>The entries of a header may still be incomplete; \<open>IsInitialized\<close> finds out.\<close>

definition Header_wf :: "'u msgHeader \<Rightarrow> bool" where
  "Header_wf m \<longleftrightarrow> Header_built (m\<lparr>phd_properties := []\<rparr>) \<and>
    (\<forall>e\<in>set (phd_properties m). Entry_made e)"

lemma Header_wf_built: "Header_wf m \<Longrightarrow> Header_IsInitialized m \<Longrightarrow> Header_built m"
  by (auto simp: Header_wf_def Header_built_def Header_has_iffs Header_initialized_iff list_all_iff Entry_made_built)

lemma Header_wf_clear: "Header_wf m \<Longrightarrow> Header_Clear W m = Header_new"
proof -
  have "Header_Clear W (m\<lparr>phd_properties := []\<rparr>) = Header_Clear W m"
    by (cases m) (simp add: Header_Clear_def Header_has_defs Let_def)
  moreover assume "Header_wf m"
  ultimately show ?thesis
    using Header_clear_built [of "m\<lparr>phd_properties := []\<rparr>" W] by (simp add: Header_wf_def)
qed

lemma Header_made_wf: "Header_made m \<Longrightarrow> Header_wf m"
proof (induction rule: Header_made.induct)
  case (edit m g i)
  then show ?case
    by (auto simp: Header_wf_def Header_accessor_defs nth_mem split: if_splits dest!: set_update_subset_insert
    [THEN subsetD])
qed (simp_all add: Header_wf_def Header_built_def Header_new_def Header_has_iffs Header_accessor_defs Header_set_defs
      Entry_made.intros(1) Let_def set_bits
    del: bit_numeral_word_iff split: option.splits)

lemma Header_new_wf: "Header_wf Header_new"
  by (rule Header_made_wf) (rule Header_made.intros)

section \<open>TxACKPacket\<close>

definition TxACKPacket_clear_has_header :: "'u txACKPacket \<Rightarrow> 'u txACKPacket" where
  "TxACKPacket_clear_has_header m = m\<lparr>txa_bits := txa_bits m AND NOT 1\<rparr>"

definition TxACKPacket_clear_header :: "'u wire \<Rightarrow> 'u txACKPacket \<Rightarrow> 'u txACKPacket" where
  "TxACKPacket_clear_header W m = TxACKPacket_clear_has_header (m\<lparr>txa_header := map_option (Header_Clear
    W) (txa_header m)\<rparr>)"

definition TxACKPacket_release_header :: "'u txACKPacket \<Rightarrow> 'u msgHeader option \<times> 'u
    txACKPacket" where
  "TxACKPacket_release_header m = (txa_header m, (TxACKPacket_clear_has_header m)\<lparr>txa_header := None\<rparr>)"

definition TxACKPacket_set_allocated_header :: "'u msgHeader option \<Rightarrow> 'u txACKPacket \<Rightarrow> 'u
    txACKPacket" where
  "TxACKPacket_set_allocated_header h m = 
     (let m = m\<lparr>txa_header := h\<rparr> in if h \<noteq> None then TxACKPacket_set_has_header m else
    TxACKPacket_clear_has_header m)"

definition TxACKPacket_clear_has_status :: "'u txACKPacket \<Rightarrow> 'u txACKPacket" where
  "TxACKPacket_clear_has_status m = m\<lparr>txa_bits := txa_bits m AND NOT 2\<rparr>"

definition TxACKPacket_clear_status :: "'u txACKPacket \<Rightarrow> 'u txACKPacket" where
  "TxACKPacket_clear_status m = TxACKPacket_clear_has_status (m\<lparr>txa_status := 0\<rparr>)"

definition TxACKPacket_clear_has_feedback :: "'u txACKPacket \<Rightarrow> 'u txACKPacket" where
  "TxACKPacket_clear_has_feedback m = m\<lparr>txa_bits := txa_bits m AND NOT 4\<rparr>"

definition TxACKPacket_clear_feedback :: "'u txACKPacket \<Rightarrow> 'u txACKPacket" where
  "TxACKPacket_clear_feedback m = TxACKPacket_clear_has_feedback (m\<lparr>txa_feedback := []\<rparr>)"

definition TxACKPacket_set_feedback_chars :: "byte list \<Rightarrow> 'u txACKPacket \<Rightarrow> 'u
    txACKPacket" where
  "TxACKPacket_set_feedback_chars s m = (TxACKPacket_set_has_feedback m)\<lparr>txa_feedback := c_str s\<rparr>"

definition TxACKPacket_set_feedback_size :: "byte list \<Rightarrow> nat \<Rightarrow> 'u txACKPacket
    \<Rightarrow> 'u txACKPacket" where
  "TxACKPacket_set_feedback_size s n m = (TxACKPacket_set_has_feedback m)\<lparr>txa_feedback := take n s\<rparr>"

definition TxACKPacket_mutable_feedback :: "(byte list \<Rightarrow> byte list) \<Rightarrow> 'u txACKPacket
    \<Rightarrow> 'u txACKPacket" where
  "TxACKPacket_mutable_feedback g m = (TxACKPacket_set_has_feedback m)\<lparr>txa_feedback := g (txa_feedback
    m)\<rparr>"

definition TxACKPacket_release_feedback :: "bool \<Rightarrow> 'u txACKPacket \<Rightarrow> byte list option
    \<times> 'u txACKPacket" where
  "TxACKPacket_release_feedback own m = 
     (if own then Some (txa_feedback m) else None, (TxACKPacket_clear_has_feedback m)\<lparr>txa_feedback :=
    []\<rparr>)"

definition TxACKPacket_set_allocated_feedback :: "byte list option \<Rightarrow> 'u txACKPacket \<Rightarrow> 'u
    txACKPacket" where
  "TxACKPacket_set_allocated_feedback s m = 
     (let m = (if s \<noteq> None then TxACKPacket_set_has_feedback m else TxACKPacket_clear_has_feedback m)
      in m\<lparr>txa_feedback := (case s of None \<Rightarrow> [] | Some s \<Rightarrow> s)\<rparr>)"

lemmas TxACKPacket_accessor_defs = TxACKPacket_clear_has_header_def TxACKPacket_clear_header_def
    TxACKPacket_release_header_def TxACKPacket_set_allocated_header_def TxACKPacket_clear_has_status_def
    TxACKPacket_clear_status_def TxACKPacket_clear_has_feedback_def TxACKPacket_clear_feedback_def
    TxACKPacket_set_feedback_chars_def TxACKPacket_set_feedback_size_def TxACKPacket_mutable_feedback_def
    TxACKPacket_release_feedback_def TxACKPacket_set_allocated_feedback_def

inductive TxACKPacket_made :: "'u txACKPacket \<Rightarrow> bool" where
  "TxACKPacket_made TxACKPacket_new"
| "TxACKPacket_made m \<Longrightarrow> Header_made h \<Longrightarrow> TxACKPacket_made (TxACKPacket_put_header h m)"
| "TxACKPacket_made m \<Longrightarrow> TxACKPacket_made (snd (TxACKPacket_release_header m))"
| "TxACKPacket_made m \<Longrightarrow> (\<And>h. p = Some h \<Longrightarrow> Header_made h) \<Longrightarrow>
    TxACKPacket_made (TxACKPacket_set_allocated_header p m)"
| "TxACKPacket_made m \<Longrightarrow> TxACKPacket_made (TxACKPacket_clear_header W m)"
| "TxACKPacket_made m \<Longrightarrow> TxACKPacket_made (TxACKPacket_set_status v m)"
| "TxACKPacket_made m \<Longrightarrow> TxACKPacket_made (TxACKPacket_clear_status m)"
| "TxACKPacket_made m \<Longrightarrow> length s < 2 ^ 31 \<Longrightarrow> TxACKPacket_made
    (TxACKPacket_set_feedback s m)"
| "TxACKPacket_made m \<Longrightarrow> length (c_str s) < 2 ^ 31 \<Longrightarrow> TxACKPacket_made
    (TxACKPacket_set_feedback_chars s m)"
| "TxACKPacket_made m \<Longrightarrow> length (take n s) < 2 ^ 31 \<Longrightarrow> TxACKPacket_made
    (TxACKPacket_set_feedback_size s n m)"
| "TxACKPacket_made m \<Longrightarrow> length (g (txa_feedback m)) < 2 ^ 31 \<Longrightarrow> TxACKPacket_made
    (TxACKPacket_mutable_feedback g m)"
| "TxACKPacket_made m \<Longrightarrow> TxACKPacket_made (snd (TxACKPacket_release_feedback own m))"
| "TxACKPacket_made m \<Longrightarrow> (\<And>s. p = Some s \<Longrightarrow> length s < 2 ^ 31)
    \<Longrightarrow> TxACKPacket_made (TxACKPacket_set_allocated_feedback p m)"
| "TxACKPacket_made m \<Longrightarrow> TxACKPacket_made (TxACKPacket_clear_feedback m)"

text \<open>A cleared header stays in place with its has-bit off.\<close>

definition TxACKPacket_wf :: "'u txACKPacket \<Rightarrow> bool" where
  "TxACKPacket_wf m \<longleftrightarrow>
     (\<forall>n. bit (txa_bits m) n \<longrightarrow> n < 3) \<and>
     (TxACKPacket_has_header m \<longrightarrow> txa_header m \<noteq> None) \<and>
     (\<forall>h. txa_header m = Some h \<longrightarrow> Header_wf h) \<and>
     (\<not> TxACKPacket_has_status m \<longrightarrow> txa_status m = 0) \<and>
     length (txa_feedback m) < 2 ^ 31 \<and>
     (\<not> TxACKPacket_has_feedback m \<longrightarrow> txa_feedback m = []) \<and>
     txa_unknown m = None \<and>
     txa_cached m = 0"

lemma TxACKPacket_wf_built: "TxACKPacket_wf m \<Longrightarrow> TxACKPacket_IsInitialized m \<Longrightarrow>
    TxACKPacket_built m"
  by (auto simp: TxACKPacket_wf_def TxACKPacket_built_def TxACKPacket_has_iffs TxACKPacket_initialized_iff
    header_initialized_def
      Header_wf_built split: option.splits)

lemma TxACKPacket_made_wf: "TxACKPacket_made m \<Longrightarrow> TxACKPacket_wf m"
  by (induction rule: TxACKPacket_made.induct)
    (simp_all add: TxACKPacket_wf_def TxACKPacket_built_def TxACKPacket_new_def TxACKPacket_has_iffs
    TxACKPacket_accessor_defs TxACKPacket_set_defs
      Header_made_wf Let_def set_bits
    del: bit_numeral_word_iff split: option.splits, auto simp: Header_wf_clear Header_new_wf)

section \<open>BytesMessage\<close>

definition BytesMessage_clear_has_header :: "'u bytesMessage \<Rightarrow> 'u bytesMessage" where
  "BytesMessage_clear_has_header m = m\<lparr>bym_bits := bym_bits m AND NOT 1\<rparr>"

definition BytesMessage_clear_header :: "'u wire \<Rightarrow> 'u bytesMessage \<Rightarrow> 'u bytesMessage" where
  "BytesMessage_clear_header W m = BytesMessage_clear_has_header (m\<lparr>bym_header := map_option (Header_Clear
    W) (bym_header m)\<rparr>)"

definition BytesMessage_release_header :: "'u bytesMessage \<Rightarrow> 'u msgHeader option \<times> 'u
    bytesMessage" where
  "BytesMessage_release_header m = (bym_header m, (BytesMessage_clear_has_header m)\<lparr>bym_header :=
    None\<rparr>)"

definition BytesMessage_set_allocated_header :: "'u msgHeader option \<Rightarrow> 'u bytesMessage \<Rightarrow>
    'u bytesMessage" where
  "BytesMessage_set_allocated_header h m = 
     (let m = m\<lparr>bym_header := h\<rparr> in if h \<noteq> None then BytesMessage_set_has_header m else
    BytesMessage_clear_has_header m)"

definition BytesMessage_clear_has_body :: "'u bytesMessage \<Rightarrow> 'u bytesMessage" where
  "BytesMessage_clear_has_body m = m\<lparr>bym_bits := bym_bits m AND NOT 2\<rparr>"

definition BytesMessage_clear_body :: "'u bytesMessage \<Rightarrow> 'u bytesMessage" where
  "BytesMessage_clear_body m = BytesMessage_clear_has_body (m\<lparr>bym_body := []\<rparr>)"

definition BytesMessage_set_body_chars :: "byte list \<Rightarrow> 'u bytesMessage \<Rightarrow> 'u bytesMessage"
    where
  "BytesMessage_set_body_chars s m = (BytesMessage_set_has_body m)\<lparr>bym_body := c_str s\<rparr>"

definition BytesMessage_set_body_size :: "byte list \<Rightarrow> nat \<Rightarrow> 'u bytesMessage \<Rightarrow>
    'u bytesMessage" where
  "BytesMessage_set_body_size s n m = (BytesMessage_set_has_body m)\<lparr>bym_body := take n s\<rparr>"

definition BytesMessage_mutable_body :: "(byte list \<Rightarrow> byte list) \<Rightarrow> 'u bytesMessage
    \<Rightarrow> 'u bytesMessage" where
  "BytesMessage_mutable_body g m = (BytesMessage_set_has_body m)\<lparr>bym_body := g (bym_body m)\<rparr>"

definition BytesMessage_release_body :: "bool \<Rightarrow> 'u bytesMessage \<Rightarrow> byte list option
    \<times> 'u bytesMessage" where
  "BytesMessage_release_body own m = 
     (if own then Some (bym_body m) else None, (BytesMessage_clear_has_body m)\<lparr>bym_body := []\<rparr>)"

definition BytesMessage_set_allocated_body :: "byte list option \<Rightarrow> 'u bytesMessage \<Rightarrow> 'u
    bytesMessage" where
  "BytesMessage_set_allocated_body s m = 
     (let m = (if s \<noteq> None then BytesMessage_set_has_body m else BytesMessage_clear_has_body m)
      in m\<lparr>bym_body := (case s of None \<Rightarrow> [] | Some s \<Rightarrow> s)\<rparr>)"

lemmas BytesMessage_accessor_defs = BytesMessage_clear_has_header_def BytesMessage_clear_header_def
    BytesMessage_release_header_def BytesMessage_set_allocated_header_def BytesMessage_clear_has_body_def
    BytesMessage_clear_body_def BytesMessage_set_body_chars_def BytesMessage_set_body_size_def
    BytesMessage_mutable_body_def BytesMessage_release_body_def BytesMessage_set_allocated_body_def

inductive BytesMessage_made :: "'u bytesMessage \<Rightarrow> bool" where
  "BytesMessage_made BytesMessage_new"
| "BytesMessage_made m \<Longrightarrow> Header_made h \<Longrightarrow> BytesMessage_made
    (BytesMessage_put_header h m)"
| "BytesMessage_made m \<Longrightarrow> BytesMessage_made (snd (BytesMessage_release_header m))"
| "BytesMessage_made m \<Longrightarrow> (\<And>h. p = Some h \<Longrightarrow> Header_made h) \<Longrightarrow>
    BytesMessage_made (BytesMessage_set_allocated_header p m)"
| "BytesMessage_made m \<Longrightarrow> BytesMessage_made (BytesMessage_clear_header W m)"
| "BytesMessage_made m \<Longrightarrow> length s < 2 ^ 31 \<Longrightarrow> BytesMessage_made
    (BytesMessage_set_body s m)"
| "BytesMessage_made m \<Longrightarrow> length (c_str s) < 2 ^ 31 \<Longrightarrow> BytesMessage_made
    (BytesMessage_set_body_chars s m)"
| "BytesMessage_made m \<Longrightarrow> length (take n s) < 2 ^ 31 \<Longrightarrow> BytesMessage_made
    (BytesMessage_set_body_size s n m)"
| "BytesMessage_made m \<Longrightarrow> length (g (bym_body m)) < 2 ^ 31 \<Longrightarrow> BytesMessage_made
    (BytesMessage_mutable_body g m)"
| "BytesMessage_made m \<Longrightarrow> BytesMessage_made (snd (BytesMessage_release_body own m))"
| "BytesMessage_made m \<Longrightarrow> (\<And>s. p = Some s \<Longrightarrow> length s < 2 ^ 31)
    \<Longrightarrow> BytesMessage_made (BytesMessage_set_allocated_body p m)"
| "BytesMessage_made m \<Longrightarrow> BytesMessage_made (BytesMessage_clear_body m)"

text \<open>A cleared header stays in place with its has-bit off.\<close>

definition BytesMessage_wf :: "'u bytesMessage \<Rightarrow> bool" where
  "BytesMessage_wf m \<longleftrightarrow>
     (\<forall>n. bit (bym_bits m) n \<longrightarrow> n < 2) \<and>
     (BytesMessage_has_header m \<longrightarrow> bym_header m \<noteq> None) \<and>
     (\<forall>h. bym_header m = Some h \<longrightarrow> Header_wf h) \<and>
     length (bym_body m) < 2 ^ 31 \<and>
     (\<not> BytesMessage_has_body m \<longrightarrow> bym_body m = []) \<and>
     bym_unknown m = None \<and>
     bym_cached m = 0"

lemma BytesMessage_wf_built: "BytesMessage_wf m \<Longrightarrow> BytesMessage_IsInitialized m \<Longrightarrow>
    BytesMessage_built m"
  by (auto simp: BytesMessage_wf_def BytesMessage_built_def BytesMessage_has_iffs BytesMessage_initialized_iff
    header_initialized_def
      Header_wf_built split: option.splits)

lemma BytesMessage_made_wf: "BytesMessage_made m \<Longrightarrow> BytesMessage_wf m"
  by (induction rule: BytesMessage_made.induct)
    (simp_all add: BytesMessage_wf_def BytesMessage_built_def BytesMessage_new_def BytesMessage_has_iffs
    BytesMessage_accessor_defs BytesMessage_set_defs
      Header_made_wf Let_def set_bits
    del: bit_numeral_word_iff split: option.splits, auto simp: Header_wf_clear Header_new_wf)

section \<open>StringMessage\<close>

definition StringMessage_clear_has_header :: "'u stringMessage \<Rightarrow> 'u stringMessage" where
  "StringMessage_clear_has_header m = m\<lparr>stm_bits := stm_bits m AND NOT 1\<rparr>"

definition StringMessage_clear_header :: "'u wire \<Rightarrow> 'u stringMessage \<Rightarrow> 'u stringMessage" where
  "StringMessage_clear_header W m = StringMessage_clear_has_header (m\<lparr>stm_header := map_option
    (Header_Clear W) (stm_header m)\<rparr>)"

definition StringMessage_release_header :: "'u stringMessage \<Rightarrow> 'u msgHeader option \<times> 'u
    stringMessage" where
  "StringMessage_release_header m = (stm_header m, (StringMessage_clear_has_header m)\<lparr>stm_header :=
    None\<rparr>)"

definition StringMessage_set_allocated_header :: "'u msgHeader option \<Rightarrow> 'u stringMessage
    \<Rightarrow> 'u stringMessage" where
  "StringMessage_set_allocated_header h m = 
     (let m = m\<lparr>stm_header := h\<rparr> in if h \<noteq> None then StringMessage_set_has_header m else
    StringMessage_clear_has_header m)"

definition StringMessage_clear_has_body :: "'u stringMessage \<Rightarrow> 'u stringMessage" where
  "StringMessage_clear_has_body m = m\<lparr>stm_bits := stm_bits m AND NOT 2\<rparr>"

definition StringMessage_clear_body :: "'u stringMessage \<Rightarrow> 'u stringMessage" where
  "StringMessage_clear_body m = StringMessage_clear_has_body (m\<lparr>stm_body := []\<rparr>)"

definition StringMessage_set_body_chars :: "byte list \<Rightarrow> 'u stringMessage \<Rightarrow> 'u
    stringMessage" where
  "StringMessage_set_body_chars s m = (StringMessage_set_has_body m)\<lparr>stm_body := c_str s\<rparr>"

definition StringMessage_set_body_size :: "byte list \<Rightarrow> nat \<Rightarrow> 'u stringMessage
    \<Rightarrow> 'u stringMessage" where
  "StringMessage_set_body_size s n m = (StringMessage_set_has_body m)\<lparr>stm_body := take n s\<rparr>"

definition StringMessage_mutable_body :: "(byte list \<Rightarrow> byte list) \<Rightarrow> 'u stringMessage
    \<Rightarrow> 'u stringMessage" where
  "StringMessage_mutable_body g m = (StringMessage_set_has_body m)\<lparr>stm_body := g (stm_body m)\<rparr>"

definition StringMessage_release_body :: "bool \<Rightarrow> 'u stringMessage \<Rightarrow> byte list option
    \<times> 'u stringMessage" where
  "StringMessage_release_body own m = 
     (if own then Some (stm_body m) else None, (StringMessage_clear_has_body m)\<lparr>stm_body := []\<rparr>)"

definition StringMessage_set_allocated_body :: "byte list option \<Rightarrow> 'u stringMessage \<Rightarrow> 'u
    stringMessage" where
  "StringMessage_set_allocated_body s m = 
     (let m = (if s \<noteq> None then StringMessage_set_has_body m else StringMessage_clear_has_body m)
      in m\<lparr>stm_body := (case s of None \<Rightarrow> [] | Some s \<Rightarrow> s)\<rparr>)"

lemmas StringMessage_accessor_defs = StringMessage_clear_has_header_def StringMessage_clear_header_def
    StringMessage_release_header_def StringMessage_set_allocated_header_def StringMessage_clear_has_body_def
    StringMessage_clear_body_def StringMessage_set_body_chars_def StringMessage_set_body_size_def
    StringMessage_mutable_body_def StringMessage_release_body_def StringMessage_set_allocated_body_def

inductive StringMessage_made :: "'u stringMessage \<Rightarrow> bool" where
  "StringMessage_made StringMessage_new"
| "StringMessage_made m \<Longrightarrow> Header_made h \<Longrightarrow> StringMessage_made
    (StringMessage_put_header h m)"
| "StringMessage_made m \<Longrightarrow> StringMessage_made (snd (StringMessage_release_header m))"
| "StringMessage_made m \<Longrightarrow> (\<And>h. p = Some h \<Longrightarrow> Header_made h) \<Longrightarrow>
    StringMessage_made (StringMessage_set_allocated_header p m)"
| "StringMessage_made m \<Longrightarrow> StringMessage_made (StringMessage_clear_header W m)"
| "StringMessage_made m \<Longrightarrow> length s < 2 ^ 31 \<Longrightarrow> StringMessage_made
    (StringMessage_set_body s m)"
| "StringMessage_made m \<Longrightarrow> length (c_str s) < 2 ^ 31 \<Longrightarrow> StringMessage_made
    (StringMessage_set_body_chars s m)"
| "StringMessage_made m \<Longrightarrow> length (take n s) < 2 ^ 31 \<Longrightarrow> StringMessage_made
    (StringMessage_set_body_size s n m)"
| "StringMessage_made m \<Longrightarrow> length (g (stm_body m)) < 2 ^ 31 \<Longrightarrow> StringMessage_made
    (StringMessage_mutable_body g m)"
| "StringMessage_made m \<Longrightarrow> StringMessage_made (snd (StringMessage_release_body own m))"
| "StringMessage_made m \<Longrightarrow> (\<And>s. p = Some s \<Longrightarrow> length s < 2 ^ 31)
    \<Longrightarrow> StringMessage_made (StringMessage_set_allocated_body p m)"
| "StringMessage_made m \<Longrightarrow> StringMessage_made (StringMessage_clear_body m)"

text \<open>A cleared header stays in place with its has-bit off.\<close>

definition StringMessage_wf :: "'u stringMessage \<Rightarrow> bool" where
  "StringMessage_wf m \<longleftrightarrow>
     (\<forall>n. bit (stm_bits m) n \<longrightarrow> n < 2) \<and>
     (StringMessage_has_header m \<longrightarrow> stm_header m \<noteq> None) \<and>
     (\<forall>h. stm_header m = Some h \<longrightarrow> Header_wf h) \<and>
     length (stm_body m) < 2 ^ 31 \<and>
     (\<not> StringMessage_has_body m \<longrightarrow> stm_body m = []) \<and>
     stm_unknown m = None \<and>
     stm_cached m = 0"

lemma StringMessage_wf_built: "StringMessage_wf m \<Longrightarrow> StringMessage_IsInitialized m
    \<Longrightarrow> StringMessage_built m"
  by (auto simp: StringMessage_wf_def StringMessage_built_def StringMessage_has_iffs
    StringMessage_initialized_iff header_initialized_def
      Header_wf_built split: option.splits)

lemma StringMessage_made_wf: "StringMessage_made m \<Longrightarrow> StringMessage_wf m"
  by (induction rule: StringMessage_made.induct)
    (simp_all add: StringMessage_wf_def StringMessage_built_def StringMessage_new_def StringMessage_has_iffs
    StringMessage_accessor_defs StringMessage_set_defs
      Header_made_wf Let_def set_bits
    del: bit_numeral_word_iff split: option.splits, auto simp: Header_wf_clear Header_new_wf)

section \<open>Messages made by the accessors\<close>

fun pb_made :: "'u pb_message \<Rightarrow> bool" where
  "pb_made (HeartBeatM m) \<longleftrightarrow> HeartBeat_made m"
| "pb_made (ConnMetaM m) \<longleftrightarrow> ConnMeta_made m"
| "pb_made (ConnAuthAckM m) \<longleftrightarrow> ConnAuthAck_made m"
| "pb_made (MessageStoreAckM m) \<longleftrightarrow> MessageStoreAck_made m"
| "pb_made (DeliverAckM m) \<longleftrightarrow> DeliverAck_made m"
| "pb_made (TxACKPacketM m) \<longleftrightarrow> TxACKPacket_made m"
| "pb_made (EntryM m) \<longleftrightarrow> Entry_made m"
| "pb_made (HeaderM m) \<longleftrightarrow> Header_made m"
| "pb_made (BytesMessageM m) \<longleftrightarrow> BytesMessage_made m"
| "pb_made (StringMessageM m) \<longleftrightarrow> StringMessage_made m"

text \<open>The header inside a message, and what fits the 32-bit length prefixes of the messages inside.\<close>

fun inner_header :: "'u pb_message \<Rightarrow> 'u msgHeader option" where
  "inner_header (TxACKPacketM m) = txa_header m"
| "inner_header (HeaderM m) = Some m"
| "inner_header (BytesMessageM m) = bym_header m"
| "inner_header (StringMessageM m) = stm_header m"
| "inner_header _ = None"

definition pb_fits :: "'u wire \<Rightarrow> 'u pb_message \<Rightarrow> bool" where
  "pb_fits W m \<longleftrightarrow> (\<forall>h\<in>set_option (inner_header m). Header_fits W h \<and> fst
    (Header_ByteSize W h) < 2 ^ 31)"

lemmas made_invariants = HeartBeat_made_built ConnMeta_made_built ConnAuthAck_made_built MessageStoreAck_made_built
  DeliverAck_made_built Entry_made_built Header_made_wf TxACKPacket_made_wf BytesMessage_made_wf StringMessage_made_wf

lemma wf_header_ok:
  assumes "\<forall>h. p = Some h \<longrightarrow> Header_wf h" and "p \<noteq> None" and "header_initialized p"
    and "\<forall>h\<in>set_option p. Header_fits W h \<and> fst (Header_ByteSize W h) < 2 ^ 31"
  shows "header_ok W p"
  using assms by (cases p) (simp_all add: header_ok_def good_header_def header_initialized_def Header_wf_built)

lemma pb_made_good:
  assumes "pb_made m" and "pb_IsInitialized m" and "pb_fits W m"
  shows "pb_good W m"
proof (cases m)
  case (TxACKPacketM x)
  with assms have x: "TxACKPacket_wf x" "TxACKPacket_IsInitialized x" by (simp_all add: made_invariants)
  moreover have "header_ok W (txa_header x)"
    using x assms(3) TxACKPacketM
    by (intro wf_header_ok)
      (simp_all add: TxACKPacket_wf_def TxACKPacket_has_iffs TxACKPacket_initialized_iff pb_fits_def)
  ultimately show ?thesis using TxACKPacketM by (simp add: TxACKPacket_wf_built)
next
  case (BytesMessageM x)
  with assms have x: "BytesMessage_wf x" "BytesMessage_IsInitialized x" by (simp_all add: made_invariants)
  moreover have "header_ok W (bym_header x)"
    using x assms(3) BytesMessageM
    by (intro wf_header_ok)
      (simp_all add: BytesMessage_wf_def BytesMessage_has_iffs BytesMessage_initialized_iff pb_fits_def)
  ultimately show ?thesis using BytesMessageM by (simp add: BytesMessage_wf_built)
next
  case (StringMessageM x)
  with assms have x: "StringMessage_wf x" "StringMessage_IsInitialized x" by (simp_all add: made_invariants)
  moreover have "header_ok W (stm_header x)"
    using x assms(3) StringMessageM
    by (intro wf_header_ok)
      (simp_all add: StringMessage_wf_def StringMessage_has_iffs StringMessage_initialized_iff pb_fits_def)
  ultimately show ?thesis using StringMessageM by (simp add: StringMessage_wf_built)
qed (use assms in \<open>simp_all add: made_invariants Header_wf_built good_header_def pb_fits_def\<close>)


text \<open>
  A message whose header was filled, changed and cleared in part, with an entry written in place; the header is handed
  over, taken out and handed over again.
\<close>

definition full_entry :: "byte list entry \<Rightarrow> byte list entry" where
  "full_entry e = Entry_set_value_chars [8, 0, 9] (Entry_set_key [7] e)"

definition filled_header :: "byte list msgHeader" where
  "filled_header = Header_clear_createtime (Header_set_createtime 3 (Header_set_fly False (Header_set_commit True
     (Header_set_groupid_chars [6, 0] (Header_set_deliverlimit 100 (Header_set_expiredtime 5
    (Header_set_messagetype [4]
     (Header_set_topic_size [3, 2] 1 (Header_set_messageid [2] (Header_clear_messageid (Header_set_messageid [1]
     Header_new)))))))))))"

definition edited_header :: "byte list msgHeader" where
  "edited_header = the (Header_mutable_properties 0 full_entry (Header_add_properties filled_header))"

definition edited_string :: "byte list stringMessage" where
  "edited_string = StringMessage_set_allocated_header (Some edited_header) (snd (StringMessage_release_header
     (StringMessage_set_allocated_header (Some filled_header) (StringMessage_set_body_chars [9, 8, 0, 7]
    StringMessage_new))))"

lemma full_entry_made: "Entry_made e \<Longrightarrow> Entry_made (full_entry e)"
  unfolding full_entry_def by (intro Entry_made.intros) (simp_all add: c_str_def)

lemma filled_header_made: "Header_made filled_header"
  unfolding filled_header_def by (intro Header_made.intros) (simp_all add: c_str_def)

lemma edited_header_made: "Header_made edited_header"
  unfolding edited_header_def
  by (intro Header_made.intros filled_header_made full_entry_made)
    (simp_all add: Header_properties_size_def Header_add_properties_def)

lemma edited_string_made: "StringMessage_made edited_string"
  unfolding edited_string_def
  by (intro StringMessage_made.intros) (simp_all add: c_str_def filled_header_made edited_header_made)

lemma full_entry_eq: "full_entry Entry_new = \<lparr>ent_bits = 3, ent_key = [7], ent_value = [8], ent_unknown =
    None, ent_cached = 0\<rparr>"
  by (simp add: full_entry_def c_str_def Entry_set_value_chars_def Entry_set_defs Entry_new_def)

lemma filled_header_eq: "filled_header = \<lparr>phd_bits = 255, phd_messageid = [2], phd_topic = [3],
    phd_messagetype = [4],
    phd_expiredtime = 5, phd_deliverlimit = 100, phd_groupid = [6], phd_commit = True, phd_fly = False,
    phd_properties = [],
    phd_createtime = 0, phd_unknown = None, phd_cached = 0\<rparr>"
  by (simp add: filled_header_def c_str_def Header_accessor_defs Header_set_defs Header_new_def)

lemma edited_header_eq: "edited_header = filled_header\<lparr>phd_properties := [full_entry Entry_new]\<rparr>"
  by (simp add: edited_header_def Header_mutable_properties_def Header_add_properties_def filled_header_eq)

lemma edited_string_eq: "edited_string =
    \<lparr>stm_bits = 3, stm_header = Some edited_header, stm_body = [9, 8], stm_unknown = None, stm_cached =
    0\<rparr>"
  by (simp add: edited_string_def StringMessage_accessor_defs StringMessage_set_defs StringMessage_new_def c_str_def)

lemma edited_string_ok: "StringMessage_IsInitialized edited_string" "pb_fits std_wire (StringMessageM edited_string)"
proof -
  have e: "fst (Entry_ByteSize std_wire (full_entry Entry_new)) = 6"
    by (simp add: full_entry_eq Entry_ByteSize_def size_simps Let_def)
  show "StringMessage_IsInitialized edited_string"
    by (simp add: edited_string_eq edited_header_eq filled_header_eq full_entry_eq StringMessage_IsInitialized_def
        StringMessage_has_defs header_initialized_def Header_IsInitialized_def Entry_IsInitialized_def)
  have "fst (Header_ByteSize std_wire edited_header) = 28"
    by (simp add: edited_header_eq filled_header_eq Header_ByteSize_def Header_has_defs e size_simps Let_def)
  then show "pb_fits std_wire (StringMessageM edited_string)"
    by (simp add: pb_fits_def edited_string_eq Header_fits_def edited_header_eq [symmetric])
      (simp add: edited_header_eq e)
qed


end
