(* ===== verification/Examples.thy ===== *)
theory Examples
  imports IOClient PbAccessors
begin

text \<open>
  The programs of \<^verbatim>\<open>example/\<close>: a producer of messages, a producer of transactional messages and a
  consumer.  They run over the client package (\<^verbatim>\<open>DefaultKiteClient\<close>, \<^verbatim>\<open>ListenerAdapter\<close>,
  \<^verbatim>\<open>Binding\<close>), which is not in the repository: it is the record \<open>kite_api\<close>, functions on a state \<open>'s\<close>
  of the program.  \<open>uuid\<close> (the text of the next random uuid) and \<open>replace_all_copy\<close> of boost are parameters
  too.  A program does not return; its sends are a loop over the rounds it has made.
\<close>

section \<open>The missing packages\<close>

definition bytes :: "string \<Rightarrow> byte list" where
  "bytes s = map of_char s"

type_synonym replacer = "byte list \<Rightarrow> byte list \<Rightarrow> byte list \<Rightarrow> byte list"

record ('s, 'k, 'b, 'l, 'u) kite_api =
  new_uuid :: "'s \<Rightarrow> byte list \<times> 's"
  DefaultKiteClient :: "string \<Rightarrow> string \<times> string \<Rightarrow> 'l option \<Rightarrow> 's \<Rightarrow> 'k \<times> 's"
  bindDirect :: "string \<Rightarrow> string \<Rightarrow> string \<Rightarrow> int64 \<Rightarrow> bool \<Rightarrow> 'b"
  setPublishTopics :: "'k \<Rightarrow> string list \<Rightarrow> 's \<Rightarrow> 's"
  setBindings :: "'k \<Rightarrow> 'b list \<Rightarrow> 's \<Rightarrow> 's"
  start_client :: "'k \<Rightarrow> 's \<Rightarrow> 's"
  sendStringMessage :: "'k \<Rightarrow> 'u stringMessage \<Rightarrow> 's \<Rightarrow> 's"
  sendTxMessage :: "'k \<Rightarrow> 'u stringMessage \<Rightarrow> 's \<Rightarrow> 's"
  print_line :: "byte list \<Rightarrow> 's \<Rightarrow> 's"
  replace_all_copy :: replacer

text \<open>The documented behaviour of \<open>replace_all_copy\<close> that the programs use: every dash is dropped.\<close>

definition drops_dashes :: "replacer \<Rightarrow> bool" where
  "drops_dashes ra \<longleftrightarrow> (\<forall>u. ra u (bytes ''-'') [] = filter (\<lambda>c. c \<noteq> 0x2D) u)"

text \<open>The text of a uuid: 36 characters, 4 of them dashes.\<close>

definition uuid_text :: "byte list \<Rightarrow> bool" where
  "uuid_text u \<longleftrightarrow> length u = 36 \<and> length (filter (\<lambda>c. c = 0x2D) u) = 4"

section \<open>Building a message\<close>

text \<open>
  \<open>buildMessage\<close> of the two producers.  The four arguments are not used, nor is the time it reads.
  \<open>set_topic\<close> and its like take a \<open>const char*\<close> here, \<open>set_messageid\<close> a string.
\<close>

definition buildMessage ::
  "replacer \<Rightarrow> byte list \<Rightarrow> string \<Rightarrow> string \<Rightarrow> string \<Rightarrow> string \<Rightarrow> 'u stringMessage" where
  "buildMessage ra u topic gid messageType body =
     (let h = Header_new;
          h = Header_set_messageid (ra u (bytes ''-'') []) h;
          h = Header_set_topic_chars (bytes ''trade'') h;
          h = Header_set_messagetype_chars (bytes ''pay-succ'') h;
          h = Header_set_expiredtime 1845173857 h;
          h = Header_set_deliverlimit 100 h;
          h = Header_set_groupid_chars (bytes ''go-kite-test'') h;
          h = Header_set_commit True h;
          h = Header_set_fly False h;
          m = StringMessage_new;
          m = StringMessage_set_body_chars (bytes ''hello world'') m
      in StringMessage_set_allocated_header (Some h) m)"

definition tx_buildMessage ::
  "replacer \<Rightarrow> byte list \<Rightarrow> string \<Rightarrow> string \<Rightarrow> string \<Rightarrow> string \<Rightarrow> 'u stringMessage" where
  "tx_buildMessage ra u topic gid messageType body =
     (let h = Header_new;
          h = Header_set_messageid (ra u (bytes ''-'') []) h;
          h = Header_set_topic_chars (bytes ''trade'') h;
          h = Header_set_messagetype_chars (bytes ''pay-succ'') h;
          h = Header_set_expiredtime 1445173857 h;
          h = Header_set_deliverlimit 100 h;
          h = Header_set_groupid_chars (bytes ''go-kite-test'') h;
          h = Header_set_commit False h;
          h = Header_set_fly False h;
          m = StringMessage_new;
          m = StringMessage_set_body_chars (bytes ''hello world'') m
      in StringMessage_set_allocated_header (Some h) m)"

section \<open>The producers\<close>

text \<open>\<open>lexical_cast\<close> of the number; what it prints does not matter, so it is an argument.\<close>

definition producer_init :: "('s, 'k, 'b, 'l, 'u) kite_api \<Rightarrow> 's \<Rightarrow> 'k \<times> 's" where
  "producer_init A s =
     (let s = print_line A (bytes ''pro-mts-test'') s;
          s = print_line A (bytes ''123456'') s;
          (k, s) = DefaultKiteClient A ''172.16.1.96:2181'' (''pro-mts-test'', ''123456'') None s;
          s = setPublishTopics A k [''trade''] s
      in (k, start_client A k s))"

text \<open>One turn of the loop: \<open>index\<close> is its variable, \<open>uid\<close> the shared counter.\<close>

definition producer_round ::
  "('s, 'k, 'b, 'l, 'u) kite_api \<Rightarrow> (int \<Rightarrow> string) \<Rightarrow> 'k \<Rightarrow> int \<Rightarrow> counter \<times> 's \<Rightarrow> counter \<times> 's" where
  "producer_round A dec k i = (\<lambda>(uid, s).
     let (n, uid) = getAndIncrement uid;
         (u, s) = new_uuid A s;
         m = buildMessage (replace_all_copy A) u ''trade'' ''pro-mts-test'' ''pay-succ'' (dec (sint (ucast n :: int32)));
         s = print_line A (phd_messageid (StringMessage_header m) @ bytes ''  index:'' @ bytes (dec i)) s
     in (uid, sendStringMessage A k m s))"

definition producer_main :: "('s, 'k, 'b, 'l, 'u) kite_api \<Rightarrow> (int \<Rightarrow> string) \<Rightarrow> 's \<Rightarrow> counter \<times> 's" where
  "producer_main A dec s =
     (let (k, s) = producer_init A s
      in fold (producer_round A dec k) [0..9999] (Counter0, s))"

definition tx_init :: "('s, 'k, 'b, 'l, 'u) kite_api \<Rightarrow> 'l \<Rightarrow> 's \<Rightarrow> 'k \<times> 's" where
  "tx_init A l s =
     (let s = print_line A (bytes ''s-mts-test'') s;
          s = print_line A (bytes ''123456'') s;
          (k, s) = DefaultKiteClient A ''127.0.0.1:2181'' (''s-mts-test'', ''123456'') (Some l) s;
          s = setPublishTopics A k [''trade''] s
      in (k, start_client A k s))"

definition tx_round ::
  "('s, 'k, 'b, 'l, 'u) kite_api \<Rightarrow> (int \<Rightarrow> string) \<Rightarrow> 'k \<Rightarrow> counter \<times> 's \<Rightarrow> counter \<times> 's" where
  "tx_round A dec k = (\<lambda>(uid, s).
     let (n, uid) = getAndIncrement uid;
         (u, s) = new_uuid A s;
         m = tx_buildMessage (replace_all_copy A) u ''trade'' ''s-mts-test'' ''pay-succ'' (dec (sint (ucast n :: int32)));
         s = print_line A (phd_messageid (StringMessage_header m)) s
     in (uid, sendTxMessage A k m s))"

text \<open>The transactional producer after \<open>n\<close> turns of its \<open>while(1)\<close>.\<close>

definition tx_main :: "('s, 'k, 'b, 'l, 'u) kite_api \<Rightarrow> (int \<Rightarrow> string) \<Rightarrow> 'l \<Rightarrow> nat \<Rightarrow> 's \<Rightarrow> counter \<times> 's" where
  "tx_main A dec l n s = (let (k, s) = tx_init A l s in (tx_round A dec k ^^ n) (Counter0, s))"

section \<open>The listeners\<close>

text \<open>
  The consumer's listener counts in an \<open>int\<close>, whose overflow is undefined (\<open>None\<close>), and prints the id of the
  message up to its first NUL.  The transactional producer's listener answers a check with false; its callback
  commits at once, with \<open>commit\<close> of the missing \<open>TxResponse\<close>.
\<close>

definition consumer_onMessage :: "'u msgHeader \<Rightarrow> int32 \<Rightarrow> (bool \<times> byte list \<times> int32) option" where
  "consumer_onMessage h i = (if i = 2 ^ 31 - 1 then None else Some (True, c_str (phd_messageid h), i + 1))"

definition tx_onMessage :: "'m \<Rightarrow> bool" where
  "tx_onMessage m = True"

definition tx_onMessageCheck :: "'t \<Rightarrow> bool" where
  "tx_onMessageCheck t = False"

definition doTransaction :: "('t \<Rightarrow> 's \<Rightarrow> 's) \<Rightarrow> 't \<Rightarrow> 's \<Rightarrow> 's" where
  "doTransaction commit t s = commit t s"

definition consumer_main :: "('s, 'k, 'b, 'l, 'u) kite_api \<Rightarrow> 'l \<Rightarrow> 's \<Rightarrow> 's" where
  "consumer_main A l s =
     (let b = bindDirect A ''s-mts-test'' ''trade'' ''pay-succ'' 1000 True;
          (k, s) = DefaultKiteClient A ''172.16.1.96:2181'' (''s-mts-test'', ''123456'') (Some l) s;
          s = setBindings A k [b] s
      in start_client A k s)"

section \<open>What the programs do\<close>

lemma bytes_lits: "c_str (bytes ''trade'') = bytes ''trade''" "c_str (bytes ''pay-succ'') = bytes ''pay-succ''"
  "c_str (bytes ''go-kite-test'') = bytes ''go-kite-test''" "c_str (bytes ''hello world'') = bytes ''hello world''"
  by (simp_all add: bytes_def c_str_def)

lemma length_bytes [simp]: "length (bytes s) = length s"
  by (simp add: bytes_def)

lemma uuid_id: "drops_dashes ra \<Longrightarrow> uuid_text u \<Longrightarrow> length (ra u (bytes ''-'') []) = 32"
  using sum_length_filter_compl [of "\<lambda>c. c = 0x2D" u] by (simp add: drops_dashes_def uuid_text_def)

text \<open>Both producers build a message of their own by the accessors, complete and ready to be sent.\<close>

lemma header_filled_made:
  "length mid < 2 ^ 31 \<Longrightarrow> Header_made (Header_set_fly False (Header_set_commit c (Header_set_groupid_chars (bytes ''go-kite-test'')
     (Header_set_deliverlimit 100 (Header_set_expiredtime t (Header_set_messagetype_chars (bytes ''pay-succ'')
     (Header_set_topic_chars (bytes ''trade'') (Header_set_messageid mid Header_new))))))))"
  by (intro Header_made.intros) (simp_all add: bytes_lits)

lemma built_message_made:
  assumes "drops_dashes ra" and "uuid_text u"
    and "m = buildMessage ra u t g mt b \<or> m = tx_buildMessage ra u t g mt b"
  shows "StringMessage_made m"
  using assms(3) uuid_id [OF assms(1,2)]
  by (auto simp: buildMessage_def tx_buildMessage_def Let_def bytes_lits
      intro!: StringMessage_made.intros header_filled_made)

lemma built_message_fields:
  assumes "drops_dashes ra" and "uuid_text u"
    and "m = buildMessage ra u t g mt b \<or> m = tx_buildMessage ra u t g mt b"
  obtains ex c where "m = \<lparr>stm_bits = 3, stm_header = Some \<lparr>phd_bits = 255, phd_messageid = ra u (bytes ''-'') [],
      phd_topic = bytes ''trade'', phd_messagetype = bytes ''pay-succ'', phd_expiredtime = ex, phd_deliverlimit = 100,
      phd_groupid = bytes ''go-kite-test'', phd_commit = c, phd_fly = False, phd_properties = [], phd_createtime = 0,
      phd_unknown = None, phd_cached = 0\<rparr>, stm_body = bytes ''hello world'', stm_unknown = None, stm_cached = 0\<rparr>"
    "ex = 1845173857 \<or> ex = 1445173857"
  using assms(3)
  by (auto simp: buildMessage_def tx_buildMessage_def Let_def bytes_lits Header_accessor_defs Header_set_defs Header_new_def
      StringMessage_accessor_defs StringMessage_set_defs StringMessage_new_def)

lemma built_message_ok:
  assumes "drops_dashes ra" and "uuid_text u"
    and "m = buildMessage ra u t g mt b \<or> m = tx_buildMessage ra u t g mt b"
  shows "StringMessage_IsInitialized m" and "pb_fits std_wire (StringMessageM m)"
    and "fst (pb_ByteSize std_wire (StringMessageM m)) = 92"
proof -
  obtain ex c where m: "m = \<lparr>stm_bits = 3, stm_header = Some \<lparr>phd_bits = 255, phd_messageid = ra u (bytes ''-'') [],
      phd_topic = bytes ''trade'', phd_messagetype = bytes ''pay-succ'', phd_expiredtime = ex, phd_deliverlimit = 100,
      phd_groupid = bytes ''go-kite-test'', phd_commit = c, phd_fly = False, phd_properties = [], phd_createtime = 0,
      phd_unknown = None, phd_cached = 0\<rparr>, stm_body = bytes ''hello world'', stm_unknown = None, stm_cached = 0\<rparr>"
    and ex: "ex = 1845173857 \<or> ex = 1445173857"
    by (rule built_message_fields [OF assms])
  show "StringMessage_IsInitialized m"
    by (simp add: m StringMessage_IsInitialized_def StringMessage_has_defs header_initialized_def Header_IsInitialized_def)
  have h: "fst (Header_ByteSize std_wire (the (stm_header m))) = 77"
    using ex by (auto simp: m Header_ByteSize_def Header_has_defs uuid_id [OF assms(1,2)] size_simps Let_def)
  show "pb_fits std_wire (StringMessageM m)"
    using h by (simp add: pb_fits_def m Header_fits_def)
  show "fst (pb_ByteSize std_wire (StringMessageM m)) = 92"
    using h by (simp add: m StringMessage_ByteSize_def StringMessage_has_defs header_size_def size_simps Let_def)
qed

lemma built_message_good:
  assumes "drops_dashes ra" and "uuid_text u"
    and "m = buildMessage ra u t g mt b \<or> m = tx_buildMessage ra u t g mt b"
  shows "pb_good std_wire (StringMessageM m)"
  by (rule pb_made_good) (simp_all add: built_message_made [OF assms] built_message_ok [OF assms])

section \<open>What is sent\<close>

text \<open>
  What the client package is asked to do, seen from outside: \<open>sent\<close> lists the messages handed to it and
  \<open>drawn\<close> the uuids, in order; nothing else the programs call sends or draws.
\<close>

definition kite_api_ok ::
  "('s, 'k, 'b, 'l, 'u) kite_api \<Rightarrow> ('s \<Rightarrow> 'u stringMessage list) \<Rightarrow> ('s \<Rightarrow> byte list list) \<Rightarrow> bool" where
  "kite_api_ok A sent drawn \<longleftrightarrow>
     (\<forall>s. sent (snd (new_uuid A s)) = sent s \<and> drawn (snd (new_uuid A s)) = drawn s @ [fst (new_uuid A s)]) \<and>
     (\<forall>k m s. sent (sendStringMessage A k m s) = sent s @ [m] \<and> drawn (sendStringMessage A k m s) = drawn s) \<and>
     (\<forall>k m s. sent (sendTxMessage A k m s) = sent s @ [m] \<and> drawn (sendTxMessage A k m s) = drawn s) \<and>
     (\<forall>x s. sent (print_line A x s) = sent s \<and> drawn (print_line A x s) = drawn s) \<and>
     (\<forall>z g l s. sent (snd (DefaultKiteClient A z g l s)) = sent s \<and> drawn (snd (DefaultKiteClient A z g l s)) = drawn s) \<and>
     (\<forall>k ts s. sent (setPublishTopics A k ts s) = sent s \<and> drawn (setPublishTopics A k ts s) = drawn s) \<and>
     (\<forall>k s. sent (start_client A k s) = sent s \<and> drawn (start_client A k s) = drawn s)"

lemma args_unused:
  "buildMessage ra u t g mt b = buildMessage ra u [] [] [] []"
  "tx_buildMessage ra u t g mt b = tx_buildMessage ra u [] [] [] []"
  by (simp_all add: buildMessage_def tx_buildMessage_def)

lemma api_simps:
  assumes "kite_api_ok A sent drawn"
  shows "sent (snd (new_uuid A s)) = sent s" "drawn (snd (new_uuid A s)) = drawn s @ [fst (new_uuid A s)]"
    "sent (sendStringMessage A k m s) = sent s @ [m]" "drawn (sendStringMessage A k m s) = drawn s"
    "sent (sendTxMessage A k m s) = sent s @ [m]" "drawn (sendTxMessage A k m s) = drawn s"
    "sent (print_line A x s) = sent s" "drawn (print_line A x s) = drawn s"
    "sent (snd (DefaultKiteClient A z g l s)) = sent s" "drawn (snd (DefaultKiteClient A z g l s)) = drawn s"
    "sent (setPublishTopics A k ts s) = sent s" "drawn (setPublishTopics A k ts s) = drawn s"
    "sent (start_client A k s) = sent s" "drawn (start_client A k s) = drawn s"
  using assms by (cases g; simp_all add: kite_api_ok_def)+

lemma round_effects:
  assumes "kite_api_ok A sent drawn"
  shows "drawn (snd (producer_round A dec k i (uid, s))) = drawn s @ [fst (new_uuid A s)]"
    "count (fst (producer_round A dec k i (uid, s))) = count uid + 1"
    "sent (snd (producer_round A dec k i (uid, s))) =
      sent s @ [buildMessage (replace_all_copy A) (fst (new_uuid A s)) [] [] [] []]"
    "drawn (snd (tx_round A dec k (uid, s))) = drawn s @ [fst (new_uuid A s)]"
    "count (fst (tx_round A dec k (uid, s))) = count uid + 1"
    "sent (snd (tx_round A dec k (uid, s))) =
      sent s @ [tx_buildMessage (replace_all_copy A) (fst (new_uuid A s)) [] [] [] []]"
  by (simp_all add: producer_round_def tx_round_def getAndIncrement_def Let_def case_prod_beta api_simps [OF assms]
      args_unused(1) [of _ _ "''trade''"] args_unused(2) [of _ _ "''trade''"])

lemma producer_rounds:
  assumes "kite_api_ok A sent drawn"
  shows "\<exists>us uid' s'. fold (producer_round A dec k) is (uid, s) = (uid', s') \<and> length us = length is \<and>
    drawn s' = drawn s @ us \<and> count uid' = count uid + of_nat (length is) \<and>
    sent s' = sent s @ map (\<lambda>u. buildMessage (replace_all_copy A) u [] [] [] []) us"
proof (induction "is" arbitrary: uid s)
  case Nil
  then show ?case by simp
next
  case (Cons i "is")
  obtain uid1 s1 where r: "producer_round A dec k i (uid, s) = (uid1, s1)" by fastforce
  then have s1: "drawn s1 = drawn s @ [fst (new_uuid A s)]" "count uid1 = count uid + 1"
    "sent s1 = sent s @ [buildMessage (replace_all_copy A) (fst (new_uuid A s)) [] [] [] []]"
    using round_effects(1-3) [OF assms, of dec k i uid s] by simp_all
  obtain us uid' s' where "fold (producer_round A dec k) is (uid1, s1) = (uid', s')" "length us = length is"
    "drawn s' = drawn s1 @ us" "count uid' = count uid1 + of_nat (length is)"
    "sent s' = sent s1 @ map (\<lambda>u. buildMessage (replace_all_copy A) u [] [] [] []) us"
    using Cons.IH [of uid1 s1] by blast
  then show ?case
    using r s1 by (intro exI [of _ "fst (new_uuid A s) # us"] exI [of _ uid'] exI [of _ s']) simp
qed

lemma tx_rounds:
  assumes "kite_api_ok A sent drawn"
  shows "\<exists>us uid' s'. (tx_round A dec k ^^ n) (uid, s) = (uid', s') \<and> length us = n \<and>
    drawn s' = drawn s @ us \<and> count uid' = count uid + of_nat n \<and>
    sent s' = sent s @ map (\<lambda>u. tx_buildMessage (replace_all_copy A) u [] [] [] []) us"
proof (induction n)
  case 0
  then show ?case by simp
next
  case (Suc n)
  then obtain us uid1 s1 where IH: "(tx_round A dec k ^^ n) (uid, s) = (uid1, s1)" "length us = n"
    "drawn s1 = drawn s @ us" "count uid1 = count uid + of_nat n"
    "sent s1 = sent s @ map (\<lambda>u. tx_buildMessage (replace_all_copy A) u [] [] [] []) us"
    by blast
  obtain uid2 s2 where r: "tx_round A dec k (uid1, s1) = (uid2, s2)" by fastforce
  then have "drawn s2 = drawn s1 @ [fst (new_uuid A s1)]" "count uid2 = count uid1 + 1"
    "sent s2 = sent s1 @ [tx_buildMessage (replace_all_copy A) (fst (new_uuid A s1)) [] [] [] []]"
    using round_effects(4-6) [OF assms, of dec k uid1 s1] by simp_all
  then show ?case
    using IH r by (intro exI [of _ "us @ [fst (new_uuid A s1)]"] exI [of _ uid2] exI [of _ s2]) (simp add: algebra_simps)
qed

lemma init_silent:
  assumes "kite_api_ok A sent drawn"
  shows "sent (snd (producer_init A s)) = sent s" "drawn (snd (producer_init A s)) = drawn s"
    "sent (snd (tx_init A l s)) = sent s" "drawn (snd (tx_init A l s)) = drawn s"
  by (simp_all add: producer_init_def tx_init_def Let_def case_prod_beta api_simps [OF assms])

text \<open>The consumer's counter counts the messages it has handled, up to the last \<open>int\<close>.\<close>

fun consume :: "'u msgHeader list \<Rightarrow> int32 \<Rightarrow> int32 option" where
  "consume [] i = Some i"
| "consume (h # hs) i = (case consumer_onMessage h i of None \<Rightarrow> None | Some (_, _, i) \<Rightarrow> consume hs i)"

lemma consume_counts: "uint i + int (length hs) < 2 ^ 31 \<Longrightarrow> consume hs i = Some (i + of_nat (length hs))"
proof (induction hs arbitrary: i)
  case (Cons h hs)
  have i: "uint i < 2 ^ 31 - 1" using Cons.prems by simp
  then have "i \<noteq> 2 ^ 31 - 1" by auto
  moreover have "uint (i + 1) = uint i + 1"
    using i by (simp add: uint_word_ariths)
  ultimately show ?case using Cons by (simp add: consumer_onMessage_def algebra_simps)
qed simp

section \<open>Properties of the examples\<close>


text \<open>A client package that only records: the state holds the uuids drawn and the messages sent.\<close>

definition recorder :: "(byte list list \<times> byte list stringMessage list, unit, unit, unit, byte list) kite_api" where
  "recorder = \<lparr>new_uuid = (\<lambda>(us, ms). ([of_nat (length us)], (us @ [[of_nat (length us)]], ms))),
     DefaultKiteClient = (\<lambda>z g l s. ((), s)), bindDirect = (\<lambda>g t m w p. ()), setPublishTopics = (\<lambda>k ts s. s),
     setBindings = (\<lambda>k bs s. s), start_client = (\<lambda>k s. s), sendStringMessage = (\<lambda>k m (us, ms). (us, ms @ [m])),
     sendTxMessage = (\<lambda>k m (us, ms). (us, ms @ [m])), print_line = (\<lambda>x s. s),
     replace_all_copy = (\<lambda>u x y. filter (\<lambda>c. [c] \<noteq> x) u)\<rparr>"

lemma recorder_ok: "kite_api_ok recorder snd fst"
  by (simp add: kite_api_ok_def recorder_def split: prod.splits)


end
