(* ===== verification/ThreadPools.thy ===== *)
theory ThreadPools
  imports Prelude
begin

text \<open>
  \<^verbatim>\<open>commons/Configs.h\<close>, \<^verbatim>\<open>ThreadPoolManager.hpp\<close>, \<^verbatim>\<open>ThreadPoolManager.cpp\<close> and
  \<^verbatim>\<open>NoKiteqServerException.h\<close>: two static pools of the boost threadpool library and an exception.  The library
  is the record \<open>pool_library\<close>; the other files use none of this.
\<close>

definition THREAD_CORE_POOL_SIZE :: int where "THREAD_CORE_POOL_SIZE = 5"
definition THREAD_MAX_POOL_SIZE :: int where "THREAD_MAX_POOL_SIZE = 100"
definition THREAD_KEEPALIVE_TIME :: int where "THREAD_KEEPALIVE_TIME = 300"

definition corePoolSize :: int where "corePoolSize = THREAD_CORE_POOL_SIZE"
definition maximumPoolSize :: int where "maximumPoolSize = THREAD_MAX_POOL_SIZE"
definition keepAliveTime :: int where "keepAliveTime = THREAD_KEEPALIVE_TIME"

record 'p pool_library =
  new_pool :: "int \<Rightarrow> 'p"
  clear_pool :: "'p \<Rightarrow> 'p"

record 'p threadPoolManager =
  dispatcherExecutor :: 'p
  workerExecutor :: 'p

text \<open>The static members before \<open>main\<close>.\<close>

definition ThreadPoolManager :: "'p pool_library \<Rightarrow> 'p threadPoolManager" where
  "ThreadPoolManager B = \<lparr>dispatcherExecutor = new_pool B corePoolSize, workerExecutor = new_pool B corePoolSize\<rparr>"

definition getDispatcherExecutor :: "'p threadPoolManager \<Rightarrow> 'p" where
  "getDispatcherExecutor m = dispatcherExecutor m"

definition getWorkerExecutor :: "'p threadPoolManager \<Rightarrow> 'p" where
  "getWorkerExecutor m = workerExecutor m"

definition tpm_shutdown :: "'p pool_library \<Rightarrow> 'p threadPoolManager \<Rightarrow> 'p threadPoolManager" where
  "tpm_shutdown B m =
     (let m = m\<lparr>workerExecutor := clear_pool B (workerExecutor m)\<rparr>
      in m\<lparr>dispatcherExecutor := clear_pool B (dispatcherExecutor m)\<rparr>)"

definition shutdownExecutor :: "'p pool_library \<Rightarrow> 'p \<Rightarrow> 'p" where
  "shutdownExecutor B executor = clear_pool B executor"

text \<open>The exception is an \<open>out_of_range\<close> whose text is the topic.\<close>

datatype out_of_range = out_of_range (what: string)

definition NoKiteqServerException :: "string \<Rightarrow> out_of_range" where
  "NoKiteqServerException topic = out_of_range topic"

text \<open>
  The documented behaviour of the library: a new pool of \<open>n\<close> threads has no tasks; \<open>clear\<close> drops the tasks that
  wait and keeps the threads.
\<close>

definition pools_ok :: "'p pool_library \<Rightarrow> ('p \<Rightarrow> int) \<Rightarrow> ('p \<Rightarrow> nat) \<Rightarrow> bool" where
  "pools_ok B threads waiting \<longleftrightarrow>
     (\<forall>n. threads (new_pool B n) = n \<and> waiting (new_pool B n) = 0) \<and>
     (\<forall>p. threads (clear_pool B p) = threads p \<and> waiting (clear_pool B p) = 0)"

text \<open>\<open>shutdown\<close> is no shutdown: no task waits any more, but all the threads are there and take the next one.\<close>

lemma shutdown_keeps_threads:
  assumes "pools_ok B threads waiting"
  shows "waiting (getWorkerExecutor (tpm_shutdown B m)) = 0" and "waiting (getDispatcherExecutor (tpm_shutdown B m)) = 0"
    and "threads (getWorkerExecutor (tpm_shutdown B (ThreadPoolManager B))) = 5"
    and "threads (getDispatcherExecutor (tpm_shutdown B (ThreadPoolManager B))) = 5"
  using assms
  by (simp_all add: pools_ok_def tpm_shutdown_def getWorkerExecutor_def getDispatcherExecutor_def ThreadPoolManager_def
      corePoolSize_def THREAD_CORE_POOL_SIZE_def Let_def)

end
