(* ===== verification/Spec2Isabelle.thy ===== *)
theory Spec2Isabelle
  imports IOClient PbMessages FutureSpec CJsonHeapNames CJsonError Examples ThreadPools
begin

text \<open>
  A model of the KiteQ client of this repository (C++, under \<^verbatim>\<open>src/\<close>) and the theorems that make
  it correct.  This theory holds this guide and the properties that span all components.

  \<^bold>\<open>The program.\<close>  \<open>asioKiteIOClient\<close> keeps one TCP connection to a KiteQ server.  A request is a
  protocol buffer message in a \<open>KitePacket\<close> (23 bytes of header and the message), which the
  \<open>asioSession\<close> writes to the socket; the session reads a 4-byte length, then that many bytes, and
  hands the parsed packet to \<open>handle_read_pkg\<close> on the I/O thread.  Responses are matched by their
  opaque id to the \<open>ResponseFuture\<close> a caller waits on; messages go to the listener registered for
  the server's address.  A heartbeat thread sends heartbeats and counts the missed ones.
  \<^verbatim>\<open>json/cJSON.c\<close> is a JSON library that the other files do not use.

  \<^bold>\<open>Theories and code.\<close>
  \<^item> \<open>Prelude\<close>: types \<open>byte\<close>, \<open>int16\<close>, \<open>int32\<close>, \<open>int64\<close> (words of these widths, signed where read by
    \<open>sint\<close>), reading a list by index, the collections \<open>byte_simps\<close> and \<open>state_simps\<close>.
  \<^item> \<open>ByteBuf\<close> (\<^verbatim>\<open>commons/ByteBuf.hpp\<close>): the memory of the vector up to its capacity, with size and the
    two indices; readers return \<open>None\<close> outside it.  Locales \<open>buf_writer\<close>, \<open>buf_codec\<close> (what is written is
    read back) and \<open>vector_laws\<close> (what \<open>std::vector\<close> promises), the first two sublocales of the last.
  \<^item> \<open>KitePacket\<close> (\<^verbatim>\<open>protocol/KitePacket.cpp\<close>, \<^verbatim>\<open>protocol/protocol.h\<close>, \<^verbatim>\<open>protocol.cpp\<close>): constants,
    packets, \<open>toByteBuf\<close>, \<open>parseFrom\<close>, \<open>delimPacket\<close>, the wire format \<open>packet_bytes\<close>, and the locale
    \<open>msg_runtime\<close> of what a packet needs of its messages.
  \<^item> \<open>Atomics\<close> (\<^verbatim>\<open>commons/AtomicInteger.hpp\<close>, \<^verbatim>\<open>Counter.hpp\<close>, \<^verbatim>\<open>KiteStats.*\<close>): one function per locked
    member; the locale \<open>cas_cell\<close>; increments and harvests interleaved as \<open>harvest_step\<close>.
  \<^item> \<open>Containers\<close> (\<^verbatim>\<open>commons/ConcurrentMap.hpp\<close>, \<^verbatim>\<open>ConcurrentSet.hpp\<close>, \<^verbatim>\<open>remoting/ListenerManager.*\<close>):
    the locale \<open>table\<close>, interpreted for both maps and, in \<open>Futures\<close>, for the map of futures.
  \<^item> \<open>HostPorts\<close> (\<^verbatim>\<open>commons/HostPort.hpp\<close>), over the locale \<open>splitting\<close> of \<open>boost::split\<close>.
  \<^item> \<open>Futures\<close> (\<^verbatim>\<open>remoting/ResponseFuture.cpp\<close>, \<^verbatim>\<open>KiteResponse.hpp\<close>): the objects, the static map, and
    \<open>call_step\<close>, every interleaving of calls, responses and timeouts; its invariant.  \<open>FutureSpec\<close>
    states the abstract contract of a call and that the futures refine it.
  \<^item> \<open>Session\<close> (\<^verbatim>\<open>remoting/inc/asioSession.hpp\<close>): the pending read, the two completion handlers, \<open>io_step\<close>
    and \<open>read_loop\<close> for the I/O thread over the bytes that have arrived.
  \<^item> \<open>IOClient\<close> (\<^verbatim>\<open>remoting/asioKiteIOClient.cpp\<close>, its header, \<^verbatim>\<open>remotingListener.hpp\<close>): the client's state,
    its handlers, requests, handshake, start, reconnect, heartbeat; \<open>client_run\<close> is any interleaving
    of them, the locale \<open>status_set\<close> a set of status values they stay in.
  \<^item> \<open>WireFormat\<close>: what the generated code calls in the protocol buffer library, as a record of
    parameters with the laws of locale \<open>wire_laws\<close>, and the state machine of a generated parser;
    \<open>WireStd\<close>: an instance that keeps the laws.
  \<^item> \<open>PbHeartBeat\<close>, \<open>PbConnMeta\<close>, \<open>PbConnAuthAck\<close>, \<open>PbMessageStoreAck\<close>, \<open>PbDeliverAck\<close>, \<open>PbEntry\<close>, \<open>PbHeader\<close>,
    \<open>PbTxACKPacket\<close>, \<open>PbBytesMessage\<close>, \<open>PbStringMessage\<close> (\<^verbatim>\<open>generated/kite_remoting.pb.cc\<close> and
    \<^verbatim>\<open>.pb.h\<close>): one class each.  \<open>PbMessages\<close>: the classes as one type, virtual dispatch, and locale
    \<open>pb_library\<close>, a sublocale of \<open>msg_runtime\<close>: what the packets need, the generated code gives.
  \<^item> \<open>PbAccessors\<close> (\<^verbatim>\<open>.pb.h\<close>, the inline accessors, and their \<^verbatim>\<open>.pb.cc\<close> part): clearing, setting,
    \<open>mutable_x\<close>, \<open>release_x\<close>, \<open>set_allocated_x\<close>; the messages a program can build with them (\<open>M_made\<close> of
    each class) can be serialised and read back.
  \<^item> \<open>CJsonText\<close>, \<open>CJson\<close>, \<open>CJsonList\<close> (\<^verbatim>\<open>json/cJSON.c\<close>, \<^verbatim>\<open>cJSON.h\<close>): strings; numbers, parser and
    printer; the functions on children.  \<open>CJsonProps\<close>, \<open>CJsonNumber\<close>, \<open>CJsonRoundtrip\<close>: their lemmas;
    \<open>CJsonError\<close>: the error pointer.
  \<^item> \<open>CJsonHeap\<close>, \<open>CJsonHeapOps\<close>, \<open>CJsonHeapDoc\<close>, \<open>CJsonHeapNames\<close>: the same functions on children as the
    source has them, pointer programs over cells linked by \<open>next\<close>, \<open>prev\<close> and \<open>child\<close>, with \<open>cJSON_Delete\<close> and references;
    who owns which block; that the pointer programs refine the functions of \<open>CJsonList\<close>, by index and by name.
  \<^item> \<open>Examples\<close> (\<^verbatim>\<open>example/\<close>): the producers and the consumer over the missing client package, the record
    \<open>kite_api\<close>.
  \<^item> \<open>ThreadPools\<close> (\<^verbatim>\<open>commons/ThreadPoolManager.*\<close>, \<^verbatim>\<open>Configs.h\<close>, \<^verbatim>\<open>NoKiteqServerException.h\<close>), which
    nothing else uses.

  \<^bold>\<open>Conventions.\<close>  Undefined behaviour, exceptions and calls that do not return are values:
  \<open>None\<close> of an option, \<open>Inl\<close> of a \<open>fault\<close> or a \<open>future_error\<close>, \<open>Undef\<close> of an \<open>outcome\<close>.  Loops that may not
  end are \<open>partial_function (option)\<close>.  What other threads do between two steps of an operation is a
  parameter of it.  The machine is x86-64 with signed \<open>char\<close>; signed overflow wraps.

  \<^bold>\<open>What is shown.\<close>  Round trips of packets, of every message class, of addresses, JSON values
  and strings; that frames are delivered in order however the stream is cut; that a message sent by
  one client reaches another's listener, and a request gets the response with its id or none; the
  invariants of the futures, of the client's status, of the counters; termination of the parsers;
  bounds of what may be parsed; and the defects the model shows: the signed length of a frame, the
  oversized frame, \<open>readLong\<close>, the hanging \<open>toByteBuf\<close>, the status after giving up, the null address,
  the overflowing \<open>\\u\<close> escape, surrogate pairs.

  \<^bold>\<open>Bounds and fuel.\<close>  Sizes of packets are below 2^31, those of frames below the 32768 the session
  accepts.  The loops of \<open>start\<close> and \<open>reconnect\<close> end after ten attempts by the code's own test.
  \<open>read_loop\<close> and \<open>client_loop\<close> recurse on the bytes left and on which read is pending.  The JSON
  parser has fuel \<open>parse_fuel\<close>, twice the length of the text plus two: every recursive call is on a
  shorter text or moves from a container to its first child; \<open>json_parser_returns\<close> shows that it is
  enough and that more changes nothing.

  \<^bold>\<open>Not modelled.\<close>  \<^verbatim>\<open>protocol/KitePacketHeader\<close>, the protocol buffer library, boost and the standard
  library are not under \<^verbatim>\<open>src/\<close>: parameters, with hypotheses where a property needs them.  Sockets and
  their errors beyond the codes passed to the handlers; the life time of buffers; destructors; logging.  Of the
  generated code the descriptors and their registration, which keep no state of a message.  The parser and the
  printer of cJSON work on items here, not on the heap.  \<^verbatim>\<open>KiteIOClient.h\<close> declares pure virtual functions only.
\<close>

section \<open>Across the components\<close>

text \<open>What is written for a packet made from a command and a generated message.\<close>

lemma written_on_wire:
  assumes "vector_ok V" and "pb_library W rs L" and "pb_good W m" and "fst (pb_ByteSize W m) = int n"
    and "n + 23 < 2 ^ 31" and "vreserve V (n + 24) < 2 ^ 31" and "vreserve V (n + 1) < 2 ^ 31"
  shows "\<exists>num p'. toByteBuf V (gen_rt W L) (KitePacket_cmd H cmd (Some m)) = Some (Some (num, p')) \<and> num > 0 \<and>
    sent_bytes (num, p') = wire (gen_rt W L) (hdr_cmd H cmd, m) \<and> length (wire (gen_rt W L) (hdr_cmd H cmd, m)) = n + 23"
proof -
  let ?R = "gen_rt W L" and ?p = "KitePacket_cmd H cmd (Some m)"
  have v: "vector_laws V" using assms(1) by (rule vector_laws.intro)
  have size: "rt_ByteSize ?R m = int n" using assms(4) by (simp add: gen_rt_def)
  have "int n = int (length (pb_SerializeWithCachedSizesToArray W (snd (pb_ByteSize W m))))"
    using assms(4) wire_laws.pb_size [OF pb_library.axioms(1) [OF assms(2)] assms(3)] by simp
  then have len: "length (rt_SerializeToArray ?R m (int n)) = n"
    using pb_library.serialize [OF assms(2,3)] assms(4) by (simp add: gen_rt_def)
  obtain p' where "toByteBuf V ?R ?p = Some (Some (int n + 23, p'))"
    "sent_bytes (int n + 23, p') = packet_bytes (hd_of ?p) (rt_SerializeToArray ?R m (int n))"
    by (rule vector_laws.toByteBuf_fresh [OF v, of ?p m ?R n]) (use size len assms(5-7) in \<open>simp_all add: KitePacket_cmd_def\<close>)
  then show ?thesis
    by (intro exI [of _ "int n + 23"] exI [of _ p']) (simp add: wire_def size KitePacket_cmd_def packet_bytes_def len)
qed

lemma message_over_wire:
  assumes "vector_ok V" and "pb_library W rs L" and "pb_good W m" and "pb_instance k m"
    and "fst (pb_ByteSize W m) = int n" and "vreserve V (n + 24) < 2 ^ 31" and "vreserve V (n + 1) < 2 ^ 31"
    and "19 + int n < getMaxFrameLength" and "(19 + int n) mod 256 < 128"
    and "class_of_cmd (word_of_int cmd) = Some k"
    and "(word_of_int cmd, ev) \<in> {(CMD_TX_ACK, TxAckReceived), (CMD_BYTES_MESSAGE, BytesMessageReceived),
           (CMD_STRING_MESSAGE, StringMessageReceived)}"
    and "cmdType (hdr_cmd H (word_of_int cmd)) = word_of_int cmd" and "extension (hdr_cmd H (word_of_int cmd)) < 2 ^ 32"
    and "prep_ok prep" and "\<And>k. oob k 0 = 0"
    and "rop (sess d) = AwaitLen" and "read_buffer (sess d) = []" and "host_port d = Some a"
  shows "\<exists>c' bs d'. send V (gen_rt W L) H cmd (Some m) c = Inr c' \<and> written c' = written c @ [bs] \<and> length bs = n + 23 \<and>
    client_loop prep oob (gen_rt W L) None d bs = Inr (d', []) \<and>
    events d' = events d @ [(getListener (toString a) (listener_mgr d), ev (opaque (hdr_cmd H (word_of_int cmd))) (Some m))]"
proof -
  let ?R = "gen_rt W L" and ?h = "hdr_cmd H (word_of_int cmd)"
  have "n + 23 < 2 ^ 31" using assms(8) by (simp add: getMaxFrameLength_def MAX_PACKET_BYTES_def)
  then obtain num p' where p: "toByteBuf V ?R (KitePacket_cmd H (word_of_int cmd) (Some m)) = Some (Some (num, p'))" "num > 0"
    "sent_bytes (num, p') = wire ?R (?h, m)" "length (wire ?R (?h, m)) = n + 23"
    using written_on_wire [OF assms(1-3,5) _ assms(6,7)] by blast
  have size: "frame_size ?R (?h, m) = 19 + int n" using assms(5) by (simp add: frame_size_def gen_rt_def)
  have ok: "frame_ok ?R (pb_sendable W) (?h, m)"
    using assms(3,4,8,10,12,13) size by (auto simp: frame_ok_def pb_sendable_def)
  have mod: "frame_size ?R (?h, m) mod 256 < 128" using size assms(9) by simp
  have ev: "(cmdType ?h, ev) \<in> {(CMD_TX_ACK, TxAckReceived), (CMD_BYTES_MESSAGE, BytesMessageReceived),
      (CMD_STRING_MESSAGE, StringMessageReceived)}" using assms(11,12) by simp
  obtain s' where "client_loop prep oob ?R None d (wire ?R (?h, m)) = Inr ((notified a ev ?h m d)\<lparr>sess := s'\<rparr>, [])"
    using message_arrives [where oob = oob, OF pb_library.runtime [OF assms(2)] ok mod assms(14-17) ev assms(18)] by blast
  then show ?thesis
    using start_write_ok [OF p(1,2), of c] p(3,4)
    by (intro exI [of _ "c\<lparr>written := written c @ [wire ?R (?h, m)]\<rparr>"] exI [of _ "wire ?R (?h, m)"]
        exI [of _ "(notified a ev ?h m d)\<lparr>sess := s'\<rparr>"])
      (simp add: send_def notified_def notify_def)
qed


text \<open>
  C2: the example producers' messages arrive: a message that \<open>buildMessage\<close> of either producer
  makes (for any arguments and any uuid) fills 115 bytes on the wire, in the range of lengths that the
  framing handles, and the listener of the client that reads them gets it with all its fields.
\<close>

theorem example_message_received:
  assumes "vector_ok V" and "pb_library std_wire rs L" and "drops_dashes ra" and "uuid_text u"
    and "m = buildMessage ra u t g mt b \<or> m = tx_buildMessage ra u t g mt b"
    and "vreserve V 116 < 2 ^ 31" and "vreserve V 93 < 2 ^ 31"
    and "cmdType (hdr_cmd H CMD_STRING_MESSAGE) = CMD_STRING_MESSAGE" and "extension (hdr_cmd H CMD_STRING_MESSAGE) < 2 ^ 32"
    and "prep_ok prep" and "\<And>k. oob k 0 = 0"
    and "rop (sess d) = AwaitLen" and "read_buffer (sess d) = []" and "host_port d = Some a"
  shows "\<exists>c' bs d'. send V (gen_rt std_wire L) H 18 (Some (StringMessageM m)) c = Inr c' \<and>
    written c' = written c @ [bs] \<and> length bs = 115 \<and>
    client_loop prep oob (gen_rt std_wire L) None d bs = Inr (d', []) \<and>
    events d' = events d @ [(getListener (toString a) (listener_mgr d),
      StringMessageReceived (opaque (hdr_cmd H CMD_STRING_MESSAGE)) (Some (StringMessageM m)))]"
proof -
  have n: "fst (pb_ByteSize std_wire (StringMessageM m)) = int 92"
    using built_message_ok(3) [OF assms(3-5)] by simp
  have cmd: "word_of_int 18 = CMD_STRING_MESSAGE" by (simp add: CMD_STRING_MESSAGE_def)
  have "\<exists>c' bs d'. send V (gen_rt std_wire L) H 18 (Some (StringMessageM m)) c = Inr c' \<and>
      written c' = written c @ [bs] \<and> length bs = 92 + 23 \<and>
      client_loop prep oob (gen_rt std_wire L) None d bs = Inr (d', []) \<and>
      events d' = events d @ [(getListener (toString a) (listener_mgr d),
        StringMessageReceived (opaque (hdr_cmd H (word_of_int 18))) (Some (StringMessageM m)))]"
    by (rule message_over_wire [OF assms(1,2) built_message_good [OF assms(3-5)], where k = StringMessageC])
      (use n assms(6-14) in \<open>simp_all add: cmd getMaxFrameLength_def MAX_PACKET_BYTES_def class_of_cmd_def cmd_defs\<close>)
  then show ?thesis unfolding cmd by simp
qed



section \<open>Concrete instances\<close>

text \<open>A connected client of the generated messages, and the ack of a stored message.\<close>

definition pb_client :: "(byte list pb_message, nat) client" where
  "pb_client = handle_connect None (asioKiteIOClient split_at sample_ctors [0, 0, 0, 0] no_calls
     \<lparr>listeners = Map.empty, defaultListener = 0\<rparr> KiteStats ''g'' ''k'' ''h:1?x'')"

lemma pb_client_fields: "rop (sess pb_client) = AwaitLen" "read_buffer (sess pb_client) = []"
  "host_port pb_client = Some (HostPort ''h'' ''1'')" "futureMap (resp_futures pb_client) = Map.empty"
  by (simp_all add: pb_client_def handle_connect_def set_status_def asioKiteIOClient_def no_calls_def async_read_def
      async_setup_read_varint_def asioSession_def parse_def Let_def)

definition sample_ack :: "byte list pb_message" where
  "sample_ack = MessageStoreAckM (MessageStoreAck_set_feedback [1] (MessageStoreAck_set_status True
     (MessageStoreAck_set_messageid [4] MessageStoreAck_new)))"

lemma sample_ack_ok: "pb_good std_wire sample_ack" "fst (pb_ByteSize std_wire sample_ack) = 8"
  "pb_instance MessageStoreAckC sample_ack"
proof -
  have "\<forall>n. bit (7 :: int32) n \<longrightarrow> n < 3"
    by (intro allI impI, rule bits_below [rotated], assumption, simp)
  then show "pb_good std_wire sample_ack"
    by (simp add: sample_ack_def MessageStoreAck_built_def MessageStoreAck_IsInitialized_def MessageStoreAck_set_defs
        MessageStoreAck_new_def MessageStoreAck_has_defs)
  show "fst (pb_ByteSize std_wire sample_ack) = 8"
    by (simp add: sample_ack_def MessageStoreAck_ByteSize_def MessageStoreAck_set_defs MessageStoreAck_new_def
        MessageStoreAck_has_defs size_simps Let_def)
  show "pb_instance MessageStoreAckC sample_ack" by (simp add: sample_ack_def)
qed


definition sample_uuid :: "byte list" where
  "sample_uuid = bytes ''c3a9b2e0-1f7d-4c65-9a0e-5d8b7f2e6a41''"

lemma sample_uuid_ok: "uuid_text sample_uuid" "drops_dashes (replace_all_copy recorder)"
  by (simp_all add: uuid_text_def sample_uuid_def bytes_def drops_dashes_def recorder_def cong: filter_cong)

theorem example_message_received_witness:
  "\<exists>c' bs d'. send libstdcxx (gen_rt std_wire std_lite) sample_ctors 18
      (Some (StringMessageM (buildMessage (replace_all_copy recorder) sample_uuid ''x'' ''g'' ''t'' ''0''))) pb_client = Inr c' \<and>
    written c' = [bs] \<and> length bs = 115 \<and>
    client_loop any_prep x86_shl (gen_rt std_wire std_lite) None pb_client bs = Inr (d', []) \<and>
    events d' = events pb_client @ [(getListener (toString (HostPort ''h'' ''1'')) (listener_mgr pb_client),
      StringMessageReceived (opaque (hdr_cmd sample_ctors CMD_STRING_MESSAGE))
        (Some (StringMessageM (buildMessage (replace_all_copy recorder) sample_uuid ''x'' ''g'' ''t'' ''0''))))]"
proof -
  have "written pb_client = []"
    by (simp add: pb_client_def handle_connect_def set_status_def asioKiteIOClient_def Let_def)
  then show ?thesis
    using example_message_received [OF libstdcxx_ok gen.pb_library_axioms sample_uuid_ok(2,1) disjI1 [OF refl],
        where H = sample_ctors and prep = any_prep and oob = x86_shl and d = pb_client and c = pb_client]
    by (simp add: pb_client_fields libstdcxx_def any_prep_ok x86_shl_0 sample_ctors_def hdr_sample_def)
qed

definition ack_arrives :: "(byte list pb_message, nat) others" where
  "ack_arrives = \<lparr>wait = (\<lambda>x. case client_loop any_prep x86_shl (gen_rt std_wire std_lite) None x
       (wire (gen_rt std_wire std_lite) (hdr_sample CMD_MESSAGE_STORE_ACK, sample_ack)) of Inr (x', _) \<Rightarrow> x' | _ \<Rightarrow> x),
     late = (\<lambda>f. f), hbenv = (\<lambda>k x. x), now_after = 1000\<rparr>"


end
